(* ===== verification/Prelude.thy ===== *)
theory Prelude
  imports Complex_Main
begin

text \<open>
  Shared vocabulary of the development: the Python run-time behaviour the game relies
  on (truncating \<open>int()\<close> on floats, float \<open>%\<close>, list indexing and dictionary lookup
  that raise), the error type that makes those raises values, and the lemma
  collections the component theories fill.  Python floats are idealised as \<open>real\<close>
  (rounding is not modelled); Python ints are \<open>int\<close>.
\<close>

named_theorems model_defs
  "definitions of the game model unfolded when a concrete run is evaluated"

named_theorems inv_intros
  "one-step preservation lemmas of the model's invariants"

subsection \<open>Python errors as values\<close>

text \<open>
  Every raise the game can reach is a value of \<open>py_error\<close>; a fallible operation
  returns \<open>py_error + 'a\<close>, \<open>Inl\<close> being the exception.
\<close>

datatype py_error = KeyError | IndexError | ZeroDivisionError | FileNotFoundError string

type_synonym 'a result = "py_error + 'a"

definition py_nth :: "'a list \<Rightarrow> nat \<Rightarrow> 'a result" where
  \<comment> \<open>\<open>xs[i]\<close> for a non-negative index: IndexError past the end\<close>
  "py_nth xs i = (if i < length xs then Inr (xs ! i) else Inl IndexError)"

definition py_lookup :: "('k \<rightharpoonup> 'v) \<Rightarrow> 'k \<Rightarrow> 'v result" where
  \<comment> \<open>\<open>d[k]\<close>: KeyError for a missing key\<close>
  "py_lookup m k = (case m k of None \<Rightarrow> Inl KeyError | Some v \<Rightarrow> Inr v)"

definition r_bind :: "'a result \<Rightarrow> ('a \<Rightarrow> 'b result) \<Rightarrow> 'b result" where
  \<comment> \<open>sequencing: an exception of the first step propagates, as in Python\<close>
  "r_bind r f = (case r of Inl e \<Rightarrow> Inl e | Inr a \<Rightarrow> f a)"

subsection \<open>Numbers\<close>

definition py_int :: "real \<Rightarrow> int" where
  \<comment> \<open>\<open>int(x)\<close> on a float truncates towards zero\<close>
  "py_int x = (if 0 \<le> x then \<lfloor>x\<rfloor> else \<lceil>x\<rceil>)"

definition py_fmod :: "real \<Rightarrow> real \<Rightarrow> real" where
  \<comment> \<open>\<open>a % b\<close> on floats: the result has the sign of \<open>b\<close>\<close>
  "py_fmod a b = a - b * of_int \<lfloor>a / b\<rfloor>"

definition hypot :: "real \<Rightarrow> real \<Rightarrow> real" where
  "hypot x y = sqrt (x\<^sup>2 + y\<^sup>2)"

declare py_nth_def [model_defs] py_lookup_def [model_defs] r_bind_def [model_defs] py_int_def [model_defs]
  py_fmod_def [model_defs] hypot_def [model_defs]

subsection \<open>Generic lemmas\<close>

lemma py_nth_Inr [simp]: "i < length xs \<Longrightarrow> py_nth xs i = Inr (xs ! i)"
  by (simp add: py_nth_def)

lemma py_lookup_Some [simp]: "m k = Some v \<Longrightarrow> py_lookup m k = Inr v"
  by (simp add: py_lookup_def)

lemma py_lookup_None [simp]: "m k = None \<Longrightarrow> py_lookup m k = Inl KeyError"
  by (simp add: py_lookup_def)

lemma r_bind_simps [simp]: "r_bind (Inl e) f = Inl e" "r_bind (Inr a) f = f a"
  by (simp_all add: r_bind_def)

lemma r_bind_Inr_iff: "r_bind r f = Inr b \<longleftrightarrow> (\<exists>a. r = Inr a \<and> f a = Inr b)"
  by (cases r) simp_all

lemma py_nth_Inl [simp]: "length xs \<le> i \<Longrightarrow> py_nth xs i = Inl IndexError"
  by (simp add: py_nth_def)

lemma py_int_of_int [simp]: "py_int (of_int i) = i"
  by (simp add: py_int_def)

lemma py_int_numeral [simp]: "py_int (numeral n) = numeral n"
  by (simp add: py_int_def)

lemma py_int_neg_numeral [simp]: "py_int (- numeral n) = - numeral n"
  by (simp add: py_int_def)

lemma py_int_zero [simp]: "py_int 0 = 0"
  by (simp add: py_int_def)

lemma py_int_nonneg: "0 \<le> x \<Longrightarrow> py_int x = \<lfloor>x\<rfloor>"
  by (simp add: py_int_def)

lemma py_int_mono: "x \<le> y \<Longrightarrow> py_int x \<le> py_int y"
proof -
  assume le: "x \<le> y"
  consider "0 \<le> x" | "x < 0 \<and> 0 \<le> y" | "y < 0"
    using le by linarith
  then show ?thesis
  proof cases
    case 1
    with le show ?thesis by (simp add: py_int_def floor_mono)
  next
    case 2
    then have "py_int x = \<lceil>x\<rceil>" and "py_int y = \<lfloor>y\<rfloor>"
      by (simp_all add: py_int_def)
    moreover from 2 have "\<lceil>x\<rceil> \<le> 0" and "0 \<le> \<lfloor>y\<rfloor>"
      by simp_all
    ultimately show ?thesis by linarith
  next
    case 3
    with le show ?thesis by (simp add: py_int_def ceiling_mono)
  qed
qed

lemma py_fmod_range:
  assumes "0 < b"
  shows "0 \<le> py_fmod a b" and "py_fmod a b < b"
proof -
  let ?q = "of_int \<lfloor>a / b\<rfloor> :: real"
  have q1: "?q \<le> a / b" and q2: "a / b < ?q + 1"
    by linarith+
  have lo: "?q * b \<le> a"
    using pos_le_divide_eq [OF assms] q1 by blast
  have hi: "a < (?q + 1) * b"
    using pos_divide_less_eq [OF assms] q2 by blast
  from lo show "0 \<le> py_fmod a b"
    by (simp add: py_fmod_def algebra_simps)
  from hi show "py_fmod a b < b"
    by (simp add: py_fmod_def algebra_simps)
qed

lemma py_fmod_small:
  assumes "0 \<le> a" and "a < b"
  shows "py_fmod a b = a"
proof -
  from assms have "0 \<le> a / b" and "a / b < 1"
    by simp_all
  then have "\<lfloor>a / b\<rfloor> = 0"
    by (simp add: floor_eq_iff)
  then show ?thesis by (simp add: py_fmod_def)
qed

lemma hypot_nonneg: "0 \<le> hypot x y"
  by (simp add: hypot_def)

lemma hypot_le_iff:
  assumes "0 \<le> r"
  shows "hypot x y \<le> r \<longleftrightarrow> x\<^sup>2 + y\<^sup>2 \<le> r\<^sup>2"
proof -
  from assms have "r = sqrt (r\<^sup>2)" by simp
  then have "hypot x y \<le> r \<longleftrightarrow> sqrt (x\<^sup>2 + y\<^sup>2) \<le> sqrt (r\<^sup>2)"
    by (simp add: hypot_def)
  then show ?thesis by (simp only: real_sqrt_le_iff)
qed

lemma hypot_eq_0_iff [simp]: "hypot x y = 0 \<longleftrightarrow> x = 0 \<and> y = 0"
  by (simp add: hypot_def)

lemma hypot_axis_x [simp]: "hypot x 0 = \<bar>x\<bar>"
  by (simp add: hypot_def)

lemma hypot_axis_y [simp]: "hypot 0 y = \<bar>y\<bar>"
  by (simp add: hypot_def)

lemma find_SomeD: "find P xs = Some x \<Longrightarrow> P x"
  by (induction xs) (auto split: if_splits)

lemma fold_invariant:
  assumes "P s" and "\<And>x s. x \<in> set xs \<Longrightarrow> P s \<Longrightarrow> P (f x s)"
  shows "P (fold f xs s)"
  using assms by (induction xs arbitrary: s) auto

subsection \<open>Lists\<close>

lemma fold_bind_None: "fold (\<lambda>x acc. Option.bind acc (f x)) xs None = None"
  by (induction xs) simp_all

lemma map_const_replicate: "(\<And>x. x \<in> set xs \<Longrightarrow> f x = c) \<Longrightarrow> map f xs = replicate (length xs) c"
  by (induction xs) auto

lemma upt_split: "i \<le> j \<Longrightarrow> j \<le> k \<Longrightarrow> [i..<k] = [i..<j] @ [j..<k]"
  using upt_add_eq_append [of i j "k - j"] by simp

lemma concat_map_concat: "concat (map f (concat xss)) = concat (map (\<lambda>xs. concat (map f xs)) xss)"
  by (induction xss) simp_all

lemma map_zip_self: "map (\<lambda>i. f i (g i)) xs = map (\<lambda>(i, y). f i y) (zip xs (map g xs))"
  by (induction xs) simp_all

end
