(* ===== verification/Geometry.thy ===== *)
theory Geometry
  imports Prelude
begin

text \<open>
  The geometry and collision kernel (\<open>src/main.py\<close>, lines 114--125): pygame's
  integer rectangles and \<open>colliderect\<close>, opaque-pixel masks and their
  \<open>overlap\<close> test, \<open>pixel_collision\<close> (the offset between a float-positioned
  sprite and a tile), and the angle helpers of the sword.  The pygame library is
  modelled from its documented behaviour: a \<open>Rect\<close> is four ints, a \<open>Mask\<close> a size
  and its set of opaque pixels.
\<close>

subsection \<open>Rectangles\<close>

record rect =
  rx :: int
  ry :: int
  rw :: int
  rh :: int

definition Rect :: "int \<Rightarrow> int \<Rightarrow> int \<Rightarrow> int \<Rightarrow> rect" where
  "Rect x y w h = \<lparr>rx = x, ry = y, rw = w, rh = h\<rparr>"

definition rect_right :: "rect \<Rightarrow> int" where
  "rect_right r = rx r + rw r"

definition rect_bottom :: "rect \<Rightarrow> int" where
  "rect_bottom r = ry r + rh r"

definition centerx :: "rect \<Rightarrow> int" where
  "centerx r = rx r + rw r div 2"

definition centery :: "rect \<Rightarrow> int" where
  "centery r = ry r + rh r div 2"

text \<open>
  \<open>Rect.colliderect\<close> (pygame 2): rectangles of zero width or height collide with
  nothing; otherwise the open interiors must intersect, so touching edges do not
  collide.
\<close>

definition colliderect :: "rect \<Rightarrow> rect \<Rightarrow> bool" where
  "colliderect a b \<longleftrightarrow>
     rw a \<noteq> 0 \<and> rh a \<noteq> 0 \<and> rw b \<noteq> 0 \<and> rh b \<noteq> 0 \<and>
     min (rx a) (rx a + rw a) < max (rx b) (rx b + rw b) \<and>
     min (ry a) (ry a + rh a) < max (ry b) (ry b + rh b) \<and>
     max (rx a) (rx a + rw a) > min (rx b) (rx b + rw b) \<and>
     max (ry a) (ry a + rh a) > min (ry b) (ry b + rh b)"

declare Rect_def [model_defs] rect_right_def [model_defs] rect_bottom_def [model_defs]
  centerx_def [model_defs] centery_def [model_defs]

subsection \<open>Masks\<close>

record mask =
  mask_w :: int
  mask_h :: int
  mask_bits :: "(int \<times> int) list"

definition mask_wf :: "mask \<Rightarrow> bool" where
  "mask_wf m \<longleftrightarrow> (\<forall>(x, y) \<in> set (mask_bits m). 0 \<le> x \<and> x < mask_w m \<and> 0 \<le> y \<and> y < mask_h m)"

text \<open>
  \<open>a.overlap(b, (ox, oy))\<close> places \<open>b\<close> at offset \<open>(ox, oy)\<close> from the top-left of
  \<open>a\<close> and returns a common opaque pixel or None; the game only compares the result
  with None.
\<close>

definition mask_overlap :: "mask \<Rightarrow> mask \<Rightarrow> int \<times> int \<Rightarrow> bool" where
  "mask_overlap a b off =
     list_ex (\<lambda>(x, y). (x - fst off, y - snd off) \<in> set (mask_bits b)) (mask_bits a)"

text \<open>\<open>pixel_collision(obj, tx, ty, tmask)\<close>: the offset is the truncated float difference.\<close>

definition pixel_collision :: "mask \<Rightarrow> real \<Rightarrow> real \<Rightarrow> real \<Rightarrow> real \<Rightarrow> mask \<Rightarrow> bool" where
  "pixel_collision omask ox oy tx ty tmask =
     mask_overlap omask tmask (py_int (tx - ox), py_int (ty - oy))"

declare mask_overlap_def [model_defs] pixel_collision_def [model_defs]

subsection \<open>Angles\<close>

text \<open>
  \<open>math.atan2\<close> on the finite values the game passes (signed zeros do not arise:
  the arguments are differences of ints), and \<open>math.degrees\<close>.
\<close>

definition py_atan2 :: "real \<Rightarrow> real \<Rightarrow> real" where
  "py_atan2 y x =
     (if 0 < x then arctan (y / x)
      else if x < 0 then (if 0 \<le> y then arctan (y / x) + pi else arctan (y / x) - pi)
      else if 0 < y then pi / 2 else if y < 0 then - (pi / 2) else 0)"

definition degrees :: "real \<Rightarrow> real" where
  "degrees r = r * 180 / pi"

definition angle_between :: "real \<Rightarrow> real \<Rightarrow> real" where
  "angle_between dx dy = degrees (py_atan2 dy dx)"

definition angle_diff :: "real \<Rightarrow> real \<Rightarrow> real" where
  "angle_diff a b = py_fmod (a - b + 180) 360 - 180"

declare py_atan2_def [model_defs] degrees_def [model_defs] angle_between_def [model_defs]
  angle_diff_def [model_defs]

subsection \<open>Lemmas\<close>

lemma colliderect_sym: "colliderect a b \<longleftrightarrow> colliderect b a"
  unfolding colliderect_def by auto

lemma colliderect_shift:
  "colliderect (Rect (x + a) (y + b) w h) (Rect (x + c) (y + d) w' h') \<longleftrightarrow>
   colliderect (Rect a b w h) (Rect c d w' h')"
  by (simp add: colliderect_def Rect_def min_def max_def)

lemma colliderect_pos:
  assumes "0 < rw a" "0 < rh a" "0 < rw b" "0 < rh b"
  shows "colliderect a b \<longleftrightarrow>
    rx a < rx b + rw b \<and> ry a < ry b + rh b \<and> rx b < rx a + rw a \<and> ry b < ry a + rh a"
  using assms unfolding colliderect_def by auto

lemma colliderect_Rect_pos:
  assumes "0 < w" "0 < h" "0 < w'" "0 < h'"
  shows "colliderect (Rect x y w h) (Rect x' y' w' h') \<longleftrightarrow>
    x < x' + w' \<and> y < y' + h' \<and> x' < x + w \<and> y' < y + h"
  using assms by (simp add: colliderect_pos Rect_def)

lemma Rect_sel [simp]:
  "rx (Rect x y w h) = x" "ry (Rect x y w h) = y" "rw (Rect x y w h) = w" "rh (Rect x y w h) = h"
  by (simp_all add: Rect_def)

text \<open>
  Soundness of the pixel test against bounding boxes: two well-formed masks can only
  share a pixel when the second, placed at the offset, meets the first's box.
\<close>

lemma mask_overlap_offset_bounds:
  assumes "mask_wf a" "mask_wf b" "mask_overlap a b (ox, oy)"
  shows "- mask_w b < ox \<and> ox < mask_w a \<and> - mask_h b < oy \<and> oy < mask_h a"
proof -
  from assms(3) obtain x y where xy: "(x, y) \<in> set (mask_bits a)"
    and b: "(x - ox, y - oy) \<in> set (mask_bits b)"
    by (auto simp: mask_overlap_def list_ex_iff)
  from assms(1) xy have "0 \<le> x \<and> x < mask_w a \<and> 0 \<le> y \<and> y < mask_h a"
    by (auto simp: mask_wf_def)
  moreover from assms(2) b have "0 \<le> x - ox \<and> x - ox < mask_w b \<and> 0 \<le> y - oy \<and> y - oy < mask_h b"
    by (auto simp: mask_wf_def)
  ultimately show ?thesis by linarith
qed

lemma mask_overlap_colliderect:
  assumes "mask_wf a" "mask_wf b" "mask_overlap a b (ox, oy)"
  shows "colliderect (Rect 0 0 (mask_w a) (mask_h a)) (Rect ox oy (mask_w b) (mask_h b))"
proof -
  from assms have bnd: "- mask_w b < ox \<and> ox < mask_w a \<and> - mask_h b < oy \<and> oy < mask_h a"
    by (rule mask_overlap_offset_bounds)
  from assms(3) obtain x y where xy: "(x, y) \<in> set (mask_bits a)"
    and b: "(x - ox, y - oy) \<in> set (mask_bits b)"
    by (auto simp: mask_overlap_def list_ex_iff)
  from assms(1) xy assms(2) b have "0 < mask_w a" "0 < mask_h a" "0 < mask_w b" "0 < mask_h b"
    by (fastforce simp: mask_wf_def)+
  with bnd show ?thesis
    by (simp add: colliderect_Rect_pos)
qed

lemma pixel_collision_int_offset:
  "pixel_collision om (of_int x) (of_int y) (of_int tx) (of_int ty) tm =
     mask_overlap om tm (tx - x, ty - y)"
proof -
  have "py_int (of_int tx - of_int x) = tx - x" and "py_int (of_int ty - of_int y) = ty - y"
    by (metis of_int_diff py_int_of_int)+
  then show ?thesis by (simp add: pixel_collision_def)
qed

lemma angle_diff_range: "- 180 \<le> angle_diff a b \<and> angle_diff a b < 180"
  using py_fmod_range [of 360 "a - b + 180"] by (simp add: angle_diff_def)

lemma angle_diff_self [simp]: "angle_diff a a = 0"
  by (simp add: angle_diff_def py_fmod_small)

end
