(* ===== verification/Dungeon.thy ===== *)
theory Dungeon
  imports Geometry
begin

text \<open>
  The static dungeon (\<open>src/main.py\<close>, lines 7--41 and 127--218): the game's
  constants, the hand-authored room graph \<open>NEIGHBORS\<close>, the per-room table
  \<open>ROOM_CONFIG\<close> and obstacle list \<open>EXTRA_WALLS\<close>, \<open>make_static_room\<close> (the tile
  grid and the door rectangles of one room) and \<open>list_walls\<close>.  A grid is a list of
  rows indexed \<open>grid[y][x]\<close>, 1 for a wall and 0 for floor, as in the source.
\<close>

subsection \<open>Constants\<close>

definition TILE :: int where "TILE = 32"
definition SCREEN_WIDTH :: int where "SCREEN_WIDTH = 800"
definition SCREEN_HEIGHT :: int where "SCREEN_HEIGHT = 576"
definition ROOM_COUNT :: nat where "ROOM_COUNT = 10"
definition FINAL_ROOM_INDEX :: nat where "FINAL_ROOM_INDEX = ROOM_COUNT - 1"
definition ROOM_W :: nat where "ROOM_W = nat (SCREEN_WIDTH div TILE)"
definition ROOM_H :: nat where "ROOM_H = nat (SCREEN_HEIGHT div TILE)"

lemmas game_consts [simp] = TILE_def SCREEN_WIDTH_def SCREEN_HEIGHT_def ROOM_COUNT_def
  FINAL_ROOM_INDEX_def ROOM_W_def ROOM_H_def

lemma ROOM_W_val: "ROOM_W = 25" and ROOM_H_val: "ROOM_H = 18"
  by simp_all

subsection \<open>The room graph and the room table\<close>

datatype dir = North | South | East | West

definition opposite :: "dir \<Rightarrow> dir" where
  "opposite d = (case d of North \<Rightarrow> South | South \<Rightarrow> North | East \<Rightarrow> West | West \<Rightarrow> East)"

text \<open>One row of \<open>NEIGHBORS\<close>: the source's dict \<open>{"N": _, "E": _, "S": _, "W": _}\<close>.\<close>

definition nbrs :: "nat option \<Rightarrow> nat option \<Rightarrow> nat option \<Rightarrow> nat option \<Rightarrow> dir \<Rightarrow> nat option" where
  "nbrs n e s w d = (case d of North \<Rightarrow> n | East \<Rightarrow> e | South \<Rightarrow> s | West \<Rightarrow> w)"

definition neighbor_rows :: "(dir \<Rightarrow> nat option) list" where
  "neighbor_rows =
    [nbrs None (Some 1) (Some 2) None,
     nbrs None (Some 3) (Some 4) (Some 0),
     nbrs (Some 0) (Some 4) None None,
     nbrs None None (Some 6) (Some 1),
     nbrs (Some 1) (Some 7) (Some 5) (Some 2),
     nbrs (Some 4) (Some 8) None None,
     nbrs (Some 3) None None None,
     nbrs None (Some 9) None (Some 4),
     nbrs (Some 5) None None None,
     nbrs None None None None]"

text \<open>\<open>NEIGHBORS[i]\<close>: a dictionary with the keys 0..9 (None is a KeyError).\<close>

definition NEIGHBORS :: "nat \<rightharpoonup> (dir \<Rightarrow> nat option)" where
  "NEIGHBORS i = (if i < length neighbor_rows then Some (neighbor_rows ! i) else None)"

datatype theme = Normal | Library | Final

datatype enemy_kind = Spider | Skeleton | Ghost | Eye

record room_cfg =
  cfg_theme :: theme
  enemy_min :: nat
  enemy_max :: nat
  enemy_types :: "enemy_kind list"
  no_chests :: bool

text \<open>The body of the comprehension that builds \<open>ROOM_CONFIG[i]\<close> for \<open>i\<close> in \<open>range(ROOM_COUNT)\<close>.\<close>

definition ROOM_CONFIG :: "nat \<Rightarrow> room_cfg" where
  "ROOM_CONFIG i =
     \<lparr>cfg_theme = (if i = 9 then Final else if i \<in> {3, 5} then Library else Normal),
      enemy_min = (if i = 9 then 10 else 8),
      enemy_max = (if i = 9 then 12 else 12),
      enemy_types = (if i \<ge> 3 then [Skeleton, Ghost, Eye] else [Spider, Skeleton, Ghost]),
      no_chests = (i = 9)\<rparr>"

definition extra_wall_rows :: "(nat \<times> nat) list list" where
  "extra_wall_rows =
    [[],
     [(5, 4), (14, 4), (5, 9), (14, 9)],
     [(8, 5), (11, 5), (8, 8), (11, 8)],
     [(4, 4), (15, 4), (4, 9), (15, 9)],
     [(6, 6), (13, 6), (6, 7), (13, 7)],
     [(3, 5), (16, 5), (9, 3), (9, 10)],
     [(7, 4), (12, 4), (7, 9), (12, 9)],
     [(4, 6), (15, 6), (9, 4), (9, 9)],
     [(6, 4), (13, 4), (6, 9), (13, 9)],
     [(8, 6), (11, 6), (8, 7), (11, 7)]]"

text \<open>\<open>EXTRA_WALLS.get(room_index, [])\<close>.\<close>

definition EXTRA_WALLS :: "nat \<Rightarrow> (nat \<times> nat) list" where
  "EXTRA_WALLS i = (if i < length extra_wall_rows then extra_wall_rows ! i else [])"

declare opposite_def [model_defs] nbrs_def [model_defs] neighbor_rows_def [model_defs]
  NEIGHBORS_def [model_defs] ROOM_CONFIG_def [model_defs] extra_wall_rows_def [model_defs]
  EXTRA_WALLS_def [model_defs]

subsection \<open>Room generation: grid and doors\<close>

type_synonym grid = "int list list"

definition set_cell :: "grid \<Rightarrow> nat \<Rightarrow> nat \<Rightarrow> int \<Rightarrow> grid" where
  \<comment> \<open>\<open>grid[y][x] = v\<close>\<close>
  "set_cell g x y v = g[y := (g ! y)[x := v]]"

definition cell :: "grid \<Rightarrow> nat \<Rightarrow> nat \<Rightarrow> int" where
  \<comment> \<open>\<open>grid[y][x]\<close>\<close>
  "cell g x y = g ! y ! x"

definition carve_interior :: "grid \<Rightarrow> grid" where
  "carve_interior g =
     fold (\<lambda>y g. fold (\<lambda>x g. set_cell g x y 0) [1..<ROOM_W - 1] g) [1..<ROOM_H - 1] g"

definition add_extra_walls :: "(nat \<times> nat) list \<Rightarrow> grid \<Rightarrow> grid" where
  "add_extra_walls ws g =
     fold (\<lambda>(x, y) g. if 1 \<le> x \<and> x < ROOM_W - 1 \<and> 1 \<le> y \<and> y < ROOM_H - 1
                      then set_cell g x y 1 else g) ws g"

text \<open>
  The four door blocks of \<open>make_static_room\<close>: the two gap tiles each carves on its
  edge (\<open>mid_x = ROOM_W // 2\<close>, \<open>mid_y = ROOM_H // 2\<close>) and the rectangle it records.
\<close>

definition door_cells :: "dir \<Rightarrow> (nat \<times> nat) list" where
  "door_cells d =
     (let mid_x = ROOM_W div 2; mid_y = ROOM_H div 2 in
      case d of
        North \<Rightarrow> [(mid_x - 1, 0), (mid_x, 0)]
      | South \<Rightarrow> [(mid_x - 1, ROOM_H - 1), (mid_x, ROOM_H - 1)]
      | East \<Rightarrow> [(ROOM_W - 1, mid_y - 1), (ROOM_W - 1, mid_y)]
      | West \<Rightarrow> [(0, mid_y - 1), (0, mid_y)])"

definition door_rect :: "dir \<Rightarrow> rect" where
  "door_rect d =
     (let mid_x = int (ROOM_W div 2); mid_y = int (ROOM_H div 2) in
      case d of
        North \<Rightarrow> Rect ((mid_x - 1) * TILE) 0 (2 * TILE) TILE
      | South \<Rightarrow> Rect ((mid_x - 1) * TILE) ((int ROOM_H - 1) * TILE) (2 * TILE) TILE
      | East \<Rightarrow> Rect ((int ROOM_W - 1) * TILE) ((mid_y - 1) * TILE) TILE (2 * TILE)
      | West \<Rightarrow> Rect 0 ((mid_y - 1) * TILE) TILE (2 * TILE))"

definition open_door :: "dir \<Rightarrow> grid \<times> (dir \<rightharpoonup> rect) \<Rightarrow> grid \<times> (dir \<rightharpoonup> rect)" where
  "open_door d gd =
     (fold (\<lambda>(x, y) g. set_cell g x y 0) (door_cells d) (fst gd), (snd gd)(d \<mapsto> door_rect d))"

definition carve_doors :: "(dir \<Rightarrow> nat option) \<Rightarrow> grid \<Rightarrow> grid \<times> (dir \<rightharpoonup> rect)" where
  "carve_doors n g =
     fold (\<lambda>d gd. if n d \<noteq> None then open_door d gd else gd) [North, South, East, West]
       (g, Map.empty)"

definition make_static_room :: "nat \<Rightarrow> (grid \<times> (dir \<rightharpoonup> rect)) result" where
  "make_static_room i =
     (let g = add_extra_walls (EXTRA_WALLS i) (carve_interior (replicate ROOM_H (replicate ROOM_W 1)))
      in case NEIGHBORS i of
           None \<Rightarrow> Inl KeyError
         | Some n \<Rightarrow> Inr (carve_doors n g))"

definition list_walls :: "grid \<Rightarrow> (int \<times> int) list" where
  "list_walls g =
     concat (map (\<lambda>y. map (\<lambda>x. (int x * TILE, int y * TILE))
                          (filter (\<lambda>x. cell g x y = 1) [0..<ROOM_W]))
                 [0..<ROOM_H])"

declare set_cell_def [model_defs] cell_def [model_defs] carve_interior_def [model_defs]
  add_extra_walls_def [model_defs] door_cells_def [model_defs] door_rect_def [model_defs]
  open_door_def [model_defs] carve_doors_def [model_defs] make_static_room_def [model_defs]
  list_walls_def [model_defs]

subsection \<open>The grid as a function of the cell\<close>

text \<open>
  \<open>room_cell\<close> is the reference the loops of \<open>make_static_room\<close> are proved to
  compute: a door gap of a present door is floor, else an interior obstacle is a wall,
  else the interior is floor and the outer ring is wall.
\<close>

definition interior :: "nat \<Rightarrow> nat \<Rightarrow> bool" where
  "interior x y \<longleftrightarrow> 1 \<le> x \<and> x < ROOM_W - 1 \<and> 1 \<le> y \<and> y < ROOM_H - 1"

definition door_gaps :: "(dir \<Rightarrow> nat option) \<Rightarrow> (nat \<times> nat) list" where
  "door_gaps n = concat (map door_cells (filter (\<lambda>d. n d \<noteq> None) [North, South, East, West]))"

definition room_cell :: "(dir \<Rightarrow> nat option) \<Rightarrow> (nat \<times> nat) list \<Rightarrow> nat \<Rightarrow> nat \<Rightarrow> int" where
  "room_cell n ws x y =
     (if (x, y) \<in> set (door_gaps n) then 0
      else if interior x y \<and> (x, y) \<in> set ws then 1
      else if interior x y then 0 else 1)"

definition grid_wf :: "grid \<Rightarrow> bool" where
  "grid_wf g \<longleftrightarrow> length g = ROOM_H \<and> (\<forall>r \<in> set g. length r = ROOM_W)"

lemma cell_set_cell:
  "cell (set_cell g x y v) x' y' =
     (if x' = x \<and> y' = y \<and> y < length g \<and> x < length (g ! y) then v else cell g x' y')"
  by (cases "y < length g"; cases "x < length (g ! y)")
    (auto simp: cell_def set_cell_def nth_list_update list_update_beyond)

lemma grid_wf_set_cell [simp]:
  assumes "grid_wf g"
  shows "grid_wf (set_cell g x y v)"
proof (cases "y < length g")
  case True
  with assms have "length ((g ! y)[x := v]) = ROOM_W"
    by (simp add: grid_wf_def)
  with assms show ?thesis
    by (auto simp: grid_wf_def set_cell_def dest!: set_update_subset_insert [THEN subsetD])
next
  case False
  with assms show ?thesis by (simp add: set_cell_def list_update_beyond)
qed

lemma grid_wf_cellD: "grid_wf g \<Longrightarrow> y < ROOM_H \<Longrightarrow> y < length g \<and> length (g ! y) = ROOM_W"
  by (simp add: grid_wf_def)

lemma fold_set_cell:
  assumes "grid_wf g"
  shows "grid_wf (fold (\<lambda>(x, y) g. set_cell g x y v) cs g) \<and>
    cell (fold (\<lambda>(x, y) g. set_cell g x y v) cs g) x' y' =
      (if (x', y') \<in> set cs \<and> x' < ROOM_W \<and> y' < ROOM_H then v else cell g x' y')"
  using assms
proof (induction cs arbitrary: g)
  case Nil
  then show ?case by simp
next
  case (Cons c cs)
  obtain x y where c: "c = (x, y)" by fastforce
  from Cons.prems have wf: "grid_wf (set_cell g x y v)" by simp
  from Cons.prems have "cell (set_cell g x y v) x' y' =
      (if x' = x \<and> y' = y \<and> x < ROOM_W \<and> y < ROOM_H then v else cell g x' y')"
    by (auto simp: cell_set_cell grid_wf_def)
  with Cons.IH [OF wf] c show ?case by auto
qed

lemma fold_nested:
  "fold (\<lambda>y g. fold (\<lambda>x g. h x y g) xs g) ys g =
     fold (\<lambda>(x, y) g. h x y g) (concat (map (\<lambda>y. map (\<lambda>x. (x, y)) xs) ys)) g"
  by (induction ys arbitrary: g) (simp_all add: fold_map comp_def)

lemma mem_row_major [simp]:
  "(x, y) \<in> set (concat (map (\<lambda>y. map (\<lambda>x. (x, y)) xs) ys)) \<longleftrightarrow> x \<in> set xs \<and> y \<in> set ys"
  by auto

lemma fold_guarded:
  "fold (\<lambda>(x, y) g. if P x y then h x y g else g) ws g =
     fold (\<lambda>(x, y) g. h x y g) (filter (\<lambda>(x, y). P x y) ws) g"
  by (induction ws arbitrary: g) auto

lemma grid_wf_replicate: "grid_wf (replicate ROOM_H (replicate ROOM_W 1))"
  by (simp add: grid_wf_def)

lemma carve_interior_cell:
  assumes "grid_wf g"
  shows "grid_wf (carve_interior g) \<and>
    cell (carve_interior g) x y = (if interior x y then 0 else cell g x y)"
proof -
  let ?cs = "concat (map (\<lambda>y. map (\<lambda>x. (x, y)) [1..<ROOM_W - 1]) [1..<ROOM_H - 1])"
  have cond: "((x, y) \<in> set ?cs \<and> x < ROOM_W \<and> y < ROOM_H) = interior x y"
    unfolding mem_row_major set_upt interior_def by auto
  show ?thesis
    using fold_set_cell [OF assms, of 0 ?cs x y] unfolding carve_interior_def fold_nested cond .
qed

lemma add_extra_walls_cell:
  assumes "grid_wf g"
  shows "grid_wf (add_extra_walls ws g) \<and>
    cell (add_extra_walls ws g) x y = (if interior x y \<and> (x, y) \<in> set ws then 1 else cell g x y)"
  using fold_set_cell [OF assms, of 1 "filter (\<lambda>(x, y). interior x y) ws" x y]
  by (auto simp: add_extra_walls_def fold_guarded [where h = "\<lambda>x y g. set_cell g x y 1"]
      interior_def)

lemma door_cells_bounds: "(x, y) \<in> set (door_cells d) \<Longrightarrow> x < ROOM_W \<and> y < ROOM_H"
  by (cases d) (auto simp: door_cells_def)

lemma carve_doors_eq:
  "carve_doors n g =
     (fold (\<lambda>(x, y) g. set_cell g x y 0) (door_gaps n) g,
      \<lambda>d. if n d \<noteq> None then Some (door_rect d) else None)"
proof -
  have step: "\<And>ds gd. fold (\<lambda>d gd. if n d \<noteq> None then open_door d gd else gd) ds gd =
     (fold (\<lambda>(x, y) g. set_cell g x y 0) (concat (map door_cells (filter (\<lambda>d. n d \<noteq> None) ds))) (fst gd),
      \<lambda>d'. if d' \<in> set ds \<and> n d' \<noteq> None then Some (door_rect d') else snd gd d')"
  proof -
    fix ds :: "dir list" and gd :: "grid \<times> (dir \<rightharpoonup> rect)"
    show "?thesis ds gd"
      by (induction ds arbitrary: gd) (auto simp: open_door_def fold_map comp_def fun_eq_iff)
  qed
  have "d \<in> set [North, South, East, West]" for d by (cases d) auto
  then show ?thesis
    unfolding carve_doors_def door_gaps_def step by (auto simp: fun_eq_iff)
qed

lemma cell_replicate: "x < w \<Longrightarrow> y < h \<Longrightarrow> cell (replicate h (replicate w v)) x y = v"
  by (simp add: cell_def)

theorem make_static_room_cell:
  assumes "make_static_room i = Inr (g, doors)"
  obtains n where "NEIGHBORS i = Some n" and "grid_wf g"
    and "\<And>x y. x < ROOM_W \<Longrightarrow> y < ROOM_H \<Longrightarrow> cell g x y = room_cell n (EXTRA_WALLS i) x y"
    and "doors = (\<lambda>d. if n d \<noteq> None then Some (door_rect d) else None)"
proof -
  let ?g0 = "replicate ROOM_H (replicate ROOM_W (1::int))"
  let ?g1 = "carve_interior ?g0"
  let ?g2 = "add_extra_walls (EXTRA_WALLS i) ?g1"
  from assms obtain n where n: "NEIGHBORS i = Some n" and cd: "carve_doors n ?g2 = (g, doors)"
    by (auto simp: make_static_room_def split: option.splits)
  have wf1: "grid_wf ?g1" and c1: "\<And>x y. cell ?g1 x y = (if interior x y then 0 else cell ?g0 x y)"
    using carve_interior_cell [OF grid_wf_replicate] by blast+
  have wf2: "grid_wf ?g2" and c2: "\<And>x y. cell ?g2 x y =
      (if interior x y \<and> (x, y) \<in> set (EXTRA_WALLS i) then 1 else cell ?g1 x y)"
    using add_extra_walls_cell [OF wf1] by blast+
  from cd have g: "g = fold (\<lambda>(x, y) g. set_cell g x y 0) (door_gaps n) ?g2"
    and ds: "doors = (\<lambda>d. if n d \<noteq> None then Some (door_rect d) else None)"
    by (simp_all add: carve_doors_eq)
  have wf: "grid_wf g" and c3: "\<And>x y. cell g x y =
      (if (x, y) \<in> set (door_gaps n) \<and> x < ROOM_W \<and> y < ROOM_H then 0 else cell ?g2 x y)"
    using fold_set_cell [OF wf2, of 0 "door_gaps n"] g by blast+
  have cells: "cell g x y = room_cell n (EXTRA_WALLS i) x y" if "x < ROOM_W" "y < ROOM_H" for x y
    unfolding c3 c2 c1 using that by (simp add: cell_replicate room_cell_def)
  from n wf cells ds show ?thesis by (rule that)
qed

subsection \<open>The room graph\<close>

definition all_dirs :: "dir list" where
  "all_dirs = [North, South, East, West]"

lemma all_dirs_complete [simp]: "d \<in> set all_dirs"
  by (cases d) (auto simp: all_dirs_def)

lemma NEIGHBORS_dom: "NEIGHBORS i \<noteq> None \<longleftrightarrow> i < ROOM_COUNT"
  by (simp add: NEIGHBORS_def neighbor_rows_def)

lemma NEIGHBORS_target_range:
  assumes "NEIGHBORS i = Some n" and "n d = Some t"
  shows "t < ROOM_COUNT"
proof -
  from assms(1) have i: "i < 10" and n: "n = neighbor_rows ! i"
    by (auto simp: NEIGHBORS_def neighbor_rows_def split: if_splits)
  have "\<forall>i < 10. \<forall>d \<in> set all_dirs. \<forall>t. (neighbor_rows ! i) d = Some t \<longrightarrow> t < 10"
    by (simp add: all_dirs_def neighbor_rows_def nbrs_def numeral_eq_Suc less_Suc_eq)
  with i n assms(2) show ?thesis by auto
qed

lemma make_static_room_Inr:
  assumes "i < ROOM_COUNT"
  shows "\<exists>g doors. make_static_room i = Inr (g, doors)"
  using assms NEIGHBORS_dom [of i]
  by (auto simp: make_static_room_def split: option.splits)

lemma make_static_room_KeyError:
  "ROOM_COUNT \<le> i \<Longrightarrow> make_static_room i = Inl KeyError"
  using NEIGHBORS_dom [of i] by (simp add: make_static_room_def)

lemma list_walls_iff:
  "p \<in> set (list_walls g) \<longleftrightarrow>
     (\<exists>x y. x < ROOM_W \<and> y < ROOM_H \<and> cell g x y = 1 \<and> p = (int x * TILE, int y * TILE))"
  by (auto simp: list_walls_def simp del: game_consts; blast)

subsection \<open>Properties of the static dungeon\<close>

text \<open>
  C5: \<open>make_static_room\<close> builds, for every room index of the dungeon, a grid that is
  the reference layout \<open>room_cell\<close> (outer ring of walls, floor inside, the room's
  obstacles, a two-tile gap for each present door) and a door rectangle exactly for
  the directions in which \<open>NEIGHBORS\<close> has a neighbour; any other index raises
  KeyError.
\<close>

theorem make_static_room_layout:
  assumes "i < ROOM_COUNT"
  shows "\<exists>g doors n. make_static_room i = Inr (g, doors) \<and> NEIGHBORS i = Some n \<and> grid_wf g \<and>
     (\<forall>x < ROOM_W. \<forall>y < ROOM_H. cell g x y = room_cell n (EXTRA_WALLS i) x y) \<and>
     (\<forall>d. doors d = (if n d \<noteq> None then Some (door_rect d) else None))"
proof -
  from make_static_room_Inr [OF assms] obtain g doors where
    eq: "make_static_room i = Inr (g, doors)" by blast
  obtain n where n: "NEIGHBORS i = Some n" and wf: "grid_wf g"
    and c: "\<And>x y. x < ROOM_W \<Longrightarrow> y < ROOM_H \<Longrightarrow> cell g x y = room_cell n (EXTRA_WALLS i) x y"
    and ds: "doors = (\<lambda>d. if n d \<noteq> None then Some (door_rect d) else None)"
    by (rule make_static_room_cell [OF eq]) auto
  from eq n wf c ds show ?thesis by auto
qed

theorem make_static_room_layout_witness:
  "(4::nat) < ROOM_COUNT \<and>
   (\<exists>g doors n. make_static_room 4 = Inr (g, doors) \<and> NEIGHBORS 4 = Some n \<and> grid_wf g \<and>
     (\<forall>x < ROOM_W. \<forall>y < ROOM_H. cell g x y = room_cell n (EXTRA_WALLS 4) x y) \<and>
     (\<forall>d. doors d = (if n d \<noteq> None then Some (door_rect d) else None)))"
  using make_static_room_layout [of 4] by simp

end
