(* ===== verification/Player.thy ===== *)
theory Player
  imports Dungeon
begin

text \<open>
  The player (\<open>class Player\<close>, \<open>src/main.py\<close> lines 273--356) and the images the
  core reads (lines 60--103).  Every method that mutates \<open>self\<close> returns the updated
  record; a method that reads \<open>pygame.time.get_ticks()\<close> takes the clock value
  \<open>now\<close> as its first argument.  The images themselves are not part of the repository;
  the core only uses their sizes and opaque-pixel masks, collected in \<open>assets\<close>.
\<close>

subsection \<open>Images\<close>

record assets =
  player_w :: int
  player_h :: int
  player_mask :: mask
  wall_mask :: mask
  enemy_size :: "enemy_kind \<Rightarrow> int \<times> int"
  enemy_mask :: "enemy_kind \<Rightarrow> mask"
  chest_w :: int
  chest_h :: int

subsection \<open>Constants\<close>

definition PLAYER_SPEED :: real where "PLAYER_SPEED = 2.0"
definition PLAYER_MAX_HEARTS :: int where "PLAYER_MAX_HEARTS = 5"
definition PLAYER_IFRAME_MS :: int where "PLAYER_IFRAME_MS = 800"
definition SWORD_RANGE_PIXELS :: real where "SWORD_RANGE_PIXELS = 110"
definition SWORD_DAMAGE :: int where "SWORD_DAMAGE = 2"
definition SWORD_ARC_DEG :: real where "SWORD_ARC_DEG = 90"
definition SWORD_SWING_MS :: int where "SWORD_SWING_MS = 160"

lemmas player_consts [simp] = PLAYER_SPEED_def PLAYER_MAX_HEARTS_def PLAYER_IFRAME_MS_def
  SWORD_RANGE_PIXELS_def SWORD_DAMAGE_def SWORD_ARC_DEG_def SWORD_SWING_MS_def

subsection \<open>State and operations\<close>

record player =
  px :: real
  py :: real
  pspeed :: real
  pmask :: mask
  pwidth :: int
  pheight :: int
  max_health :: int
  health :: int
  invuln_until :: int
  alive :: bool
  attacking :: bool
  attack_angle :: real
  attack_end_time :: int

definition new_player :: "assets \<Rightarrow> player" where
  \<comment> \<open>\<open>Player.__init__\<close>\<close>
  "new_player a =
     \<lparr>px = of_int (TILE * 2), py = of_int (TILE * 2), pspeed = PLAYER_SPEED,
      pmask = player_mask a, pwidth = player_w a, pheight = player_h a,
      max_health = PLAYER_MAX_HEARTS * 2, health = PLAYER_MAX_HEARTS * 2,
      invuln_until = 0, alive = True, attacking = False, attack_angle = 0,
      attack_end_time = 0\<rparr>"

definition player_rect :: "player \<Rightarrow> rect" where
  "player_rect p = Rect (py_int (px p)) (py_int (py p)) (pwidth p) (pheight p)"

definition player_center :: "player \<Rightarrow> int \<times> int" where
  "player_center p = (centerx (player_rect p), centery (player_rect p))"

text \<open>
  The wall loop shared by \<open>Player.move\<close> and \<open>Enemy.update\<close>: it rolls back at the
  first wall whose tile mask meets the sprite's mask and stops, so it rolls back
  exactly when some wall collides.
\<close>

definition hits_wall :: "mask \<Rightarrow> real \<Rightarrow> real \<Rightarrow> mask \<Rightarrow> (int \<times> int) list \<Rightarrow> bool" where
  "hits_wall m x y wm walls =
     list_ex (\<lambda>(wx, wy). pixel_collision m x y (of_int wx) (of_int wy) wm) walls"

text \<open>\<open>Player.move(dx, dy, walls, grid)\<close> (the grid argument is unused by the source).\<close>

definition player_move :: "mask \<Rightarrow> player \<Rightarrow> real \<Rightarrow> real \<Rightarrow> (int \<times> int) list \<Rightarrow> player" where
  "player_move wm p dx dy walls =
     (if dx = 0 \<and> dy = 0 \<or> \<not> alive p then p
      else
        let l = hypot dx dy;
            p' = p\<lparr>px := px p + dx / l * pspeed p, py := py p + dy / l * pspeed p\<rparr>
        in if hits_wall (pmask p') (px p') (py p') wm walls then p else p')"

definition start_attack :: "int \<Rightarrow> player \<Rightarrow> int \<times> int \<Rightarrow> player" where
  "start_attack now p mpos =
     (if \<not> alive p then p
      else
        let (cx, cy) = player_center p;
            dx = real_of_int (fst mpos - cx); dy = real_of_int (snd mpos - cy);
            d = hypot dx dy
        in if d = 0 \<or> d > SWORD_RANGE_PIXELS then p
           else p\<lparr>attacking := True, attack_angle := angle_between dx dy,
                  attack_end_time := now + SWORD_SWING_MS\<rparr>)"

definition update_attack :: "int \<Rightarrow> player \<Rightarrow> player" where
  "update_attack now p =
     (if attacking p \<and> now \<ge> attack_end_time p then p\<lparr>attacking := False\<rparr> else p)"

text \<open>\<open>Player.can_hit(e)\<close> reads only \<open>e.center\<close>, which is its argument here.\<close>

definition can_hit :: "player \<Rightarrow> int \<times> int \<Rightarrow> bool" where
  "can_hit p ec =
     (if \<not> attacking p then False
      else
        let (cx, cy) = player_center p;
            dx = real_of_int (fst ec - cx); dy = real_of_int (snd ec - cy);
            d = hypot dx dy
        in if d > SWORD_RANGE_PIXELS then False
           else \<bar>angle_diff (angle_between dx dy) (attack_angle p)\<bar> \<le> SWORD_ARC_DEG / 2)"

definition take_damage :: "int \<Rightarrow> player \<Rightarrow> int \<Rightarrow> player" where
  "take_damage now p dmg =
     (if now < invuln_until p then p
      else
        let h = health p - dmg; h' = (if h < 0 then 0 else h)
        in p\<lparr>health := h', invuln_until := now + PLAYER_IFRAME_MS,
             alive := (if h' = 0 then False else alive p)\<rparr>)"

definition heal :: "player \<Rightarrow> int \<Rightarrow> player" where
  "heal p amt = p\<lparr>health := min (health p + amt) (max_health p)\<rparr>"

declare new_player_def [model_defs] player_rect_def [model_defs] player_center_def [model_defs]
  hits_wall_def [model_defs] player_move_def [model_defs] start_attack_def [model_defs]
  update_attack_def [model_defs] can_hit_def [model_defs] take_damage_def [model_defs]
  heal_def [model_defs]

text \<open>
  An instance of the image data for concrete runs: 32 by 32 sprites whose masks are
  their four corner pixels.
\<close>

definition corner_mask :: "int \<Rightarrow> int \<Rightarrow> mask" where
  "corner_mask w h = \<lparr>mask_w = w, mask_h = h,
     mask_bits = [(0, 0), (w - 1, 0), (0, h - 1), (w - 1, h - 1)]\<rparr>"

definition sample_assets :: assets where
  "sample_assets =
     \<lparr>player_w = 32, player_h = 32, player_mask = corner_mask 32 32,
      wall_mask = corner_mask 32 32, enemy_size = (\<lambda>_. (32, 32)),
      enemy_mask = (\<lambda>_. corner_mask 32 32), chest_w = 32, chest_h = 32\<rparr>"

subsection \<open>The health invariant\<close>

text \<open>
  Health stays within \<open>[0, max_health]\<close> and the player is alive exactly while its
  health is positive.
\<close>

definition player_inv :: "player \<Rightarrow> bool" where
  "player_inv p \<longleftrightarrow> 0 \<le> health p \<and> health p \<le> max_health p \<and> (alive p \<longleftrightarrow> 0 < health p)"

lemma new_player_inv: "player_inv (new_player a)"
  by (simp add: player_inv_def new_player_def)

lemma take_damage_blocked [simp]: "now < invuln_until p \<Longrightarrow> take_damage now p dmg = p"
  by (simp add: take_damage_def)

lemma take_damage_applied:
  assumes "invuln_until p \<le> now"
  shows "health (take_damage now p dmg) = max 0 (health p - dmg)"
    and "invuln_until (take_damage now p dmg) = now + PLAYER_IFRAME_MS"
    and "alive (take_damage now p dmg) \<longleftrightarrow> alive p \<and> 0 < health p - dmg"
    and "px (take_damage now p dmg) = px p \<and> py (take_damage now p dmg) = py p"
    and "max_health (take_damage now p dmg) = max_health p"
  using assms by (auto simp: take_damage_def Let_def)

lemma take_damage_inv [inv_intros]:
  assumes "0 \<le> dmg" and "player_inv p"
  shows "player_inv (take_damage now p dmg)"
proof (cases "now < invuln_until p")
  case True
  with assms show ?thesis by simp
next
  case False
  then have "invuln_until p \<le> now" by simp
  with assms show ?thesis
    by (auto simp: player_inv_def take_damage_applied)
qed

lemma heal_inv [inv_intros]:
  assumes "alive p" and "0 \<le> amt" and "player_inv p"
  shows "player_inv (heal p amt)"
  using assms by (auto simp: player_inv_def heal_def)

lemma player_rect_move_fields [simp]:
  "player_rect (p\<lparr>attacking := a\<rparr>) = player_rect p"
  "player_rect (p\<lparr>attacking := a, attack_angle := ang, attack_end_time := t\<rparr>) = player_rect p"
  "player_rect (p\<lparr>health := h\<rparr>) = player_rect p"
  by (simp_all add: player_rect_def)

lemma player_center_attack [simp]:
  "player_center (p\<lparr>attacking := a, attack_angle := ang, attack_end_time := t\<rparr>) = player_center p"
  by (simp add: player_center_def)

lemma can_hit_in_range:
  assumes "can_hit p ec"
  shows "attacking p \<and>
    hypot (real_of_int (fst ec - fst (player_center p))) (real_of_int (snd ec - snd (player_center p)))
      \<le> SWORD_RANGE_PIXELS"
  using assms by (auto simp: can_hit_def Let_def split: prod.splits if_splits)

lemma update_attack_attacking:
  "attacking (update_attack now p) \<longleftrightarrow> attacking p \<and> now < attack_end_time p"
  by (auto simp: update_attack_def)



subsection \<open>Properties of the player\<close>

text \<open>
  C23: the health invariant is kept by every health-changing method the game calls
  on a live player: taking non-negative damage and healing by a non-negative amount.
\<close>

theorem player_inv_preserved:
  assumes "player_inv p" and "0 \<le> dmg" and "0 \<le> amt"
  shows "player_inv (take_damage now p dmg) \<and> (alive p \<longrightarrow> player_inv (heal p amt))"
  using assms by (simp add: take_damage_inv heal_inv)

theorem player_inv_preserved_witness:
  "player_inv (new_player sample_assets) \<and> (0::int) \<le> 2 \<and> (0::int) \<le> 1 \<and>
   player_inv (take_damage 0 (new_player sample_assets) 2)"
proof -
  have "player_inv (new_player sample_assets)" by (rule new_player_inv)
  from player_inv_preserved [OF this, of 2 1 0] show ?thesis
    using new_player_inv by simp
qed

text \<open>
  C22: two hits inside one invulnerability window change the player at most once: if
  the first hit at time \<open>n1\<close> lands, a second at \<open>n2\<close> with
  \<open>n1 \<le> n2 < n1 + 800\<close> is ignored.
\<close>

theorem take_damage_once_per_window:
  assumes "n1 \<le> n2" and "n2 < n1 + PLAYER_IFRAME_MS"
  shows "take_damage n1 p d1 = p \<or> take_damage n2 (take_damage n1 p d1) d2 = take_damage n1 p d1"
proof (cases "n1 < invuln_until p")
  case True
  then show ?thesis by simp
next
  case False
  then have "invuln_until (take_damage n1 p d1) = n1 + PLAYER_IFRAME_MS"
    by (simp add: take_damage_applied)
  with assms(2) have "n2 < invuln_until (take_damage n1 p d1)" by simp
  then show ?thesis by simp
qed

theorem take_damage_once_per_window_witness:
  "(100::int) \<le> 500 \<and> (500::int) < 100 + PLAYER_IFRAME_MS \<and>
   take_damage 500 (take_damage 100 (new_player sample_assets) 2) 2 =
     take_damage 100 (new_player sample_assets) 2 \<and>
   health (take_damage 100 (new_player sample_assets) 2) = 8"
proof -
  have h: "(100::int) \<le> 500" "(500::int) < 100 + PLAYER_IFRAME_MS" by simp_all
  have ne: "take_damage 100 (new_player sample_assets) 2 \<noteq> new_player sample_assets"
    by (simp add: take_damage_def new_player_def)
  from take_damage_once_per_window [OF h, of "new_player sample_assets" 2 2] ne h
  show ?thesis by (simp add: take_damage_def new_player_def)
qed

text \<open>
  C34: a dead player stays dead with health 0 whatever non-negative damage it takes.
\<close>

theorem take_damage_after_death:
  assumes "player_inv p" and "\<not> alive p" and "0 \<le> dmg"
  shows "health (take_damage now p dmg) = 0 \<and> \<not> alive (take_damage now p dmg)"
proof (cases "now < invuln_until p")
  case True
  with assms show ?thesis by (simp add: player_inv_def)
next
  case False
  with assms show ?thesis by (simp add: take_damage_applied player_inv_def)
qed

theorem take_damage_after_death_witness:
  "player_inv ((new_player sample_assets)\<lparr>health := 0, alive := False\<rparr>) \<and>
   health (take_damage 900 ((new_player sample_assets)\<lparr>health := 0, alive := False\<rparr>) 2) = 0"
proof -
  have inv: "player_inv ((new_player sample_assets)\<lparr>health := 0, alive := False\<rparr>)"
    by (simp add: player_inv_def new_player_def)
  from take_damage_after_death [OF inv, of 2 900] inv show ?thesis
    by (simp add: new_player_def)
qed



text \<open>
  C35: a swing started towards a point in range (not the player's own centre) can hit
  an enemy centred on that point, and it expires \<open>SWORD_SWING_MS\<close> after it began.
\<close>

theorem start_attack_hits_target:
  assumes "alive p"
    and "0 < hypot (real_of_int (fst m - fst (player_center p))) (real_of_int (snd m - snd (player_center p)))"
    and "hypot (real_of_int (fst m - fst (player_center p))) (real_of_int (snd m - snd (player_center p)))
           \<le> SWORD_RANGE_PIXELS"
  shows "can_hit (start_attack now p m) m \<and>
    attack_end_time (start_attack now p m) = now + SWORD_SWING_MS"
proof -
  obtain cx cy where c: "player_center p = (cx, cy)" by fastforce
  let ?dx = "real_of_int (fst m - cx)" and ?dy = "real_of_int (snd m - cy)"
  from assms c have sa: "start_attack now p m =
      p\<lparr>attacking := True, attack_angle := angle_between ?dx ?dy,
        attack_end_time := now + SWORD_SWING_MS\<rparr>"
    by (auto simp: start_attack_def Let_def)
  from assms(3) c have "\<not> hypot ?dx ?dy > SWORD_RANGE_PIXELS" by simp
  with c show ?thesis
    by (simp add: sa can_hit_def Let_def)
qed

theorem start_attack_hits_target_witness:
  "can_hit (start_attack 1000 (new_player sample_assets) (130, 80)) (130, 80) \<and>
   attack_end_time (start_attack 1000 (new_player sample_assets) (130, 80)) = 1160"
proof -
  have c: "player_center (new_player sample_assets) = (80, 80)"
    by (simp add: player_center_def player_rect_def new_player_def sample_assets_def centerx_def
        centery_def)
  have "alive (new_player sample_assets)" by (simp add: new_player_def)
  moreover have "0 < hypot (real_of_int (fst (130, 80) - fst (player_center (new_player sample_assets))))
      (real_of_int (snd (130, 80) - snd (player_center (new_player sample_assets))))"
    by (simp add: c)
  moreover have "hypot (real_of_int (fst (130, 80) - fst (player_center (new_player sample_assets))))
      (real_of_int (snd (130, 80) - snd (player_center (new_player sample_assets)))) \<le> SWORD_RANGE_PIXELS"
    by (simp add: c)
  ultimately show ?thesis
    using start_attack_hits_target [of "new_player sample_assets" "(130, 80)" 1000] by simp
qed

end
