(* ===== verification/Enemy.thy ===== *)
theory Enemy
  imports Player
begin

text \<open>
  Enemies and fireballs (\<open>class Enemy\<close> and \<open>class Fireball\<close>, \<open>src/main.py\<close>
  lines 25--35 and 369--489).  \<open>Enemy.update\<close> appends to the shared projectile
  list, so it takes and returns that list; \<open>Enemy.shoot\<close> divides by the distance to
  its target, and a zero distance is Python's ZeroDivisionError, a value here.
  \<open>Fireball.update\<close> may damage the player, so it takes and returns the player.
\<close>

subsection \<open>Constants\<close>

record enemy_stats =
  st_hp :: int
  st_speed :: real
  st_contact :: int

definition ENEMY_STATS :: "enemy_kind \<Rightarrow> enemy_stats" where
  "ENEMY_STATS k =
     (case k of
        Spider \<Rightarrow> \<lparr>st_hp = 3, st_speed = 1.4, st_contact = 2\<rparr>
      | Skeleton \<Rightarrow> \<lparr>st_hp = 5, st_speed = 1.1, st_contact = 2\<rparr>
      | Ghost \<Rightarrow> \<lparr>st_hp = 4, st_speed = 0.9, st_contact = 1\<rparr>
      | Eye \<Rightarrow> \<lparr>st_hp = 4, st_speed = 0.8, st_contact = 0\<rparr>)"

definition FIREBALL_SPEED :: real where "FIREBALL_SPEED = 3.0"
definition FIREBALL_DAMAGE :: int where "FIREBALL_DAMAGE = 1"
definition FIREBALL_RANGE :: real where "FIREBALL_RANGE = 260"
definition FIREBALL_COOLDOWN_MS :: int where "FIREBALL_COOLDOWN_MS = 1200"

lemmas enemy_consts [simp] = FIREBALL_SPEED_def FIREBALL_DAMAGE_def FIREBALL_RANGE_def
  FIREBALL_COOLDOWN_MS_def

subsection \<open>Fireballs\<close>

record fireball =
  fx :: real
  fy :: real
  vx :: real
  vy :: real
  fr :: int
  falive :: bool

definition new_fireball :: "real \<Rightarrow> real \<Rightarrow> real \<Rightarrow> real \<Rightarrow> fireball" where
  \<comment> \<open>\<open>Fireball.__init__\<close>\<close>
  "new_fireball x y vx0 vy0 = \<lparr>fx = x, fy = y, vx = vx0, vy = vy0, fr = 8, falive = True\<rparr>"

definition fireball_rect :: "fireball \<Rightarrow> rect" where
  "fireball_rect f = Rect (py_int (fx f) - fr f) (py_int (fy f) - fr f) (fr f * 2) (fr f * 2)"

text \<open>
  \<open>Fireball.update(grid, player)\<close>: move, die outside the screen, die on a wall tile
  (a coarse grid lookup), else hit a live player whose box meets the fireball's and die.
\<close>

definition fireball_update :: "int \<Rightarrow> grid \<Rightarrow> fireball \<times> player \<Rightarrow> fireball \<times> player" where
  "fireball_update now g fp =
     (let (f, p) = fp in
      if \<not> falive f then (f, p)
      else
        let f1 = f\<lparr>fx := fx f + vx f, fy := fy f + vy f\<rparr> in
        if \<not> (0 \<le> fx f1 \<and> fx f1 \<le> of_int SCREEN_WIDTH \<and> 0 \<le> fy f1 \<and> fy f1 \<le> of_int SCREEN_HEIGHT)
        then (f1\<lparr>falive := False\<rparr>, p)
        else
          let gx = py_int (fx f1) div TILE; gy = py_int (fy f1) div TILE in
          if 0 \<le> gx \<and> gx < int ROOM_W \<and> 0 \<le> gy \<and> gy < int ROOM_H \<and> cell g (nat gx) (nat gy) = 1
          then (f1\<lparr>falive := False\<rparr>, p)
          else if alive p \<and> colliderect (fireball_rect f1) (player_rect p)
          then (f1\<lparr>falive := False\<rparr>, take_damage now p FIREBALL_DAMAGE)
          else (f1, p))"

subsection \<open>Enemies\<close>

record enemy =
  ex :: real
  ey :: real
  kind :: enemy_kind
  emask :: mask
  espeed :: real
  hp :: int
  contact_damage :: int
  ewidth :: int
  eheight :: int
  next_shot :: int

definition new_enemy :: "assets \<Rightarrow> int \<Rightarrow> int \<Rightarrow> enemy_kind \<Rightarrow> enemy" where
  \<comment> \<open>\<open>Enemy.__init__(x, y, kind)\<close>\<close>
  "new_enemy a x y k =
     \<lparr>ex = of_int x, ey = of_int y, kind = k, emask = enemy_mask a k,
      espeed = st_speed (ENEMY_STATS k), hp = st_hp (ENEMY_STATS k),
      contact_damage = st_contact (ENEMY_STATS k),
      ewidth = fst (enemy_size a k), eheight = snd (enemy_size a k), next_shot = 0\<rparr>"

definition enemy_rect :: "enemy \<Rightarrow> rect" where
  "enemy_rect e = Rect (py_int (ex e)) (py_int (ey e)) (ewidth e) (eheight e)"

definition enemy_center :: "enemy \<Rightarrow> int \<times> int" where
  "enemy_center e = (centerx (enemy_rect e), centery (enemy_rect e))"

definition enemy_alive :: "enemy \<Rightarrow> bool" where
  "enemy_alive e \<longleftrightarrow> 0 < hp e"

definition enemy_take_damage :: "enemy \<Rightarrow> int \<Rightarrow> enemy" where
  "enemy_take_damage e v = e\<lparr>hp := hp e - v\<rparr>"

text \<open>\<open>Enemy.shoot(tx, ty, projectiles)\<close>: one fireball from the centre towards \<open>(tx, ty)\<close>.\<close>

definition shoot :: "enemy \<Rightarrow> int \<Rightarrow> int \<Rightarrow> fireball list \<Rightarrow> fireball list result" where
  "shoot e tx ty projectiles =
     (let (cx, cy) = enemy_center e;
          dx = real_of_int (tx - cx); dy = real_of_int (ty - cy); d = hypot dx dy
      in if d = 0 then Inl ZeroDivisionError
         else Inr (projectiles @
                [new_fireball (of_int cx) (of_int cy) (dx / d * FIREBALL_SPEED) (dy / d * FIREBALL_SPEED)]))"

text \<open>
  The two branches of \<open>Enemy.update\<close>.  The eye keeps to the band \<open>[160, 260]\<close>
  around the player, is stopped by walls, and fires when the player is within
  \<open>FIREBALL_RANGE\<close> and its cooldown has elapsed; the others chase the player's centre,
  and all but the ghost are stopped by walls.
\<close>

definition eye_update ::
  "mask \<Rightarrow> int \<Rightarrow> (int \<times> int) list \<Rightarrow> int \<times> int \<Rightarrow> real \<Rightarrow> real \<Rightarrow> enemy \<times> fireball list \<Rightarrow>
   (enemy \<times> fireball list) result" where
  "eye_update wm now walls pc dx dy ep =
     (let (e, projs) = ep; d = hypot dx dy; minr = 160; maxr = 260;
          mx = (if d > maxr then dx / d else if d < minr then - dx / d else 0);
          my = (if d > maxr then dy / d else if d < minr then - dy / d else 0);
          e1 = e\<lparr>ex := ex e + mx * espeed e, ey := ey e + my * espeed e\<rparr>;
          e2 = (if hits_wall (emask e1) (ex e1) (ey e1) wm walls then e else e1)
      in if d \<le> FIREBALL_RANGE \<and> now \<ge> next_shot e2
         then (case shoot e2 (fst pc) (snd pc) projs of
                 Inl err \<Rightarrow> Inl err
               | Inr projs' \<Rightarrow> Inr (e2\<lparr>next_shot := now + FIREBALL_COOLDOWN_MS\<rparr>, projs'))
         else Inr (e2, projs))"

definition chase_update :: "mask \<Rightarrow> (int \<times> int) list \<Rightarrow> real \<Rightarrow> real \<Rightarrow> enemy \<Rightarrow> enemy" where
  "chase_update wm walls dx dy e =
     (let d = hypot dx dy;
          e1 = e\<lparr>ex := ex e + dx / d * espeed e, ey := ey e + dy / d * espeed e\<rparr>
      in if kind e \<noteq> Ghost \<and> hits_wall (emask e1) (ex e1) (ey e1) wm walls then e else e1)"

definition enemy_update ::
  "mask \<Rightarrow> int \<Rightarrow> player \<Rightarrow> (int \<times> int) list \<Rightarrow> enemy \<times> fireball list \<Rightarrow>
   (enemy \<times> fireball list) result" where
  "enemy_update wm now p walls ep =
     (let (e, projs) = ep in
      if \<not> enemy_alive e \<or> \<not> alive p then Inr (e, projs)
      else
        let (pcx, pcy) = player_center p; (ecx, ecy) = enemy_center e;
            dx = real_of_int (pcx - ecx); dy = real_of_int (pcy - ecy)
        in if hypot dx dy = 0 then Inr (e, projs)
           else if kind e = Eye then eye_update wm now walls (pcx, pcy) dx dy (e, projs)
           else Inr (chase_update wm walls dx dy e, projs))"

declare ENEMY_STATS_def [model_defs] new_fireball_def [model_defs] fireball_rect_def [model_defs]
  fireball_update_def [model_defs] new_enemy_def [model_defs] enemy_rect_def [model_defs]
  enemy_center_def [model_defs] enemy_alive_def [model_defs] enemy_take_damage_def [model_defs]
  shoot_def [model_defs] eye_update_def [model_defs] chase_update_def [model_defs]
  enemy_update_def [model_defs]

subsection \<open>Helper lemmas\<close>

lemma enemy_center_upd [simp]:
  "enemy_center (e\<lparr>next_shot := t\<rparr>) = enemy_center e"
  "enemy_center (e\<lparr>hp := h\<rparr>) = enemy_center e"
  by (simp_all add: enemy_center_def enemy_rect_def)

lemma shoot_Inr:
  assumes "hypot (real_of_int (tx - fst (enemy_center e))) (real_of_int (ty - snd (enemy_center e))) \<noteq> 0"
  shows "shoot e tx ty ps =
    Inr (ps @ [new_fireball (of_int (fst (enemy_center e))) (of_int (snd (enemy_center e)))
      (real_of_int (tx - fst (enemy_center e)) /
         hypot (real_of_int (tx - fst (enemy_center e))) (real_of_int (ty - snd (enemy_center e))) * FIREBALL_SPEED)
      (real_of_int (ty - snd (enemy_center e)) /
         hypot (real_of_int (tx - fst (enemy_center e))) (real_of_int (ty - snd (enemy_center e))) * FIREBALL_SPEED)])"
  using assms by (auto simp: shoot_def Let_def split: prod.splits)

lemma shoot_Inl_iff:
  "shoot e tx ty ps = Inl err \<longleftrightarrow> enemy_center e = (tx, ty) \<and> err = ZeroDivisionError"
  by (auto simp: shoot_def Let_def split: prod.splits)

text \<open>
  Stepping away from a point never brings a sprite's centre closer on either axis:
  the centre is the truncated position plus half the size, and truncation is monotone.
  So an enemy that is not on the point does not land on it by stepping away.
\<close>

lemma center_ne_of_monotone:
  assumes dx: "dx = real_of_int (fst pc - fst (enemy_center e))"
    and dy: "dy = real_of_int (snd pc - snd (enemy_center e))"
    and nz: "dx \<noteq> 0 \<or> dy \<noteq> 0"
    and mx: "(0 < dx \<longrightarrow> ex e' \<le> ex e) \<and> (dx < 0 \<longrightarrow> ex e \<le> ex e')"
    and my: "(0 < dy \<longrightarrow> ey e' \<le> ey e) \<and> (dy < 0 \<longrightarrow> ey e \<le> ey e')"
    and size: "ewidth e' = ewidth e" "eheight e' = eheight e"
  shows "enemy_center e' \<noteq> pc"
proof
  assume eq: "enemy_center e' = pc"
  have cx: "(0 < dx \<longrightarrow> fst (enemy_center e') \<le> fst (enemy_center e)) \<and>
      (dx < 0 \<longrightarrow> fst (enemy_center e) \<le> fst (enemy_center e'))"
    using mx size by (auto simp: enemy_center_def enemy_rect_def centerx_def intro: py_int_mono)
  have cy: "(0 < dy \<longrightarrow> snd (enemy_center e') \<le> snd (enemy_center e)) \<and>
      (dy < 0 \<longrightarrow> snd (enemy_center e) \<le> snd (enemy_center e'))"
    using my size by (auto simp: enemy_center_def enemy_rect_def centery_def intro: py_int_mono)
  from nz have "dx < 0 \<or> 0 < dx \<or> dy < 0 \<or> 0 < dy" by linarith
  with cx cy eq dx dy show False by auto
qed

lemma step_away_signs:
  assumes "0 \<le> (s::real)" and "0 < d"
  shows "(0 < v \<longrightarrow> a + - v / d * s \<le> a) \<and> (v < 0 \<longrightarrow> a \<le> a + - v / d * s)"
proof -
  have "- v / d * s = - (v * s / d)" by simp
  moreover have "0 < v \<longrightarrow> 0 \<le> v * s / d" and "v < 0 \<longrightarrow> v * s / d \<le> 0"
    using assms by (simp_all add: divide_nonneg_pos divide_nonpos_pos mult_nonpos_nonneg)
  ultimately show ?thesis by auto
qed

lemma eye_update_Inr:
  assumes sp: "0 \<le> espeed e" and nz: "hypot dx dy \<noteq> 0"
    and dx: "dx = real_of_int (fst pc - fst (enemy_center e))"
    and dy: "dy = real_of_int (snd pc - snd (enemy_center e))"
  shows "\<exists>r. eye_update wm now walls pc dx dy (e, ps) = Inr r"
proof -
  let ?d = "hypot dx dy"
  let ?mx = "if ?d > 260 then dx / ?d else if ?d < 160 then - dx / ?d else 0"
  let ?my = "if ?d > 260 then dy / ?d else if ?d < 160 then - dy / ?d else 0"
  let ?e1 = "e\<lparr>ex := ex e + ?mx * espeed e, ey := ey e + ?my * espeed e\<rparr>"
  have d: "0 < ?d" using nz hypot_nonneg [of dx dy] by linarith
  from nz have nz': "dx \<noteq> 0 \<or> dy \<noteq> 0" by simp
  have ne0: "enemy_center e \<noteq> pc"
    using nz' dx dy by auto
  have ne1: "enemy_center ?e1 \<noteq> pc" if "?d \<le> 260"
  proof (cases "?d < 160")
    case True
    with that have e1: "?e1 = e\<lparr>ex := ex e + - dx / ?d * espeed e, ey := ey e + - dy / ?d * espeed e\<rparr>"
      by simp
    show ?thesis
      unfolding e1
      by (rule center_ne_of_monotone [OF dx dy nz'])
         (use step_away_signs [OF sp d] in auto)
  next
    case False
    with that have "?e1 = e" by simp
    with ne0 show ?thesis by simp
  qed
  show ?thesis
    using ne0 ne1 unfolding eye_update_def Let_def
    by (auto simp: shoot_Inl_iff split: sum.splits)
qed

lemma enemy_update_cases:
  "enemy_update wm now p walls (e, ps) =
     (if \<not> enemy_alive e \<or> \<not> alive p then Inr (e, ps)
      else if hypot (real_of_int (fst (player_center p) - fst (enemy_center e)))
                    (real_of_int (snd (player_center p) - snd (enemy_center e))) = 0 then Inr (e, ps)
      else if kind e = Eye then
        eye_update wm now walls (player_center p)
          (real_of_int (fst (player_center p) - fst (enemy_center e)))
          (real_of_int (snd (player_center p) - snd (enemy_center e))) (e, ps)
      else Inr (chase_update wm walls
          (real_of_int (fst (player_center p) - fst (enemy_center e)))
          (real_of_int (snd (player_center p) - snd (enemy_center e))) e, ps))"
  by (simp add: enemy_update_def Let_def split: prod.splits)

lemma enemy_update_total:
  assumes "0 \<le> espeed e"
  shows "\<exists>r. enemy_update wm now p walls (e, ps) = Inr r"
proof (cases "\<not> enemy_alive e \<or> \<not> alive p \<or>
    hypot (real_of_int (fst (player_center p) - fst (enemy_center e)))
          (real_of_int (snd (player_center p) - snd (enemy_center e))) = 0 \<or> kind e \<noteq> Eye")
  case True
  then show ?thesis by (auto simp: enemy_update_cases)
next
  case False
  then show ?thesis
    using eye_update_Inr [OF assms, of _ _ "player_center p"]
    by (simp add: enemy_update_cases)
qed

lemma enemy_update_fields:
  assumes "enemy_update wm now p walls (e, ps) = Inr (e', ps')"
  shows "contact_damage e' = contact_damage e \<and> espeed e' = espeed e \<and> hp e' = hp e \<and>
    kind e' = kind e"
  using assms
  by (auto simp: enemy_update_cases eye_update_def chase_update_def Let_def
      split: if_splits sum.splits)

subsection \<open>Properties of enemies and fireballs\<close>

text \<open>
  C25: \<open>Enemy.update\<close> never raises: the ZeroDivisionError of \<open>Enemy.shoot\<close> is
  unreachable, because an eye only fires within \<open>FIREBALL_RANGE\<close>, where it either
  holds still or steps away from the player, and stepping away never lands its centre
  on the player's.
\<close>

theorem enemy_update_never_raises:
  assumes "0 \<le> espeed e"
  shows "\<exists>r. enemy_update wm now p walls (e, ps) = Inr r"
  using assms by (rule enemy_update_total)

theorem enemy_update_never_raises_witness:
  "0 \<le> espeed (new_enemy sample_assets 264 64 Eye) \<and>
   (\<exists>r. enemy_update (wall_mask sample_assets) 1000 (new_player sample_assets) []
          (new_enemy sample_assets 264 64 Eye, []) = Inr r)"
proof -
  have sp: "0 \<le> espeed (new_enemy sample_assets 264 64 Eye)"
    by (simp add: new_enemy_def ENEMY_STATS_def)
  from enemy_update_never_raises [OF sp] sp show ?thesis by blast
qed

text \<open>
  C26: an eye whose distance to the player lies in its band \<open>[160, 260]\<close> holds
  still; it fires one fireball from its centre aimed at the player's centre, at
  \<open>FIREBALL_SPEED\<close>, and restarts its 1200 ms cooldown when the cooldown has elapsed,
  and otherwise does nothing.
\<close>

theorem eye_update_in_band:
  assumes "kind e = Eye" and "enemy_alive e" and "alive p"
    and dx: "dx = real_of_int (fst (player_center p) - fst (enemy_center e))"
    and dy: "dy = real_of_int (snd (player_center p) - snd (enemy_center e))"
    and band: "160 \<le> hypot dx dy" "hypot dx dy \<le> 260"
  shows "enemy_update wm now p walls (e, ps) =
    (if next_shot e \<le> now
     then Inr (e\<lparr>next_shot := now + FIREBALL_COOLDOWN_MS\<rparr>,
               ps @ [new_fireball (of_int (fst (enemy_center e))) (of_int (snd (enemy_center e)))
                       (dx / hypot dx dy * FIREBALL_SPEED) (dy / hypot dx dy * FIREBALL_SPEED)])
     else Inr (e, ps))"
proof -
  have nz: "hypot dx dy \<noteq> 0" using band by linarith
  have e1: "e\<lparr>ex := ex e + 0 * espeed e, ey := ey e + 0 * espeed e\<rparr> = e" by simp
  have e1': "e\<lparr>ex := ex e + 0 * espeed e, ey := ey e + 0 * espeed e,
      next_shot := t\<rparr> = e\<lparr>next_shot := t\<rparr>" for t by simp
  have sh: "shoot e (fst (player_center p)) (snd (player_center p)) ps =
      Inr (ps @ [new_fireball (of_int (fst (enemy_center e))) (of_int (snd (enemy_center e)))
                       (dx / hypot dx dy * FIREBALL_SPEED) (dy / hypot dx dy * FIREBALL_SPEED)])"
    using shoot_Inr [of "fst (player_center p)" e "snd (player_center p)" ps] nz dx dy by simp
  have eu: "eye_update wm now walls (player_center p) dx dy (e, ps) =
    (if next_shot e \<le> now
     then (case shoot e (fst (player_center p)) (snd (player_center p)) ps of
             Inl err \<Rightarrow> Inl err | Inr ps' \<Rightarrow> Inr (e\<lparr>next_shot := now + FIREBALL_COOLDOWN_MS\<rparr>, ps'))
     else Inr (e, ps))"
    using band unfolding eye_update_def Let_def by (simp add: e1 e1' split: sum.splits)
  have "enemy_update wm now p walls (e, ps) = eye_update wm now walls (player_center p) dx dy (e, ps)"
    using assms(1-3) nz unfolding enemy_update_cases dx [symmetric] dy [symmetric] by auto
  then show ?thesis by (simp add: eu sh)
qed

theorem eye_update_in_band_witness:
  "enemy_update (wall_mask sample_assets) 1000 (new_player sample_assets) []
     (new_enemy sample_assets 264 64 Eye, []) =
   Inr ((new_enemy sample_assets 264 64 Eye)\<lparr>next_shot := 2200\<rparr>,
        [new_fireball 280 80 (- 3) 0])"
proof -
  let ?e = "new_enemy sample_assets 264 64 Eye" and ?p = "new_player sample_assets"
  have pc: "player_center ?p = (80, 80)"
    by (simp add: player_center_def player_rect_def new_player_def sample_assets_def centerx_def
        centery_def)
  have ec: "enemy_center ?e = (280, 80)"
    by (simp add: enemy_center_def enemy_rect_def new_enemy_def sample_assets_def centerx_def
        centery_def)
  have k: "kind ?e = Eye" and a: "enemy_alive ?e" and pa: "alive ?p" and ns: "next_shot ?e = 0"
    by (simp_all add: new_enemy_def enemy_alive_def ENEMY_STATS_def new_player_def)
  have dx: "(-200::real) = real_of_int (fst (player_center ?p) - fst (enemy_center ?e))"
    and dy: "(0::real) = real_of_int (snd (player_center ?p) - snd (enemy_center ?e))"
    by (simp_all add: pc ec)
  have b: "160 \<le> hypot (-200) 0" "hypot (-200) 0 \<le> (260::real)" by simp_all
  from eye_update_in_band [OF k a pa dx dy b, of "wall_mask sample_assets" 1000 "[]" "[]"]
  show ?thesis by (simp add: ns ec)
qed

text \<open>
  C29: the ghost is intangible: its update is the same whatever the walls of the room.
\<close>

theorem ghost_ignores_walls:
  assumes "kind e = Ghost"
  shows "enemy_update wm now p walls (e, ps) = enemy_update wm' now p walls' (e, ps)"
  using assms by (simp add: enemy_update_cases chase_update_def)

theorem ghost_ignores_walls_witness:
  "kind (new_enemy sample_assets 64 64 Ghost) = Ghost \<and>
   enemy_update (wall_mask sample_assets) 0 (new_player sample_assets) [(64, 64)]
     (new_enemy sample_assets 64 64 Ghost, []) =
   enemy_update (wall_mask sample_assets) 0 (new_player sample_assets) []
     (new_enemy sample_assets 64 64 Ghost, [])"
proof -
  have k: "kind (new_enemy sample_assets 64 64 Ghost) = Ghost" by (simp add: new_enemy_def)
  from ghost_ignores_walls [OF k] k show ?thesis by blast
qed

text \<open>
  C28: every solid enemy (spider, skeleton, eye) that starts clear of the room's walls
  is still clear of them after its update: a step into a wall is rolled back whole.
\<close>

theorem solid_enemy_stays_clear:
  assumes "kind e \<noteq> Ghost"
    and "\<not> hits_wall (emask e) (ex e) (ey e) wm walls"
    and "enemy_update wm now p walls (e, ps) = Inr (e', ps')"
  shows "\<not> hits_wall (emask e') (ex e') (ey e') wm walls"
  using assms
  by (auto simp: enemy_update_cases eye_update_def chase_update_def Let_def
      split: if_splits sum.splits)

theorem solid_enemy_stays_clear_witness:
  "kind (new_enemy sample_assets 200 64 Skeleton) \<noteq> Ghost \<and>
   \<not> hits_wall (emask (new_enemy sample_assets 200 64 Skeleton))
      (ex (new_enemy sample_assets 200 64 Skeleton)) (ey (new_enemy sample_assets 200 64 Skeleton))
      (wall_mask sample_assets) [(0, 0)] \<and>
   enemy_update (wall_mask sample_assets) 0 (new_player sample_assets) [(0, 0)]
      (new_enemy sample_assets 200 64 Skeleton, []) =
     Inr ((new_enemy sample_assets 200 64 Skeleton)\<lparr>ex := 198.9\<rparr>, []) \<and>
   \<not> hits_wall (emask (new_enemy sample_assets 200 64 Skeleton)) 198.9 64 (wall_mask sample_assets) [(0, 0)]"
proof -
  let ?e = "new_enemy sample_assets 200 64 Skeleton" and ?p = "new_player sample_assets"
  have k: "kind ?e \<noteq> Ghost" by (simp add: new_enemy_def)
  have c: "\<not> hits_wall (emask ?e) (ex ?e) (ey ?e) (wall_mask sample_assets) [(0, 0)]"
    by (simp add: hits_wall_def pixel_collision_def mask_overlap_def new_enemy_def
        sample_assets_def corner_mask_def)
  have pc: "player_center ?p = (80, 80)"
    by (simp add: player_center_def player_rect_def new_player_def sample_assets_def centerx_def
        centery_def)
  have ec: "enemy_center ?e = (216, 80)"
    by (simp add: enemy_center_def enemy_rect_def new_enemy_def sample_assets_def centerx_def
        centery_def)
  have a: "enemy_alive ?e" and pa: "alive ?p" and sp: "espeed ?e = 1.1" and x: "ex ?e = 200"
    by (simp_all add: enemy_alive_def new_enemy_def new_player_def ENEMY_STATS_def)
  have r: "py_int (- 198.9) = - 198" by (simp add: py_int_def ceiling_eq_iff)
  have hw: "\<not> hits_wall (emask ?e) 198.9 64 (wall_mask sample_assets) [(0, 0)]"
    by (simp add: hits_wall_def pixel_collision_def mask_overlap_def new_enemy_def r
        sample_assets_def corner_mask_def)
  have e1: "ex ?e - espeed ?e = 198.9" by (simp add: sp x)
  have k2: "kind ?e = Skeleton" and y: "ey ?e = 64" by (simp_all add: new_enemy_def)
  have eq: "enemy_update (wall_mask sample_assets) 0 ?p [(0, 0)] (?e, []) = Inr (?e\<lparr>ex := 198.9\<rparr>, [])"
    using hw by (simp add: enemy_update_cases pc ec a pa chase_update_def e1 k2 y)
  from solid_enemy_stays_clear [OF k c eq] k c eq show ?thesis by (simp add: y)
qed

text \<open>
  C30: a fireball hurts the player only through the player's own damage path
  (\<open>take_damage\<close> with \<open>FIREBALL_DAMAGE\<close>, so invulnerability windows apply), and
  a fireball that hurts the player is spent.
\<close>

theorem fireball_update_damage_path:
  assumes "fireball_update now g (f, p) = (f', p')"
  shows "(p' = p \<or> p' = take_damage now p FIREBALL_DAMAGE) \<and> (p' \<noteq> p \<longrightarrow> \<not> falive f')"
  using assms by (auto simp: fireball_update_def Let_def split: if_splits)

theorem fireball_update_damage_path_witness:
  "fireball_update 1000 (replicate 18 (replicate 25 0)) (new_fireball 100 80 (- 3) 0, new_player sample_assets) =
     ((new_fireball 97 80 (- 3) 0)\<lparr>falive := False\<rparr>, take_damage 1000 (new_player sample_assets) 1) \<and>
   health (take_damage 1000 (new_player sample_assets) FIREBALL_DAMAGE) = 9"
proof -
  have eq: "fireball_update 1000 (replicate 18 (replicate 25 0)) (new_fireball 100 80 (- 3) 0, new_player sample_assets) =
     ((new_fireball 97 80 (- 3) 0)\<lparr>falive := False\<rparr>, take_damage 1000 (new_player sample_assets) 1)"
    by (simp add: fireball_update_def new_fireball_def fireball_rect_def player_rect_def
        new_player_def sample_assets_def colliderect_def cell_def)
  have "take_damage 1000 (new_player sample_assets) 1 \<noteq> new_player sample_assets"
    by (simp add: take_damage_def new_player_def)
  with fireball_update_damage_path [OF eq] eq show ?thesis
    by (simp add: take_damage_def new_player_def)
qed

text \<open>
  C31: a fireball still alive after its update is on the screen and not over a wall
  tile of the room's grid.
\<close>

theorem fireball_live_in_room:
  assumes "fireball_update now g (f, p) = (f', p')" and "falive f'"
  shows "0 \<le> fx f' \<and> fx f' \<le> of_int SCREEN_WIDTH \<and> 0 \<le> fy f' \<and> fy f' \<le> of_int SCREEN_HEIGHT \<and>
    (py_int (fx f') div TILE < int ROOM_W \<and> py_int (fy f') div TILE < int ROOM_H \<longrightarrow>
       cell g (nat (py_int (fx f') div TILE)) (nat (py_int (fy f') div TILE)) \<noteq> 1)"
proof (cases "falive f")
  case False
  with assms show ?thesis by (simp add: fireball_update_def)
next
  case True
  have nn: "0 \<le> x \<Longrightarrow> 0 \<le> py_int x div 32" for x
    by (simp add: py_int_def pos_imp_zdiv_nonneg_iff)
  from True assms show ?thesis
    by (auto simp: fireball_update_def Let_def nn split: if_splits)
qed

theorem fireball_live_in_room_witness:
  "fireball_update 0 (replicate 18 (replicate 25 0)) (new_fireball 400 300 3 0, new_player sample_assets) =
     (new_fireball 403 300 3 0, new_player sample_assets) \<and> falive (new_fireball 403 300 3 0) \<and>
   0 \<le> fx (new_fireball 403 300 3 0)"
proof -
  have eq: "fireball_update 0 (replicate 18 (replicate 25 0)) (new_fireball 400 300 3 0, new_player sample_assets) =
     (new_fireball 403 300 3 0, new_player sample_assets)"
    by (simp add: fireball_update_def new_fireball_def fireball_rect_def player_rect_def
        new_player_def sample_assets_def colliderect_def cell_def)
  have al: "falive (new_fireball 403 300 3 0)" by (simp add: new_fireball_def)
  from fireball_live_in_room [OF eq al] eq al show ?thesis
    by (simp add: new_fireball_def)
qed

end
