(* ===== verification/Combat.thy ===== *)
theory Combat
  imports Enemy
begin

text \<open>
  Damage handling of \<open>src/main.py\<close> (lines 568--580): contact damage of the enemies
  to the player (\<open>handle_melee\<close>), the sword's damage to the enemies
  (\<open>handle_sword\<close>), and the list comprehensions of the main loop that drop dead
  enemies and spent fireballs (lines 708 and 713).  The clock \<open>now\<close> is the value
  \<open>pygame.time.get_ticks()\<close> returns during the frame.
\<close>

text \<open>The guard of the loop of \<open>handle_melee\<close>.\<close>

definition melee_hits :: "player \<Rightarrow> enemy \<Rightarrow> bool" where
  "melee_hits p e \<longleftrightarrow> enemy_alive e \<and> kind e \<noteq> Eye \<and> colliderect (player_rect p) (enemy_rect e)"

definition handle_melee :: "int \<Rightarrow> player \<Rightarrow> enemy list \<Rightarrow> player" where
  "handle_melee now p es =
     (if \<not> alive p then p
      else fold (\<lambda>e p. if melee_hits p e then take_damage now p (contact_damage e) else p) es p)"

definition handle_sword :: "player \<Rightarrow> enemy list \<Rightarrow> enemy list" where
  "handle_sword p es =
     (if \<not> attacking p then es
      else map (\<lambda>e. if enemy_alive e \<and> can_hit p (enemy_center e)
                    then enemy_take_damage e SWORD_DAMAGE else e) es)"

definition purge_enemies :: "enemy list \<Rightarrow> enemy list" where
  \<comment> \<open>\<open>enemies[:] = [e for e in enemies if e.alive()]\<close>\<close>
  "purge_enemies es = filter enemy_alive es"

definition purge_fireballs :: "fireball list \<Rightarrow> fireball list" where
  \<comment> \<open>\<open>projectiles[:] = [fb for fb in projectiles if fb.alive]\<close>\<close>
  "purge_fireballs fs = filter falive fs"

declare melee_hits_def [model_defs] handle_melee_def [model_defs] handle_sword_def [model_defs]
  purge_enemies_def [model_defs] purge_fireballs_def [model_defs]

subsection \<open>Contact damage\<close>

lemma take_damage_rect [simp]: "player_rect (take_damage now p d) = player_rect p"
  by (simp add: take_damage_def player_rect_def Let_def)

lemma melee_hits_take_damage [simp]: "melee_hits (take_damage now p d) = melee_hits p"
  by (simp add: melee_hits_def fun_eq_iff)

text \<open>After a call of \<open>take_damage\<close> at time \<open>now\<close> the player is invulnerable at \<open>now\<close>.\<close>

lemma take_damage_shields: "now < invuln_until (take_damage now p d)"
  by (cases "now < invuln_until p") (simp_all add: take_damage_applied)

lemma melee_fold_shielded:
  assumes "now < invuln_until p"
  shows "fold (\<lambda>e p. if melee_hits p e then take_damage now p (contact_damage e) else p) es p = p"
  using assms by (induction es) simp_all

lemma melee_fold_first:
  "fold (\<lambda>e p. if melee_hits p e then take_damage now p (contact_damage e) else p) es p =
     (case find (melee_hits p) es of None \<Rightarrow> p | Some e \<Rightarrow> take_damage now p (contact_damage e))"
proof (induction es arbitrary: p)
  case Nil
  then show ?case by simp
next
  case (Cons e es)
  show ?case
  proof (cases "melee_hits p e")
    case True
    then show ?thesis
      using melee_fold_shielded [OF take_damage_shields] by simp
  next
    case False
    with Cons.IH show ?thesis by simp
  qed
qed

subsection \<open>Sword damage\<close>

lemma handle_sword_map:
  "handle_sword p es =
     map (\<lambda>e. if enemy_alive e \<and> can_hit p (enemy_center e) then enemy_take_damage e SWORD_DAMAGE else e) es"
  by (simp add: handle_sword_def can_hit_def)

lemma enemy_alive_take_damage [simp]:
  "enemy_alive (enemy_take_damage e d) \<longleftrightarrow> d < hp e"
  by (simp add: enemy_alive_def enemy_take_damage_def)

subsection \<open>Properties of combat\<close>

text \<open>
  C6: one call of \<open>handle_melee\<close> damages the player at most once, however many
  enemies touch it: a live player takes the contact damage of the first live,
  non-eye enemy whose box meets its own, and the invulnerability window that hit
  opens blocks every later one; a dead player is untouched.
\<close>

theorem handle_melee_one_hit:
  "handle_melee now p es =
     (if alive p then (case find (melee_hits p) es of
                         None \<Rightarrow> p
                       | Some e \<Rightarrow> take_damage now p (contact_damage e))
      else p)"
  by (simp add: handle_melee_def melee_fold_first)

text \<open>
  C24: a click's sword damage followed by the purge of the next frame removes exactly
  the live enemies the swing reaches whose hit points are at most \<open>SWORD_DAMAGE\<close>; the
  other live enemies the swing reaches survive with \<open>SWORD_DAMAGE\<close> fewer hit points,
  the ones it misses survive unchanged, in their original order.
\<close>

theorem sword_then_purge:
  "purge_enemies (handle_sword p es) =
     map (\<lambda>e. if can_hit p (enemy_center e) then enemy_take_damage e SWORD_DAMAGE else e)
       (filter (\<lambda>e. enemy_alive e \<and> \<not> (can_hit p (enemy_center e) \<and> hp e \<le> SWORD_DAMAGE)) es)"
  unfolding purge_enemies_def handle_sword_map
  by (induction es) (auto simp: enemy_alive_def enemy_take_damage_def simp del: player_consts)

end
