(* ===== verification/Items.thy ===== *)
theory Items
  imports Player
begin

text \<open>
  Chests, food and the inventory (\<open>src/main.py\<close> lines 105--112, 491--504, the
  inventory reset at line 524 and the key handlers of lines 666--678).  The inventory
  is the dict \<open>{n: 0 for n in ITEM_ORDER}\<close>; every item of the game is one of its keys,
  so it is a total function from items to counts (\<open>inv[it]\<close> cannot raise).
\<close>

datatype item = Apple | Bread | Meat | Chicken

definition ITEM_ORDER :: "item list" where
  "ITEM_ORDER = [Apple, Bread, Meat, Chicken]"

definition item_heal :: "item \<Rightarrow> int" where
  "item_heal it = (case it of Apple \<Rightarrow> 1 | Bread \<Rightarrow> 2 | Meat \<Rightarrow> 3 | Chicken \<Rightarrow> 4)"

type_synonym inventory = "item \<Rightarrow> int"

definition empty_inventory :: inventory where
  "empty_inventory = (\<lambda>_. 0)"

record chest =
  chx :: int
  chy :: int
  items :: "item list"
  copen :: bool
  crect :: rect

definition new_chest :: "assets \<Rightarrow> int \<Rightarrow> int \<Rightarrow> item list \<Rightarrow> chest" where
  \<comment> \<open>\<open>Chest.__init__(x, y, items)\<close>\<close>
  "new_chest a x y its =
     \<lparr>chx = x, chy = y, items = its, copen = False, crect = Rect x y (chest_w a) (chest_h a)\<rparr>"

definition add_item :: "item \<Rightarrow> inventory \<Rightarrow> inventory" where
  \<comment> \<open>\<open>inv[it] = min(5, inv[it] + 1)\<close>\<close>
  "add_item it bag = bag(it := min 5 (bag it + 1))"

definition chest_try_open :: "rect \<Rightarrow> chest \<times> inventory \<Rightarrow> chest \<times> inventory" where
  \<comment> \<open>\<open>Chest.try_open(p_rect, bag)\<close>\<close>
  "chest_try_open prect ci =
     (let (c, bag) = ci in
      if copen c \<or> \<not> colliderect prect (crect c) then (c, bag)
      else (c\<lparr>copen := True\<rparr>, fold add_item (items c) bag))"

text \<open>Key E: \<open>for c in chs: c.try_open(player.rect, inventory)\<close>.\<close>

definition open_chests :: "rect \<Rightarrow> chest list \<Rightarrow> inventory \<Rightarrow> chest list \<times> inventory" where
  "open_chests prect cs bag =
     fold (\<lambda>c (done, bag). let (c', bag') = chest_try_open prect (c, bag) in (done @ [c'], bag'))
       cs ([], bag)"

text \<open>Keys 1--4: \<open>if inventory[it] > 0: inventory[it] -= 1; player.heal(item_heal[it])\<close>.\<close>

definition consume_item :: "item \<Rightarrow> inventory \<times> player \<Rightarrow> inventory \<times> player" where
  "consume_item it ip =
     (let (bag, p) = ip in
      if bag it > 0 then (bag(it := bag it - 1), heal p (item_heal it)) else (bag, p))"

declare ITEM_ORDER_def [model_defs] item_heal_def [model_defs] empty_inventory_def [model_defs]
  new_chest_def [model_defs] add_item_def [model_defs] chest_try_open_def [model_defs]
  open_chests_def [model_defs] consume_item_def [model_defs]

subsection \<open>The inventory bound\<close>

definition inventory_ok :: "inventory \<Rightarrow> bool" where
  "inventory_ok bag \<longleftrightarrow> (\<forall>it. 0 \<le> bag it \<and> bag it \<le> 5)"

lemma inventory_ok_empty: "inventory_ok empty_inventory"
  by (simp add: inventory_ok_def empty_inventory_def)

lemma add_item_ok [inv_intros]: "inventory_ok bag \<Longrightarrow> inventory_ok (add_item it bag)"
  by (simp add: inventory_ok_def add_item_def)

lemma fold_add_item_ok: "inventory_ok bag \<Longrightarrow> inventory_ok (fold add_item its bag)"
  by (induction its arbitrary: bag) (simp_all add: add_item_ok)

lemma chest_try_open_ok [inv_intros]:
  "inventory_ok bag \<Longrightarrow> inventory_ok (snd (chest_try_open r (c, bag)))"
  by (simp add: chest_try_open_def fold_add_item_ok)

lemma consume_item_ok [inv_intros]:
  assumes "inventory_ok bag"
  shows "inventory_ok (fst (consume_item it (bag, p)))"
proof -
  have "inventory_ok (bag(it := bag it - 1))" if "0 < bag it"
  proof (unfold inventory_ok_def, intro allI)
    fix j
    from assms have "0 \<le> bag j \<and> bag j \<le> 5" by (simp add: inventory_ok_def)
    with that show "0 \<le> (bag(it := bag it - 1)) j \<and> (bag(it := bag it - 1)) j \<le> 5" by auto
  qed
  with assms show ?thesis by (simp add: consume_item_def)
qed

lemma add_item_apply:
  "add_item i bag it = (if it = i then min 5 (bag it + 1) else bag it)"
  by (simp add: add_item_def)

lemma fold_add_item_count:
  assumes "0 \<le> bag it" and "bag it \<le> 5"
  shows "fold add_item its bag it = min 5 (bag it + int (count_list its it))"
  using assms
proof (induction its arbitrary: bag)
  case Nil
  then show ?case by simp
next
  case (Cons i its)
  have "0 \<le> add_item i bag it" and "add_item i bag it \<le> 5"
    using Cons.prems by (auto simp: add_item_apply)
  have "fold add_item (i # its) bag it = fold add_item its (add_item i bag) it" by simp
  also have "\<dots> = min 5 (add_item i bag it + int (count_list its it))"
    using Cons.IH \<open>0 \<le> add_item i bag it\<close> \<open>add_item i bag it \<le> 5\<close> by blast
  also have "\<dots> = min 5 (bag it + int (count_list (i # its) it))"
    using Cons.prems by (auto simp: add_item_apply)
  finally show ?case .
qed

subsection \<open>Properties of chests and food\<close>

text \<open>
  C32: opening a closed chest the player touches adds each of its items once per
  occurrence, capped at 5, and marks it open; opening it again changes nothing.
\<close>

theorem chest_open_once:
  assumes "inventory_ok bag" and "\<not> copen c" and "colliderect prect (crect c)"
  shows "chest_try_open prect (c, bag) =
           (c\<lparr>copen := True\<rparr>, \<lambda>it. min 5 (bag it + int (count_list (items c) it))) \<and>
         chest_try_open prect (chest_try_open prect (c, bag)) = chest_try_open prect (c, bag)"
proof -
  have "fold add_item (items c) bag = (\<lambda>it. min 5 (bag it + int (count_list (items c) it)))"
    using assms(1) fold_add_item_count by (auto simp: inventory_ok_def)
  with assms(2,3) have eq: "chest_try_open prect (c, bag) =
      (c\<lparr>copen := True\<rparr>, \<lambda>it. min 5 (bag it + int (count_list (items c) it)))"
    by (simp add: chest_try_open_def)
  then show ?thesis by (simp add: chest_try_open_def)
qed

theorem chest_open_once_witness:
  "chest_try_open (Rect 64 64 32 32) (new_chest sample_assets 70 70 [Apple, Apple, Meat], empty_inventory) =
     ((new_chest sample_assets 70 70 [Apple, Apple, Meat])\<lparr>copen := True\<rparr>,
      \<lambda>it. min 5 (empty_inventory it + int (count_list [Apple, Apple, Meat] it))) \<and>
   snd (chest_try_open (Rect 64 64 32 32) (new_chest sample_assets 70 70 [Apple, Apple, Meat], empty_inventory)) Apple = 2"
proof -
  let ?c = "new_chest sample_assets 70 70 [Apple, Apple, Meat]"
  have h: "inventory_ok empty_inventory" "\<not> copen ?c" "colliderect (Rect 64 64 32 32) (crect ?c)"
    by (simp_all add: inventory_ok_empty new_chest_def sample_assets_def colliderect_def)
  from chest_open_once [OF h] show ?thesis
    by (simp add: new_chest_def empty_inventory_def)
qed

text \<open>
  C33: eating keeps the inventory within \<open>[0, 5]\<close> and the live player's health
  invariant; health never drops, and with a count of 0 nothing happens.
\<close>

theorem consume_item_safe:
  assumes "inventory_ok bag" and "player_inv p" and "alive p"
  shows "inventory_ok (fst (consume_item it (bag, p))) \<and> player_inv (snd (consume_item it (bag, p))) \<and>
    health p \<le> health (snd (consume_item it (bag, p))) \<and>
    (bag it = 0 \<longrightarrow> consume_item it (bag, p) = (bag, p))"
proof -
  have "0 \<le> item_heal it" by (cases it) (simp_all add: item_heal_def)
  with assms(2,3) have "player_inv (heal p (item_heal it))" by (simp add: heal_inv)
  moreover have "health p \<le> health (heal p (item_heal it))"
    using assms(2) \<open>0 \<le> item_heal it\<close> by (simp add: heal_def player_inv_def)
  ultimately show ?thesis
    using consume_item_ok [OF assms(1), of it p] assms(2)
    by (auto simp: consume_item_def)
qed

theorem consume_item_safe_witness:
  "inventory_ok (empty_inventory(Apple := 1)) \<and> player_inv ((new_player sample_assets)\<lparr>health := 7\<rparr>) \<and>
   alive ((new_player sample_assets)\<lparr>health := 7\<rparr>) \<and>
   health (snd (consume_item Chicken (empty_inventory(Apple := 1), (new_player sample_assets)\<lparr>health := 7\<rparr>))) = 7 \<and>
   health (snd (consume_item Apple (empty_inventory(Apple := 1), (new_player sample_assets)\<lparr>health := 7\<rparr>))) = 8"
proof -
  let ?p = "(new_player sample_assets)\<lparr>health := 7\<rparr>" and ?bag = "empty_inventory(Apple := 1)"
  have h: "inventory_ok ?bag" "player_inv ?p" "alive ?p"
    by (simp_all add: inventory_ok_def empty_inventory_def player_inv_def new_player_def)
  from consume_item_safe [OF h, of Chicken] h show ?thesis
    by (simp add: consume_item_def heal_def empty_inventory_def item_heal_def new_player_def)
qed

text \<open>
  C13: picking up an item (the increment of \<open>Chest.try_open\<close>) and eating it (keys
  1--4) undo each other while the count is below the cap: eating after a pick-up
  restores the inventory, and so does a pick-up after eating; at the cap of 5 the
  pick-up is lost, and eating then leaves 4.
\<close>

theorem pick_up_then_eat:
  assumes "inventory_ok bag"
  shows "(bag it < 5 \<longrightarrow> fst (consume_item it (add_item it bag, p)) = bag) \<and>
    (0 < bag it \<longrightarrow> add_item it (fst (consume_item it (bag, p))) = bag) \<and>
    (bag it = 5 \<longrightarrow> fst (consume_item it (add_item it bag, p)) = bag(it := 4))"
  using assms by (auto simp: inventory_ok_def add_item_def consume_item_def fun_eq_iff)

theorem pick_up_then_eat_witness:
  "inventory_ok (empty_inventory(Apple := 2)) \<and>
   fst (consume_item Apple (add_item Apple (empty_inventory(Apple := 2)), new_player sample_assets)) = empty_inventory(Apple := 2) \<and>
   add_item Apple (fst (consume_item Apple (empty_inventory(Apple := 2), new_player sample_assets))) = empty_inventory(Apple := 2)"
proof -
  have ok: "inventory_ok (empty_inventory(Apple := 2))" by (simp add: inventory_ok_def empty_inventory_def)
  from pick_up_then_eat [OF ok, of Apple "new_player sample_assets"] ok show ?thesis by simp
qed

end
