(* ===== verification/Generation.thy ===== *)
theory Generation
  imports Items Enemy
begin

text \<open>
  \<open>generate_static_dungeon\<close> (\<open>src/main.py\<close> lines 226--266).  Its first loop
  builds the ten rooms with \<open>make_static_room\<close> and fills the lists \<open>rooms\<close> and
  \<open>room_doors\<close> (\<open>build_rooms\<close>); a KeyError of \<open>make_static_room\<close> would propagate.
\<close>

definition build_rooms :: "(grid list \<times> (dir \<rightharpoonup> rect) list) result" where
  "build_rooms =
     fold (\<lambda>i acc. r_bind acc (\<lambda>(gs, ds). r_bind (make_static_room i) (\<lambda>(g, d). Inr (gs @ [g], ds @ [d]))))
       [0..<ROOM_COUNT] (Inr ([], []))"

declare build_rooms_def [model_defs]

subsection \<open>The rooms the first loop builds\<close>

text \<open>The door table a row of \<open>NEIGHBORS\<close> gives a room (the reference of \<open>room_doors\<close>).\<close>

definition door_map :: "(dir \<Rightarrow> nat option) \<Rightarrow> dir \<rightharpoonup> rect" where
  "door_map n = (\<lambda>d. if n d \<noteq> None then Some (door_rect d) else None)"

definition room_grid :: "nat \<Rightarrow> grid" where
  "room_grid i = fst (projr (make_static_room i))"

definition room_doors :: "nat \<Rightarrow> dir \<rightharpoonup> rect" where
  "room_doors i = snd (projr (make_static_room i))"

lemma make_static_room_projr:
  "i < ROOM_COUNT \<Longrightarrow> make_static_room i = Inr (room_grid i, room_doors i)"
  using make_static_room_Inr [of i] by (auto simp: room_grid_def room_doors_def)

lemma room_doors_eq:
  assumes "NEIGHBORS i = Some n"
  shows "room_doors i = door_map n"
proof -
  from assms NEIGHBORS_dom have i: "i < ROOM_COUNT" by auto
  obtain n' where "NEIGHBORS i = Some n'" and "room_doors i = (\<lambda>d. if n' d \<noteq> None then Some (door_rect d) else None)"
    by (rule make_static_room_cell [OF make_static_room_projr [OF i]]) blast
  with assms show ?thesis by (simp add: door_map_def)
qed

lemma build_rooms_prefix:
  assumes "k \<le> ROOM_COUNT"
  shows "fold (\<lambda>i acc. r_bind acc (\<lambda>(gs, ds). r_bind (make_static_room i) (\<lambda>(g, d). Inr (gs @ [g], ds @ [d]))))
       [0..<k] (Inr ([], [])) = Inr (map room_grid [0..<k], map room_doors [0..<k])"
  using assms
proof (induction k)
  case 0
  then show ?case by simp
next
  case (Suc k)
  then have "k < ROOM_COUNT" by simp
  with Suc show ?case by (simp add: make_static_room_projr del: game_consts)
qed

lemma build_rooms_eq:
  "build_rooms = Inr (map room_grid [0..<ROOM_COUNT], map room_doors [0..<ROOM_COUNT])"
  unfolding build_rooms_def by (rule build_rooms_prefix) simp

lemma room_grid_cell:
  assumes "NEIGHBORS i = Some n" and "x < ROOM_W" and "y < ROOM_H"
  shows "cell (room_grid i) x y = room_cell n (EXTRA_WALLS i) x y"
proof -
  from assms(1) NEIGHBORS_dom have i: "i < ROOM_COUNT" by auto
  obtain n' where "NEIGHBORS i = Some n'"
    and "\<And>x y. x < ROOM_W \<Longrightarrow> y < ROOM_H \<Longrightarrow> cell (room_grid i) x y = room_cell n' (EXTRA_WALLS i) x y"
    by (rule make_static_room_cell [OF make_static_room_projr [OF i]]) blast
  with assms show ?thesis by simp
qed

lemma room_grid_wf: "i < ROOM_COUNT \<Longrightarrow> grid_wf (room_grid i)"
  by (rule make_static_room_cell [OF make_static_room_projr]) blast+

lemma room_grid_01:
  assumes "i < ROOM_COUNT" and "x < ROOM_W" and "y < ROOM_H"
  shows "cell (room_grid i) x y \<in> {0, 1}"
proof -
  from assms(1) NEIGHBORS_dom obtain n where "NEIGHBORS i = Some n" by auto
  with assms(2,3) show ?thesis by (simp add: room_grid_cell room_cell_def)
qed

end
