(* ===== verification/Transition.thy ===== *)
theory Transition
  imports Generation
begin

text \<open>
  \<open>try_room_transition\<close> (\<open>src/main.py\<close> lines 585--640): the four door blocks in
  the order north, south, east, west; the first door the player's box meets ends the
  call, moving the player through it when \<open>NEIGHBORS\<close> names a room that way.  The
  player is placed beside the opposite door of the new room, read from
  \<open>room_doors[t]\<close>, which raises KeyError when that room has no such door; an east
  or west move into the final room uses fixed coordinates instead.  The state the
  function changes, \<open>current_room\<close> and the player, is returned.
\<close>

definition enter_room :: "(dir \<rightharpoonup> rect) list \<Rightarrow> dir \<Rightarrow> nat \<Rightarrow> player \<Rightarrow> player result" where
  "enter_room rd d t p =
     (case d of
        North \<Rightarrow> r_bind (py_nth rd t) (\<lambda>ds. r_bind (py_lookup ds South) (\<lambda>r.
                   Inr (p\<lparr>px := of_int (centerx r - pwidth p div 2), py := of_int (ry r - pheight p - 4)\<rparr>)))
      | South \<Rightarrow> r_bind (py_nth rd t) (\<lambda>ds. r_bind (py_lookup ds North) (\<lambda>r.
                   Inr (p\<lparr>px := of_int (centerx r - pwidth p div 2), py := of_int (rect_bottom r + 4)\<rparr>)))
      | East \<Rightarrow>
          if t = FINAL_ROOM_INDEX then Inr (p\<lparr>px := of_int (TILE * 3), py := of_int (TILE * 3)\<rparr>)
          else r_bind (py_nth rd t) (\<lambda>ds. r_bind (py_lookup ds West) (\<lambda>r.
                 Inr (p\<lparr>px := of_int (rect_right r + 4), py := of_int (centery r - pheight p div 2)\<rparr>)))
      | West \<Rightarrow>
          if t = FINAL_ROOM_INDEX then Inr (p\<lparr>px := of_int (TILE * (int ROOM_W - 4)), py := of_int (TILE * 3)\<rparr>)
          else r_bind (py_nth rd t) (\<lambda>ds. r_bind (py_lookup ds East) (\<lambda>r.
                 Inr (p\<lparr>px := of_int (rx r - pwidth p - 4), py := of_int (centery r - pheight p div 2)\<rparr>))))"

fun try_doors ::
  "(dir \<rightharpoonup> rect) list \<Rightarrow> (dir \<rightharpoonup> rect) \<Rightarrow> nat \<Rightarrow> player \<Rightarrow> dir list \<Rightarrow> (nat \<times> player) result" where
  "try_doors rd doors cur p [] = Inr (cur, p)"
| "try_doors rd doors cur p (d # ds) =
     (case doors d of
        Some r \<Rightarrow>
          if colliderect (player_rect p) r then
            r_bind (py_lookup NEIGHBORS cur) (\<lambda>n.
              case n d of
                None \<Rightarrow> Inr (cur, p)
              | Some t \<Rightarrow> r_bind (enter_room rd d t p) (\<lambda>p'. Inr (t, p')))
          else try_doors rd doors cur p ds
      | None \<Rightarrow> try_doors rd doors cur p ds)"

definition try_room_transition :: "(dir \<rightharpoonup> rect) list \<Rightarrow> nat \<Rightarrow> player \<Rightarrow> (nat \<times> player) result" where
  "try_room_transition rd cur p =
     r_bind (py_nth rd cur) (\<lambda>doors. try_doors rd doors cur p [North, South, East, West])"

declare enter_room_def [model_defs] try_doors.simps [model_defs] try_room_transition_def [model_defs]

subsection \<open>The door the player goes through\<close>

definition touches :: "(dir \<rightharpoonup> rect) \<Rightarrow> player \<Rightarrow> dir \<Rightarrow> bool" where
  "touches doors p d = (case doors d of Some r \<Rightarrow> colliderect (player_rect p) r | None \<Rightarrow> False)"

definition touched_door :: "(dir \<rightharpoonup> rect) \<Rightarrow> player \<Rightarrow> dir option" where
  "touched_door doors p = find (touches doors p) [North, South, East, West]"

lemma try_doors_find:
  "try_doors rd doors cur p ds =
     (case find (touches doors p) ds of
        None \<Rightarrow> Inr (cur, p)
      | Some d \<Rightarrow> r_bind (py_lookup NEIGHBORS cur) (\<lambda>n.
          case n d of None \<Rightarrow> Inr (cur, p) | Some t \<Rightarrow> r_bind (enter_room rd d t p) (\<lambda>p'. Inr (t, p'))))"
  by (induction ds) (auto simp: touches_def split: option.split)

lemma touched_door_present:
  assumes "touched_door doors p = Some d"
  shows "\<exists>r. doors d = Some r \<and> colliderect (player_rect p) r"
proof -
  from assms have "touches doors p d" unfolding touched_door_def by (rule find_SomeD)
  then show ?thesis by (auto simp: touches_def split: option.splits)
qed

text \<open>The static door tables of the rooms, indexed as \<open>room_doors\<close> is.\<close>

lemma nth_room_doors [simp]:
  "t < ROOM_COUNT \<Longrightarrow> py_nth (map room_doors [0..<ROOM_COUNT]) t = Inr (room_doors t)"
  by (simp del: game_consts)

text \<open>
  Reference side of the move into room \<open>t\<close> through door \<open>d\<close>: whether the new room
  lacks the door \<open>room_doors[t]\<close> is asked for, and where the player lands; the
  coordinates are those of the door rectangles of \<open>make_static_room\<close>.
\<close>

definition entry_fails :: "dir \<Rightarrow> nat \<Rightarrow> bool" where
  "entry_fails d t =
     (case NEIGHBORS t of
        None \<Rightarrow> True
      | Some m \<Rightarrow> m (opposite d) = None \<and> \<not> ((d = East \<or> d = West) \<and> t = FINAL_ROOM_INDEX))"

definition arrival :: "dir \<Rightarrow> nat \<Rightarrow> int \<Rightarrow> int \<Rightarrow> int \<times> int" where
  "arrival d t w h =
     (case d of
        North \<Rightarrow> (384 - w div 2, 540 - h)
      | South \<Rightarrow> (384 - w div 2, 36)
      | East \<Rightarrow> if t = FINAL_ROOM_INDEX then (96, 96) else (36, 288 - h div 2)
      | West \<Rightarrow> if t = FINAL_ROOM_INDEX then (672, 96) else (764 - w, 288 - h div 2))"

definition arrival_cells :: "dir \<Rightarrow> nat \<Rightarrow> (nat \<times> nat) list" where
  "arrival_cells d t =
     (case d of
        North \<Rightarrow> [(11, 15), (12, 15), (11, 16), (12, 16)]
      | South \<Rightarrow> [(11, 1), (12, 1), (11, 2), (12, 2)]
      | East \<Rightarrow> if t = FINAL_ROOM_INDEX then [(3, 3)] else [(1, 8), (2, 8), (1, 9), (2, 9)]
      | West \<Rightarrow> if t = FINAL_ROOM_INDEX then [(21, 3)] else [(22, 8), (23, 8), (22, 9), (23, 9)])"

lemma room_table:
  "list_all (\<lambda>cur. case NEIGHBORS cur of None \<Rightarrow> True | Some n \<Rightarrow>
     list_all (\<lambda>d. case n d of None \<Rightarrow> True | Some t \<Rightarrow>
       t \<noteq> cur \<and> (entry_fails d t \<longleftrightarrow> (cur, d) = (5, East) \<or> (cur, d) = (8, North)) \<and>
       list_all (\<lambda>(x, y). interior x y \<and> (x, y) \<notin> set (EXTRA_WALLS t)) (arrival_cells d t)) all_dirs) [0..<ROOM_COUNT]"
  by code_simp

lemma room_table_at:
  assumes "NEIGHBORS cur = Some n" and "n d = Some t"
  shows "t \<noteq> cur \<and> (entry_fails d t \<longleftrightarrow> (cur, d) = (5, East) \<or> (cur, d) = (8, North)) \<and>
    (\<forall>(x, y) \<in> set (arrival_cells d t). interior x y \<and> (x, y) \<notin> set (EXTRA_WALLS t))"
proof -
  from assms(1) NEIGHBORS_dom have "cur \<in> set [0..<ROOM_COUNT]" by auto
  with room_table have "case NEIGHBORS cur of None \<Rightarrow> True | Some n \<Rightarrow>
     list_all (\<lambda>d. case n d of None \<Rightarrow> True | Some t \<Rightarrow>
       t \<noteq> cur \<and> (entry_fails d t \<longleftrightarrow> (cur, d) = (5, East) \<or> (cur, d) = (8, North)) \<and>
       list_all (\<lambda>(x, y). interior x y \<and> (x, y) \<notin> set (EXTRA_WALLS t)) (arrival_cells d t)) all_dirs"
    unfolding list_all_iff by (rule bspec)
  with assms(1) have "list_all (\<lambda>d. case n d of None \<Rightarrow> True | Some t \<Rightarrow>
       t \<noteq> cur \<and> (entry_fails d t \<longleftrightarrow> (cur, d) = (5, East) \<or> (cur, d) = (8, North)) \<and>
       list_all (\<lambda>(x, y). interior x y \<and> (x, y) \<notin> set (EXTRA_WALLS t)) (arrival_cells d t)) all_dirs"
    by simp
  then have "case n d of None \<Rightarrow> True | Some t \<Rightarrow>
       t \<noteq> cur \<and> (entry_fails d t \<longleftrightarrow> (cur, d) = (5, East) \<or> (cur, d) = (8, North)) \<and>
       list_all (\<lambda>(x, y). interior x y \<and> (x, y) \<notin> set (EXTRA_WALLS t)) (arrival_cells d t)"
    unfolding list_all_iff using all_dirs_complete by (rule bspec)
  with assms(2) show ?thesis by (simp add: list_all_iff)
qed

lemma final_room_no_doors:
  "NEIGHBORS FINAL_ROOM_INDEX = Some m \<Longrightarrow> m d = None"
  by (cases d) (auto simp: NEIGHBORS_def neighbor_rows_def nbrs_def FINAL_ROOM_INDEX_def)

lemma enter_room_static:
  assumes "t < ROOM_COUNT"
  shows "enter_room (map room_doors [0..<ROOM_COUNT]) d t p =
    (if entry_fails d t then Inl KeyError
     else Inr (p\<lparr>px := of_int (fst (arrival d t (pwidth p) (pheight p))),
                 py := of_int (snd (arrival d t (pwidth p) (pheight p)))\<rparr>))"
proof -
  from assms NEIGHBORS_dom obtain m where m: "NEIGHBORS t = Some m" by auto
  then have "room_doors t = door_map m" by (rule room_doors_eq)
  with assms m show ?thesis
    by (cases d) (auto simp: enter_room_def entry_fails_def arrival_def door_map_def door_rect_def
        opposite_def centerx_def centery_def rect_right_def rect_bottom_def ROOM_W_val ROOM_H_val)
qed

lemma touched_static:
  assumes "NEIGHBORS cur = Some n" and "touched_door (room_doors cur) p = Some d"
  shows "\<exists>t. n d = Some t"
proof -
  from touched_door_present [OF assms(2)] obtain r where "room_doors cur d = Some r" by blast
  with room_doors_eq [OF assms(1)] show ?thesis by (auto simp: door_map_def split: if_splits)
qed

lemma transition_static:
  assumes "NEIGHBORS cur = Some n"
  shows "try_room_transition (map room_doors [0..<ROOM_COUNT]) cur p =
    (case touched_door (room_doors cur) p of
       None \<Rightarrow> Inr (cur, p)
     | Some d \<Rightarrow> (case n d of
         None \<Rightarrow> Inr (cur, p)
       | Some t \<Rightarrow> if entry_fails d t then Inl KeyError
                  else Inr (t, p\<lparr>px := of_int (fst (arrival d t (pwidth p) (pheight p))),
                                  py := of_int (snd (arrival d t (pwidth p) (pheight p)))\<rparr>)))"
proof -
  from assms NEIGHBORS_dom have cur: "cur < ROOM_COUNT" by auto
  have t: "n d = Some t \<Longrightarrow> t < ROOM_COUNT" for d t by (rule NEIGHBORS_target_range [OF assms])
  show ?thesis
    using cur assms t
    by (auto simp: try_room_transition_def try_doors_find touched_door_def enter_room_static
        split: option.split simp del: game_consts)
qed

subsection \<open>Where the player lands\<close>

text \<open>
  A landing box is clear when it meets no wall tile and no door of the new room and
  lies on the screen: the next \<open>Player.move\<close> is not blocked at once, and the next
  frame's \<open>try_room_transition\<close> does not send the player back.
\<close>

definition lands_clear :: "grid \<Rightarrow> (dir \<rightharpoonup> rect) \<Rightarrow> rect \<Rightarrow> bool" where
  "lands_clear g doors r \<longleftrightarrow>
     list_all (\<lambda>(wx, wy). \<not> colliderect r (Rect wx wy TILE TILE)) (list_walls g) \<and>
     list_all (\<lambda>d. case doors d of None \<Rightarrow> True | Some dr \<Rightarrow> \<not> colliderect r dr) all_dirs \<and>
     0 \<le> rx r \<and> rect_right r \<le> SCREEN_WIDTH \<and> 0 \<le> ry r \<and> rect_bottom r \<le> SCREEN_HEIGHT"

lemma half_bounds: "0 < w \<Longrightarrow> w \<le> (32::int) \<Longrightarrow> 0 \<le> w div 2 \<and> w div 2 \<le> 16 \<and> w - w div 2 \<le> 16 \<and> w div 2 < w"
  by presburger

lemma door_rect_pos: "0 < rw (door_rect d) \<and> 0 < rh (door_rect d)"
  by (cases d) (simp_all add: door_rect_def)

lemma arrival_door:
  assumes "0 < w" "w \<le> 32" "0 < h" "h \<le> 32"
  shows "\<not> colliderect (Rect (fst (arrival d t w h)) (snd (arrival d t w h)) w h) (door_rect d')"
proof -
  have "0 \<le> w div 2 \<and> w div 2 \<le> 16 \<and> w - w div 2 \<le> 16 \<and> w div 2 < w"
    and "0 \<le> h div 2 \<and> h div 2 \<le> 16 \<and> h - h div 2 \<le> 16 \<and> h div 2 < h"
    using assms half_bounds by blast+
  moreover have "colliderect (Rect X Y w h) (door_rect d') \<longleftrightarrow>
      X < rx (door_rect d') + rw (door_rect d') \<and> Y < ry (door_rect d') + rh (door_rect d') \<and>
      rx (door_rect d') < X + w \<and> ry (door_rect d') < Y + h" for X Y
    using assms door_rect_pos [of d'] by (simp add: colliderect_pos)
  ultimately show ?thesis
    by (cases d; cases d'; cases "t = FINAL_ROOM_INDEX")
      (simp_all add: arrival_def door_rect_def ROOM_W_val ROOM_H_val)
qed

lemma arrival_on_screen:
  assumes "0 < w" "w \<le> 32" "0 < h" "h \<le> 32"
  shows "0 \<le> fst (arrival d t w h) \<and> fst (arrival d t w h) + w \<le> 800 \<and>
         0 \<le> snd (arrival d t w h) \<and> snd (arrival d t w h) + h \<le> 576"
proof -
  have "0 \<le> w div 2 \<and> w div 2 \<le> 16 \<and> w - w div 2 \<le> 16 \<and> w div 2 < w"
    and "0 \<le> h div 2 \<and> h div 2 \<le> 16 \<and> h - h div 2 \<le> 16 \<and> h div 2 < h"
    using assms half_bounds by blast+
  with assms show ?thesis by (cases d) (simp_all add: arrival_def)
qed

lemma arrival_hit:
  assumes "0 < w" "w \<le> 32" "0 < h" "h \<le> 32"
    and "colliderect (Rect (fst (arrival d t w h)) (snd (arrival d t w h)) w h)
           (Rect (int x * 32) (int y * 32) 32 32)"
  shows "(x, y) \<in> set (arrival_cells d t)"
proof -
  have hw: "0 \<le> w div 2 \<and> w div 2 \<le> 16 \<and> w - w div 2 \<le> 16 \<and> w div 2 < w"
    and hh: "0 \<le> h div 2 \<and> h div 2 \<le> 16 \<and> h - h div 2 \<le> 16 \<and> h div 2 < h"
    using assms half_bounds by blast+
  have c: "fst (arrival d t w h) < int x * 32 + 32 \<and> snd (arrival d t w h) < int y * 32 + 32 \<and>
      int x * 32 < fst (arrival d t w h) + w \<and> int y * 32 < snd (arrival d t w h) + h"
    using assms by (simp add: colliderect_Rect_pos)
  consider "d = North" | "d = South" | "d = East" "t = FINAL_ROOM_INDEX" | "d = East" "t \<noteq> FINAL_ROOM_INDEX"
    | "d = West" "t = FINAL_ROOM_INDEX" | "d = West" "t \<noteq> FINAL_ROOM_INDEX"
    by (cases d) auto
  then show ?thesis
  proof cases
    case 1
    with c hw assms have "11 \<le> x \<and> x \<le> 12 \<and> 15 \<le> y \<and> y \<le> 16" by (simp add: arrival_def)
    with 1 show ?thesis by (auto simp: arrival_cells_def)
  next
    case 2
    with c hw assms have "11 \<le> x \<and> x \<le> 12 \<and> 1 \<le> y \<and> y \<le> 2" by (simp add: arrival_def)
    with 2 show ?thesis by (auto simp: arrival_cells_def)
  next
    case 3
    with c assms have "x = 3 \<and> y = 3" by (simp add: arrival_def)
    with 3 show ?thesis by (simp add: arrival_cells_def)
  next
    case 4
    with c hh assms have "1 \<le> x \<and> x \<le> 2 \<and> 8 \<le> y \<and> y \<le> 9" by (simp add: arrival_def)
    with 4 show ?thesis by (auto simp: arrival_cells_def)
  next
    case 5
    with c assms have "x = 21 \<and> y = 3" by (simp add: arrival_def)
    with 5 show ?thesis by (simp add: arrival_cells_def)
  next
    case 6
    with c hh assms have "22 \<le> x \<and> x \<le> 23 \<and> 8 \<le> y \<and> y \<le> 9" by (simp add: arrival_def)
    with 6 show ?thesis by (auto simp: arrival_cells_def)
  qed
qed
lemma room_cell_floor: "interior x y \<Longrightarrow> (x, y) \<notin> set ws \<Longrightarrow> room_cell n ws x y = 0"
  by (simp add: room_cell_def)

lemma arrival_clear:
  assumes "NEIGHBORS cur = Some n" and "n d = Some t"
    and "0 < w" "w \<le> 32" "0 < h" "h \<le> 32"
  shows "lands_clear (room_grid t) (room_doors t)
           (Rect (fst (arrival d t w h)) (snd (arrival d t w h)) w h)"
proof -
  from NEIGHBORS_target_range [OF assms(1,2)] NEIGHBORS_dom obtain m where m: "NEIGHBORS t = Some m"
    by auto
  have cells: "\<forall>(x, y) \<in> set (arrival_cells d t). interior x y \<and> (x, y) \<notin> set (EXTRA_WALLS t)"
    using room_table_at [OF assms(1,2)] by blast
  have walls: "\<not> colliderect (Rect (fst (arrival d t w h)) (snd (arrival d t w h)) w h)
                 (Rect (int x * 32) (int y * 32) 32 32)"
    if "x < ROOM_W" "y < ROOM_H" "cell (room_grid t) x y = 1" for x y
  proof
    assume "colliderect (Rect (fst (arrival d t w h)) (snd (arrival d t w h)) w h)
              (Rect (int x * 32) (int y * 32) 32 32)"
    with assms(3-6) have "(x, y) \<in> set (arrival_cells d t)" by (rule arrival_hit)
    with cells have "cell (room_grid t) x y = 0"
      using room_grid_cell [OF m that(1,2)] room_cell_floor by fastforce
    with that(3) show False by simp
  qed
  show ?thesis
    unfolding lands_clear_def
    using walls arrival_door [OF assms(3-6)] arrival_on_screen [OF assms(3-6)]
    by (auto simp: list_all_iff list_walls_iff room_doors_eq [OF m] door_map_def
        rect_right_def rect_bottom_def split: option.split)
qed

lemma static_rooms:
  assumes "build_rooms = Inr (gs, rd)" and "t < ROOM_COUNT"
  shows "rd = map room_doors [0..<ROOM_COUNT]" and "rd ! t = room_doors t" and "gs ! t = room_grid t"
proof -
  have "(gs, rd) = (map room_grid [0..<ROOM_COUNT], map room_doors [0..<ROOM_COUNT])"
    using assms(1) build_rooms_eq by (metis sum.inject(2))
  with assms(2) show "rd = map room_doors [0..<ROOM_COUNT]" and "rd ! t = room_doors t"
    and "gs ! t = room_grid t" by simp_all
qed

subsection \<open>Properties of room transitions\<close>

text \<open>
  C1: in the dungeon \<open>generate_static_dungeon\<close> builds, \<open>try_room_transition\<close> raises
  an exception exactly when the first door the player touches is room 5's east door or
  room 8's north door (the two edges of \<open>NEIGHBORS\<close> without a way back), and the
  exception is KeyError; every other call returns.
\<close>

theorem transition_KeyError:
  assumes "build_rooms = Inr (gs, rd)" and "cur < ROOM_COUNT"
  shows "try_room_transition rd cur p = Inl e \<longleftrightarrow>
           e = KeyError \<and> (cur = 5 \<and> touched_door (rd ! cur) p = Some East \<or>
                           cur = 8 \<and> touched_door (rd ! cur) p = Some North)"
proof -
  from assms(2) NEIGHBORS_dom obtain n where n: "NEIGHBORS cur = Some n" by auto
  note rd = static_rooms [OF assms]
  show ?thesis
  proof (cases "touched_door (room_doors cur) p")
    case None
    then show ?thesis
      unfolding rd(2) unfolding rd(1) by (simp add: transition_static [OF n] del: game_consts)
  next
    case (Some d)
    with touched_static [OF n] obtain t where t: "n d = Some t" by blast
    with room_table_at [OF n t] Some show ?thesis
      unfolding rd(2) unfolding rd(1) by (auto simp: transition_static [OF n] simp del: game_consts)
  qed
qed

theorem transition_KeyError_witness:
  "build_rooms = Inr (map room_grid [0..<ROOM_COUNT], map room_doors [0..<ROOM_COUNT]) \<and>
   (5::nat) < ROOM_COUNT \<and>
   try_room_transition (map room_doors [0..<ROOM_COUNT]) 5
     ((new_player sample_assets)\<lparr>px := 770, py := 260\<rparr>) = Inl KeyError"
proof -
  let ?p = "(new_player sample_assets)\<lparr>px := 770, py := 260\<rparr>"
  obtain n where n: "NEIGHBORS 5 = Some n" using NEIGHBORS_dom [of 5] by auto
  then have nv: "n North = Some 4" "n South = None" "n East = Some 8"
    by (auto simp: NEIGHBORS_def neighbor_rows_def nbrs_def)
  have "touched_door (map room_doors [0..<ROOM_COUNT] ! 5) ?p = Some East"
    by (simp add: room_doors_eq [OF n] nv touched_door_def touches_def door_map_def door_rect_def
        colliderect_def player_rect_def new_player_def sample_assets_def ROOM_W_val ROOM_H_val)
  with transition_KeyError [OF build_rooms_eq, of 5 ?p KeyError] show ?thesis
    by (simp add: build_rooms_eq)
qed

text \<open>
  C4: a room change places a player of at most one tile on the new room's floor, on
  the screen, clear of every wall tile and of every door of that room (so the move is
  not undone and the player is not bounced back the next frame); the move changes
  only the player's position.  Otherwise the call changes nothing.
\<close>

theorem transition_lands_clear:
  assumes "build_rooms = Inr (gs, rd)" and "cur < ROOM_COUNT"
    and "0 < pwidth p" "pwidth p \<le> TILE" "0 < pheight p" "pheight p \<le> TILE"
    and "try_room_transition rd cur p = Inr (t, p')"
  shows "(t, p') = (cur, p) \<or>
         t \<noteq> cur \<and> t < ROOM_COUNT \<and> (\<exists>x y. p' = p\<lparr>px := x, py := y\<rparr>) \<and>
         lands_clear (gs ! t) (rd ! t) (player_rect p')"
proof (cases "touched_door (room_doors cur) p")
  case None
  from assms(2) NEIGHBORS_dom obtain n where n: "NEIGHBORS cur = Some n" by auto
  with None assms(7) show ?thesis
    by (simp add: static_rooms [OF assms(1,2)] transition_static [OF n] del: game_consts)
next
  case (Some d)
  from assms(2) NEIGHBORS_dom obtain n where n: "NEIGHBORS cur = Some n" by auto
  with touched_static Some obtain t0 where t0: "n d = Some t0" by blast
  let ?a = "arrival d t0 (pwidth p) (pheight p)"
  from assms(7) Some t0 have t: "t = t0" and ok: "\<not> entry_fails d t0"
    and p': "p' = p\<lparr>px := of_int (fst ?a), py := of_int (snd ?a)\<rparr>"
    by (auto simp: static_rooms [OF assms(1,2)] transition_static [OF n] split: if_splits
        simp del: game_consts)
  have t0r: "t0 < ROOM_COUNT" by (rule NEIGHBORS_target_range [OF n t0])
  have "player_rect p' = Rect (fst ?a) (snd ?a) (pwidth p) (pheight p)"
    by (simp add: p' player_rect_def)
  with arrival_clear [OF n t0] assms(3-6) room_table_at [OF n t0] t0r
  show ?thesis by (auto simp: t p' static_rooms [OF assms(1) t0r])
qed

theorem transition_lands_clear_witness:
  "build_rooms = Inr (map room_grid [0..<ROOM_COUNT], map room_doors [0..<ROOM_COUNT]) \<and>
   (4::nat) < ROOM_COUNT \<and>
   try_room_transition (map room_doors [0..<ROOM_COUNT]) 4
     ((new_player sample_assets)\<lparr>px := 770, py := 260\<rparr>) =
     Inr (7, (new_player sample_assets)\<lparr>px := 36, py := 272\<rparr>) \<and>
   lands_clear (room_grid 7) (room_doors 7) (Rect 36 272 32 32)"
proof -
  let ?p = "(new_player sample_assets)\<lparr>px := 770, py := 260\<rparr>"
  obtain n where n: "NEIGHBORS 4 = Some n" using NEIGHBORS_dom [of 4] by auto
  then have nv: "n North = Some 1" "n South = Some 5" "n East = Some 7"
    by (auto simp: NEIGHBORS_def neighbor_rows_def nbrs_def)
  have e: "\<not> entry_fails East 7"
    by (simp add: entry_fails_def NEIGHBORS_def neighbor_rows_def nbrs_def opposite_def)
  have td: "touched_door (room_doors 4) ?p = Some East"
    by (simp add: room_doors_eq [OF n] nv touched_door_def touches_def door_map_def door_rect_def
        colliderect_def player_rect_def new_player_def sample_assets_def ROOM_W_val ROOM_H_val)
  have tr: "try_room_transition (map room_doors [0..<ROOM_COUNT]) 4 ?p =
     Inr (7, (new_player sample_assets)\<lparr>px := 36, py := 272\<rparr>)"
    unfolding transition_static [OF n] td
    by (simp add: nv e arrival_def new_player_def sample_assets_def)
  have "player_rect ((new_player sample_assets)\<lparr>px := 36, py := 272\<rparr>) = Rect 36 272 32 32"
    by (simp add: player_rect_def new_player_def sample_assets_def)
  moreover have "map room_grid [0..<ROOM_COUNT] ! 7 = room_grid 7"
    and "map room_doors [0..<ROOM_COUNT] ! 7 = room_doors 7"
    and "(4::nat) < ROOM_COUNT" and "(32::int) \<le> TILE" by simp_all
  ultimately show ?thesis
    using transition_lands_clear [OF build_rooms_eq _ _ _ _ _ tr] tr
    by (simp add: build_rooms_eq new_player_def sample_assets_def del: game_consts)
qed

end
