(* ===== verification/Py_Random.thy ===== *)
theory Py_Random
  imports Prelude
begin

text \<open>
  Python's \<open>random\<close> module as the game uses it (\<open>random.randint\<close> and
  \<open>random.choice\<close>).  The library is not part of the repository; it is modelled
  from its documented contract as an explicit source of draws: a sequence of natural
  numbers and the position of the next one.  \<open>randint(a, b)\<close> maps one draw into
  \<open>[a, b]\<close>, \<open>choice(xs)\<close> one draw to an index of \<open>xs\<close>.  Every theorem about the
  game's generation holds for every such sequence, so for every seed of the real
  generator.
\<close>

record rng =
  draws :: "nat \<Rightarrow> nat"
  rpos :: nat

definition advance :: "rng \<Rightarrow> nat \<Rightarrow> rng" where
  "advance r n = r\<lparr>rpos := rpos r + n\<rparr>"

definition randint :: "int \<Rightarrow> int \<Rightarrow> rng \<Rightarrow> int \<times> rng" where
  "randint a b r = (a + int (draws r (rpos r)) mod (b - a + 1), advance r 1)"

definition choice :: "'a list \<Rightarrow> rng \<Rightarrow> 'a \<times> rng" where
  \<comment> \<open>the game chooses from non-empty constant lists only\<close>
  "choice xs r = (xs ! (draws r (rpos r) mod length xs), advance r 1)"

declare advance_def [model_defs] randint_def [model_defs] choice_def [model_defs]

lemma advance_advance [simp]: "advance (advance r m) n = advance r (m + n)"
  by (simp add: advance_def)

lemma advance_two [simp]: "advance r (Suc (Suc 0)) = advance r 2"
  by (simp add: numeral_2_eq_2)

lemma advance_0 [simp]: "advance r 0 = r"
  by (simp add: advance_def)

lemma draws_advance [simp]: "draws (advance r n) = draws r"
  by (simp add: advance_def)

lemma rpos_advance [simp]: "rpos (advance r n) = rpos r + n"
  by (simp add: advance_def)

lemma randint_range:
  assumes "a \<le> b"
  shows "a \<le> fst (randint a b r) \<and> fst (randint a b r) \<le> b"
proof -
  from assms have "0 < b - a + 1" by simp
  then have lo: "0 \<le> int (draws r (rpos r)) mod (b - a + 1)"
    and hi: "int (draws r (rpos r)) mod (b - a + 1) < b - a + 1"
    by (rule pos_mod_sign, rule pos_mod_bound)
  show ?thesis unfolding randint_def fst_conv using lo hi by linarith
qed

lemma randint_rng [simp]: "snd (randint a b r) = advance r 1"
  by (simp add: randint_def)

lemma choice_mem: "xs \<noteq> [] \<Longrightarrow> fst (choice xs r) \<in> set xs"
  by (simp add: choice_def)

lemma choice_rng [simp]: "snd (choice xs r) = advance r 1"
  by (simp add: choice_def)

end
