(* ===== verification/Population.thy ===== *)
theory Population
  imports Generation Py_Random "HOL-Library.Monad_Syntax"
begin

text \<open>
  The second loop of \<open>generate_static_dungeon\<close> (\<open>src/main.py\<close> lines 220--266):
  \<open>random_free\<close> draws tile coordinates until it finds a floor tile whose box meets
  nothing placed so far; each room then receives \<open>randint(enemy_min, enemy_max)\<close>
  enemies of a random kind of the room's list and, unless it is the final room,
  \<open>randint(1, 3)\<close> chests of \<open>randint(1, 3)\<close> random items each.  \<open>random_free\<close>
  has no bound on its number of draws, so it is a \<open>partial_function (option)\<close>:
  \<open>None\<close> is the loop that never returns, and whether it returns is a theorem
  (\<open>random_free_returns_iff\<close>); for a source that repeats one value it does not
  return for the second enemy of any room (\<open>populate_room_const_draws\<close>).
\<close>

subsection \<open>\<open>random_free\<close>\<close>

definition free_spot :: "grid \<Rightarrow> rect list \<Rightarrow> int \<Rightarrow> int \<Rightarrow> bool" where
  \<comment> \<open>the two \<open>continue\<close> guards of the loop, negated\<close>
  "free_spot g placed gx gy \<longleftrightarrow>
     cell g (nat gx) (nat gy) \<noteq> 1 \<and>
     \<not> list_ex (colliderect (Rect (gx * TILE) (gy * TILE) TILE TILE)) placed"

partial_function (option) random_free ::
  "grid \<Rightarrow> rect list \<Rightarrow> rng \<Rightarrow> ((int \<times> int) \<times> rng) option" where
  "random_free g placed r =
     (let (gx, r1) = randint 1 (int ROOM_W - 2) r;
          (gy, r2) = randint 1 (int ROOM_H - 2) r1
      in if cell g (nat gx) (nat gy) = 1 then random_free g placed r2
         else if list_ex (colliderect (Rect (gx * TILE) (gy * TILE) TILE TILE)) placed
         then random_free g placed r2
         else Some ((gx * TILE, gy * TILE), r2))"

subsection \<open>Placing enemies and chests\<close>

primrec repeat_opt :: "nat \<Rightarrow> ('s \<Rightarrow> 's option) \<Rightarrow> 's \<Rightarrow> 's option" where
  \<comment> \<open>\<open>for _ in range(n): body\<close>, a body that may not return\<close>
  "repeat_opt 0 f s = Some s"
| "repeat_opt (Suc n) f s = f s \<bind> repeat_opt n f"

primrec choices :: "'a list \<Rightarrow> nat \<Rightarrow> rng \<Rightarrow> 'a list \<times> rng" where
  \<comment> \<open>\<open>[random.choice(xs) for _ in range(n)]\<close>\<close>
  "choices xs 0 r = ([], r)"
| "choices xs (Suc n) r = (let (x, r1) = choice xs r; (ys, r2) = choices xs n r1 in (x # ys, r2))"

type_synonym room_entities = "(int \<times> int) list \<times> enemy list \<times> chest list"

definition place_enemy ::
  "assets \<Rightarrow> grid \<Rightarrow> enemy_kind list \<Rightarrow> enemy list \<times> rect list \<times> rng \<Rightarrow>
   (enemy list \<times> rect list \<times> rng) option" where
  "place_enemy a g kinds st =
     (let (es, placed, r) = st in
      do {
        ((x, y), r1) \<leftarrow> random_free g placed r;
        let (k, r2) = choice kinds r1;
        let e = new_enemy a x y k;
        Some (es @ [e], placed @ [enemy_rect e], r2)
      })"

definition place_chest ::
  "assets \<Rightarrow> grid \<Rightarrow> chest list \<times> rect list \<times> rng \<Rightarrow> (chest list \<times> rect list \<times> rng) option" where
  "place_chest a g st =
     (let (cs, placed, r) = st in
      do {
        ((x, y), r1) \<leftarrow> random_free g placed r;
        let (n, r2) = randint 1 3 r1;
        let (its, r3) = choices ITEM_ORDER (nat n) r2;
        let c = new_chest a x y its;
        Some (cs @ [c], placed @ [crect c], r3)
      })"

definition populate_room :: "assets \<Rightarrow> nat \<Rightarrow> grid \<Rightarrow> rng \<Rightarrow> (room_entities \<times> rng) option" where
  "populate_room a i g r =
     (let cfg = ROOM_CONFIG i;
          walls = list_walls g;
          placed = map (\<lambda>(wx, wy). Rect wx wy TILE TILE) walls;
          (n, r1) = randint (int (enemy_min cfg)) (int (enemy_max cfg)) r
      in do {
           (es, placed', r2) \<leftarrow> repeat_opt (nat n) (place_enemy a g (enemy_types cfg)) ([], placed, r1);
           if no_chests cfg then Some ((walls, es, []), r2)
           else
             (let (m, r3) = randint 1 3 r2 in
              do {
                (cs, _, r4) \<leftarrow> repeat_opt (nat m) (place_chest a g) ([], placed', r3);
                Some ((walls, es, cs), r4)
              })
         })"

definition populate_rooms :: "assets \<Rightarrow> grid list \<Rightarrow> rng \<Rightarrow> (room_entities list \<times> rng) option" where
  \<comment> \<open>\<open>for i in range(ROOM_COUNT): ... room_data.append((walls, enemies, chests))\<close>\<close>
  "populate_rooms a gs r =
     fold (\<lambda>i acc. acc \<bind> (\<lambda>(rd, r). populate_room a i (gs ! i) r \<bind> (\<lambda>(d, r'). Some (rd @ [d], r'))))
       [0..<ROOM_COUNT] (Some ([], r))"

definition generate_static_dungeon ::
  "assets \<Rightarrow> rng \<Rightarrow> ((grid list \<times> (dir \<rightharpoonup> rect) list \<times> room_entities list) \<times> rng) result option" where
  "generate_static_dungeon a r =
     (case build_rooms of
        Inl err \<Rightarrow> Some (Inl err)
      | Inr (gs, ds) \<Rightarrow> map_option (\<lambda>(rd, r'). Inr ((gs, ds, rd), r')) (populate_rooms a gs r))"

declare random_free.simps [code]

declare free_spot_def [model_defs] random_free.simps [model_defs] repeat_opt.simps [model_defs]
  choices.simps [model_defs] place_enemy_def [model_defs] place_chest_def [model_defs]
  populate_room_def [model_defs] populate_rooms_def [model_defs]
  generate_static_dungeon_def [model_defs]

subsection \<open>What \<open>random_free\<close> returns\<close>

text \<open>The \<open>k\<close>-th pair of draws of \<open>random_free\<close> from the source \<open>r\<close>.\<close>

definition spot :: "rng \<Rightarrow> nat \<Rightarrow> int \<times> int" where
  "spot r k = (fst (randint 1 (int ROOM_W - 2) (advance r (2 * k))),
               fst (randint 1 (int ROOM_H - 2) (advance r (2 * k + 1))))"

text \<open>Where \<open>generate_static_dungeon\<close> may put an entity: a tile corner clear of \<open>placed\<close>.\<close>

definition spawn_clear :: "grid \<Rightarrow> rect list \<Rightarrow> int \<Rightarrow> int \<Rightarrow> bool" where
  "spawn_clear g placed x y \<longleftrightarrow>
     x mod TILE = 0 \<and> y mod TILE = 0 \<and> TILE \<le> x \<and> x \<le> TILE * (int ROOM_W - 2) \<and>
     TILE \<le> y \<and> y \<le> TILE * (int ROOM_H - 2) \<and> cell g (nat (x div TILE)) (nat (y div TILE)) \<noteq> 1 \<and>
     \<not> list_ex (colliderect (Rect x y TILE TILE)) placed"

lemma spot_advance: "spot (advance r 2) k = spot r (Suc k)"
  by (simp add: spot_def algebra_simps)

lemma random_free_unfold:
  "random_free g placed r =
     (if free_spot g placed (fst (spot r 0)) (snd (spot r 0))
      then Some ((fst (spot r 0) * TILE, snd (spot r 0) * TILE), advance r 2)
      else random_free g placed (advance r 2))"
  by (subst random_free.simps)
    (simp add: spot_def free_spot_def randint_def Let_def del: game_consts)

lemma random_free_first:
  assumes "free_spot g placed (fst (spot r k)) (snd (spot r k))"
    and "\<forall>j<k. \<not> free_spot g placed (fst (spot r j)) (snd (spot r j))"
  shows "random_free g placed r =
           Some ((fst (spot r k) * TILE, snd (spot r k) * TILE), advance r (2 * k + 2))"
  using assms
proof (induction k arbitrary: r)
  case 0
  then show ?case by (subst random_free_unfold) simp
next
  case (Suc k)
  from Suc.prems(2) have "\<not> free_spot g placed (fst (spot r 0)) (snd (spot r 0))" by blast
  moreover have "random_free g placed (advance r 2) =
      Some ((fst (spot r (Suc k)) * TILE, snd (spot r (Suc k)) * TILE), advance r (2 * Suc k + 2))"
    using Suc.IH [of "advance r 2"] Suc.prems by (simp add: spot_advance)
  ultimately show ?case by (subst random_free_unfold) simp
qed

lemma random_free_found:
  assumes "random_free g placed r = Some v"
  shows "\<exists>k. free_spot g placed (fst (spot r k)) (snd (spot r k)) \<and>
    (\<forall>j<k. \<not> free_spot g placed (fst (spot r j)) (snd (spot r j))) \<and>
    v = ((fst (spot r k) * TILE, snd (spot r k) * TILE), advance r (2 * k + 2))"
proof (rule random_free.raw_induct [where P = "\<lambda>g placed r v. \<exists>k.
    free_spot g placed (fst (spot r k)) (snd (spot r k)) \<and>
    (\<forall>j<k. \<not> free_spot g placed (fst (spot r j)) (snd (spot r j))) \<and>
    v = ((fst (spot r k) * TILE, snd (spot r k) * TILE), advance r (2 * k + 2))", OF _ assms])
  fix f g placed r v
  assume IH: "\<And>g placed r v. f g placed r = Some v \<Longrightarrow> \<exists>k.
    free_spot g placed (fst (spot r k)) (snd (spot r k)) \<and>
    (\<forall>j<k. \<not> free_spot g placed (fst (spot r j)) (snd (spot r j))) \<and>
    v = ((fst (spot r k) * TILE, snd (spot r k) * TILE), advance r (2 * k + 2))"
  assume eq: "(let (gx, r1) = randint 1 (int ROOM_W - 2) r;
          (gy, r2) = randint 1 (int ROOM_H - 2) r1
      in if cell g (nat gx) (nat gy) = 1 then f g placed r2
         else if list_ex (colliderect (Rect (gx * TILE) (gy * TILE) TILE TILE)) placed
         then f g placed r2
         else Some ((gx * TILE, gy * TILE), r2)) = Some v"
  then have eq': "(if free_spot g placed (fst (spot r 0)) (snd (spot r 0))
      then Some ((fst (spot r 0) * TILE, snd (spot r 0) * TILE), advance r 2)
      else f g placed (advance r 2)) = Some v"
    by (simp add: spot_def free_spot_def randint_def Let_def split: if_splits del: game_consts)
  show "\<exists>k. free_spot g placed (fst (spot r k)) (snd (spot r k)) \<and>
    (\<forall>j<k. \<not> free_spot g placed (fst (spot r j)) (snd (spot r j))) \<and>
    v = ((fst (spot r k) * TILE, snd (spot r k) * TILE), advance r (2 * k + 2))"
  proof (cases "free_spot g placed (fst (spot r 0)) (snd (spot r 0))")
    case True
    with eq' show ?thesis by (intro exI [of _ 0]) auto
  next
    case False
    with eq' have "f g placed (advance r 2) = Some v" by simp
    from IH [OF this] obtain k where k: "free_spot g placed (fst (spot r (Suc k))) (snd (spot r (Suc k)))"
      and before: "\<forall>j<k. \<not> free_spot g placed (fst (spot r (Suc j))) (snd (spot r (Suc j)))"
      and v: "v = ((fst (spot r (Suc k)) * TILE, snd (spot r (Suc k)) * TILE), advance r (2 * Suc k + 2))"
      by (auto simp: spot_advance)
    have "\<forall>j<Suc k. \<not> free_spot g placed (fst (spot r j)) (snd (spot r j))"
      using False before by (auto simp: less_Suc_eq_0_disj)
    with k v show ?thesis by blast
  qed
qed

subsection \<open>The loops of \<open>populate_room\<close>\<close>

lemma repeat_opt_measure:
  assumes "\<And>s s'. f s = Some s' \<Longrightarrow> m s' = Suc (m s)"
    and "repeat_opt n f s = Some s'"
  shows "m s' = m s + n"
  using assms(2)
proof (induction n arbitrary: s)
  case 0
  then show ?case by simp
next
  case (Suc n)
  then obtain s1 where s1: "f s = Some s1" and "repeat_opt n f s1 = Some s'"
    by (cases "f s") auto
  with Suc.IH assms(1) [OF s1] show ?case by simp
qed

lemma repeat_opt_inv:
  assumes "\<And>s s'. P s \<Longrightarrow> f s = Some s' \<Longrightarrow> P s'"
    and "P s" and "repeat_opt n f s = Some s'"
  shows "P s'"
  using assms(2,3)
proof (induction n arbitrary: s)
  case 0
  then show ?case by simp
next
  case (Suc n)
  then obtain s1 where s1: "f s = Some s1" and "repeat_opt n f s1 = Some s'"
    by (cases "f s") auto
  with Suc.IH assms(1) [OF Suc.prems(1) s1] show ?case by simp
qed

lemma randint_eqD:
  assumes "randint a b r = (n, r')" and "a \<le> b"
  shows "a \<le> n \<and> n \<le> b"
  using randint_range [OF assms(2), of r] assms(1) by simp

lemma choice_eqD: "choice xs r = (x, r') \<Longrightarrow> xs \<noteq> [] \<Longrightarrow> x \<in> set xs"
  using choice_mem [of xs r] by simp

lemma place_enemy_Some:
  assumes "place_enemy a g ks (es, pl, r) = Some (es', pl', r')"
  shows "\<exists>e. es' = es @ [e] \<and> (ks \<noteq> [] \<longrightarrow> kind e \<in> set ks)"
  using assms choice_mem [of ks]
  by (auto simp: place_enemy_def new_enemy_def bind_eq_Some_conv split_def Let_def)

lemma length_choices [simp]: "choices xs n r = (ys, r') \<Longrightarrow> length ys = n"
  by (induction n arbitrary: r ys) (auto split: prod.splits)

lemma place_chest_Some:
  assumes "place_chest a g (cs, pl, r) = Some (cs', pl', r')"
  shows "\<exists>c. cs' = cs @ [c] \<and> 1 \<le> length (items c) \<and> length (items c) \<le> 3"
  using assms
proof -
  from assms obtain v where "random_free g pl r = Some v"
    and cs': "cs' = cs @ [new_chest a (fst (fst v)) (snd (fst v))
       (fst (choices ITEM_ORDER (nat (fst (randint 1 3 (snd v)))) (snd (randint 1 3 (snd v)))))]"
    by (auto simp: place_chest_def bind_eq_Some_conv split_def Let_def)
  moreover have "1 \<le> fst (randint 1 3 (snd v)) \<and> fst (randint 1 3 (snd v)) \<le> 3"
    by (rule randint_range) simp
  moreover have "length (fst (choices ITEM_ORDER k r0)) = k" for k r0
    using length_choices [of ITEM_ORDER k r0] by (cases "choices ITEM_ORDER k r0") simp
  ultimately show ?thesis by (auto simp: new_chest_def)
qed

lemma enemies_loop:
  assumes "repeat_opt n (place_enemy a g ks) (es, pl, r) = Some (es', pl', r')"
  shows "length es' = length es + n \<and>
    (ks \<noteq> [] \<longrightarrow> (\<forall>e\<in>set es. kind e \<in> set ks) \<longrightarrow> (\<forall>e\<in>set es'. kind e \<in> set ks))"
proof -
  have "length (fst (es', pl', r')) = length (fst (es, pl, r)) + n"
    by (rule repeat_opt_measure [OF _ assms]) (auto dest: place_enemy_Some)
  moreover have "(\<forall>e\<in>set (fst (es', pl', r')). kind e \<in> set ks)"
    if "ks \<noteq> []" and "\<forall>e\<in>set es. kind e \<in> set ks"
    by (rule repeat_opt_inv [OF _ _ assms]) (use that in \<open>auto dest!: place_enemy_Some\<close>)
  ultimately show ?thesis by simp
qed

lemma chests_loop:
  assumes "repeat_opt n (place_chest a g) (cs, pl, r) = Some (cs', pl', r')"
  shows "length cs' = length cs + n \<and>
    ((\<forall>c\<in>set cs. 1 \<le> length (items c) \<and> length (items c) \<le> 3) \<longrightarrow>
     (\<forall>c\<in>set cs'. 1 \<le> length (items c) \<and> length (items c) \<le> 3))"
proof -
  have "length (fst (cs', pl', r')) = length (fst (cs, pl, r)) + n"
    by (rule repeat_opt_measure [OF _ assms]) (auto dest: place_chest_Some)
  moreover have "\<forall>c\<in>set (fst (cs', pl', r')). 1 \<le> length (items c) \<and> length (items c) \<le> 3"
    if "\<forall>c\<in>set cs. 1 \<le> length (items c) \<and> length (items c) \<le> 3"
    by (rule repeat_opt_inv [OF _ _ assms]) (use that in \<open>auto dest!: place_chest_Some\<close>)
  ultimately show ?thesis by simp
qed

subsection \<open>Placements clear of the walls\<close>

lemma random_free_clear:
  assumes "random_free g placed r = Some ((x, y), r')"
  shows "spawn_clear g placed x y \<and> (\<exists>k. r' = advance r (2 * k + 2))"
proof -
  from random_free_found [OF assms] obtain k where
    free: "free_spot g placed (fst (spot r k)) (snd (spot r k))"
    and v: "((x, y), r') = ((fst (spot r k) * TILE, snd (spot r k) * TILE), advance r (2 * k + 2))"
    by blast
  have "1 \<le> fst (spot r k) \<and> fst (spot r k) \<le> int ROOM_W - 2"
    and "1 \<le> snd (spot r k) \<and> snd (spot r k) \<le> int ROOM_H - 2"
    unfolding spot_def fst_conv snd_conv by (rule randint_range, simp)+
  with free v show ?thesis by (auto simp: spawn_clear_def free_spot_def ROOM_W_val ROOM_H_val)
qed

lemma spawn_clear_append: "spawn_clear g (xs @ ys) x y \<Longrightarrow> spawn_clear g xs x y"
  by (simp add: spawn_clear_def)

lemma place_enemy_clear:
  assumes "place_enemy a g ks (es, wr @ rest, r) = Some (es', pl', r')"
  shows "\<exists>e x y rest'. es' = es @ [e] \<and> pl' = wr @ rest' \<and> ex e = of_int x \<and> ey e = of_int y \<and>
    spawn_clear g wr x y"
proof -
  from assms obtain x y r1 where rf: "random_free g (wr @ rest) r = Some ((x, y), r1)"
    and es': "es' = es @ [new_enemy a x y (fst (choice ks r1))]"
    and pl': "pl' = wr @ rest @ [enemy_rect (new_enemy a x y (fst (choice ks r1)))]"
    by (auto simp: place_enemy_def bind_eq_Some_conv split_def Let_def)
  from random_free_clear [OF rf] have "spawn_clear g wr x y" by (blast dest: spawn_clear_append)
  with es' pl' show ?thesis by (auto simp: new_enemy_def)
qed

lemma place_chest_clear:
  assumes "place_chest a g (cs, wr @ rest, r) = Some (cs', pl', r')"
  shows "\<exists>c rest'. cs' = cs @ [c] \<and> pl' = wr @ rest' \<and> spawn_clear g wr (chx c) (chy c)"
proof -
  from assms obtain x y r1 its where rf: "random_free g (wr @ rest) r = Some ((x, y), r1)"
    and cs': "cs' = cs @ [new_chest a x y its]" and pl': "pl' = wr @ rest @ [crect (new_chest a x y its)]"
    by (auto simp: place_chest_def bind_eq_Some_conv split_def Let_def)
  from random_free_clear [OF rf] have "spawn_clear g wr x y" by (blast dest: spawn_clear_append)
  with cs' pl' show ?thesis by (auto simp: new_chest_def)
qed

lemma enemies_loop_clear:
  assumes "repeat_opt n (place_enemy a g ks) ([], wr, r) = Some (es, pl, r')"
  shows "(\<exists>rest. pl = wr @ rest) \<and> (\<forall>e\<in>set es. \<exists>x y. ex e = of_int x \<and> ey e = of_int y \<and> spawn_clear g wr x y)"
proof -
  let ?Q = "\<lambda>(es, pl, r). (\<exists>rest. pl = wr @ rest) \<and>
              (\<forall>e\<in>set es. \<exists>x y. ex e = of_int x \<and> ey e = of_int y \<and> spawn_clear g wr x y)"
  have "?Q (es, pl, r')"
  proof (rule repeat_opt_inv [OF _ _ assms])
    fix st st' assume q: "?Q st" and step: "place_enemy a g ks st = Some st'"
    obtain es0 pl0 r0 where st: "st = (es0, pl0, r0)" by (cases st)
    obtain es1 pl1 r1 where st': "st' = (es1, pl1, r1)" by (cases st')
    from q st obtain rest where pl0: "pl0 = wr @ rest" by auto
    from place_enemy_clear [OF step [unfolded st st' pl0]] q st st' show "?Q st'" by auto
  qed simp
  then show ?thesis by simp
qed

lemma chests_loop_clear:
  assumes "repeat_opt n (place_chest a g) ([], wr @ rest, r) = Some (cs, pl, r')"
  shows "\<forall>c\<in>set cs. spawn_clear g wr (chx c) (chy c)"
proof -
  let ?Q = "\<lambda>(cs, pl, r). (\<exists>rest. pl = wr @ rest) \<and> (\<forall>c\<in>set cs. spawn_clear g wr (chx c) (chy c))"
  have "?Q (cs, pl, r')"
  proof (rule repeat_opt_inv [OF _ _ assms])
    fix st st' assume q: "?Q st" and step: "place_chest a g st = Some st'"
    obtain cs0 pl0 r0 where st: "st = (cs0, pl0, r0)" by (cases st)
    obtain cs1 pl1 r1 where st': "st' = (cs1, pl1, r1)" by (cases st')
    from q st obtain rest where pl0: "pl0 = wr @ rest" by auto
    from place_chest_clear [OF step [unfolded st st' pl0]] q st st' show "?Q st'" by auto
  qed auto
  then show ?thesis by simp
qed

lemma populate_room_Some:
  assumes "populate_room a i g r = Some ((walls, es, cs), r')"
  obtains pl0 r0 where
    "repeat_opt (nat (fst (randint (int (enemy_min (ROOM_CONFIG i))) (int (enemy_max (ROOM_CONFIG i))) r)))
       (place_enemy a g (enemy_types (ROOM_CONFIG i)))
       ([], map (\<lambda>(wx, wy). Rect wx wy TILE TILE) (list_walls g), advance r 1) = Some (es, pl0, r0)"
    and "walls = list_walls g"
    and "no_chests (ROOM_CONFIG i) \<Longrightarrow> cs = []"
    and "\<not> no_chests (ROOM_CONFIG i) \<Longrightarrow>
      \<exists>pl1. repeat_opt (nat (fst (randint 1 3 r0))) (place_chest a g) ([], pl0, advance r0 1) = Some (cs, pl1, r')"
proof -
  let ?cfg = "ROOM_CONFIG i"
  let ?n = "fst (randint (int (enemy_min ?cfg)) (int (enemy_max ?cfg)) r)"
  from assms obtain st where
    rep: "repeat_opt (nat ?n) (place_enemy a g (enemy_types ?cfg))
            ([], map (\<lambda>(wx, wy). Rect wx wy TILE TILE) (list_walls g), advance r 1) = Some st"
    and rest: "(if no_chests ?cfg then Some ((list_walls g, fst st, []), snd (snd st))
       else (let (m, r3) = randint 1 3 (snd (snd st)) in
             repeat_opt (nat m) (place_chest a g) ([], fst (snd st), r3) \<bind>
               (\<lambda>(cs, _, r4). Some ((list_walls g, fst st, cs), r4)))) = Some ((walls, es, cs), r')"
    by (auto simp: populate_room_def bind_eq_Some_conv split_def Let_def randint_def
        simp del: game_consts)
  obtain es0 pl0 r0 where st: "st = (es0, pl0, r0)" by (cases st)
  have "es = es0 \<and> walls = list_walls g" using rest st
    by (auto simp: bind_eq_Some_conv split_def Let_def split: if_splits)
  moreover have "no_chests ?cfg \<Longrightarrow> cs = []" using rest st by simp
  moreover have "\<exists>pl1. repeat_opt (nat (fst (randint 1 3 r0))) (place_chest a g) ([], pl0, advance r0 1) =
      Some (cs, pl1, r')" if "\<not> no_chests ?cfg"
    using rest st that by (auto simp: bind_eq_Some_conv split_def Let_def randint_def)
  ultimately show ?thesis using that rep st by blast
qed

subsection \<open>Properties of the population\<close>

text \<open>
  C7: \<open>random_free\<close> returns exactly when the random source eventually yields a pair
  of coordinates of a floor tile whose box meets nothing placed: the loop ends on every
  source that is not adversarial, and on no other.
\<close>

theorem random_free_returns_iff:
  "(\<exists>v. random_free g placed r = Some v) \<longleftrightarrow>
   (\<exists>k. free_spot g placed (fst (spot r k)) (snd (spot r k)))"
proof
  assume "\<exists>v. random_free g placed r = Some v"
  then show "\<exists>k. free_spot g placed (fst (spot r k)) (snd (spot r k))"
    using random_free_found by blast
next
  assume "\<exists>k. free_spot g placed (fst (spot r k)) (snd (spot r k))"
  then obtain k where k: "free_spot g placed (fst (spot r k)) (snd (spot r k))"
    and least: "\<forall>j<k. \<not> free_spot g placed (fst (spot r j)) (snd (spot r j))"
    using exists_least_iff [of "\<lambda>k. free_spot g placed (fst (spot r k)) (snd (spot r k))"] by blast
  from random_free_first [OF k least] show "\<exists>v. random_free g placed r = Some v" by blast
qed

text \<open>
  C11: a position \<open>random_free\<close> returns is the corner of an interior tile of the room
  (columns 1 to 23, rows 1 to 16) that is not a wall and whose tile box meets none of
  the rectangles already placed; it has used two draws per attempt.
\<close>

theorem random_free_spot:
  assumes "random_free g placed r = Some ((x, y), r')"
  shows "x mod TILE = 0 \<and> y mod TILE = 0 \<and> TILE \<le> x \<and> x \<le> TILE * (int ROOM_W - 2) \<and>
    TILE \<le> y \<and> y \<le> TILE * (int ROOM_H - 2) \<and>
    cell g (nat (x div TILE)) (nat (y div TILE)) \<noteq> 1 \<and>
    \<not> list_ex (colliderect (Rect x y TILE TILE)) placed \<and>
    (\<exists>k. r' = advance r (2 * k + 2))"
  using random_free_clear [OF assms] by (simp add: spawn_clear_def)

theorem random_free_spot_witness:
  "random_free (replicate 18 (replicate 25 0)) [] \<lparr>draws = id, rpos = 0\<rparr> =
     Some ((32, 64), \<lparr>draws = id, rpos = 2\<rparr>) \<and>
   cell (replicate 18 (replicate 25 0)) 1 2 \<noteq> 1"
proof -
  have eq: "random_free (replicate 18 (replicate 25 0)) [] \<lparr>draws = id, rpos = 0\<rparr> =
     Some ((32, 64), \<lparr>draws = id, rpos = 2\<rparr>)"
    by (subst random_free_unfold) (simp add: spot_def free_spot_def randint_def advance_def cell_def)
  from random_free_spot [OF eq] eq show ?thesis by simp
qed

text \<open>
  C8: a room populated by \<open>generate_static_dungeon\<close> has between \<open>enemy_min\<close> and
  \<open>enemy_max\<close> enemies, all of the kinds its \<open>ROOM_CONFIG\<close> entry lists; the final
  room has no chest and every other room one to three chests of one to three items
  each; its wall list is \<open>list_walls\<close> of its grid.
\<close>

theorem populate_room_counts:
  assumes "populate_room a i g r = Some ((walls, es, cs), r')"
  shows "enemy_min (ROOM_CONFIG i) \<le> length es \<and> length es \<le> enemy_max (ROOM_CONFIG i) \<and>
    (\<forall>e\<in>set es. kind e \<in> set (enemy_types (ROOM_CONFIG i))) \<and>
    (if no_chests (ROOM_CONFIG i) then cs = [] else 1 \<le> length cs \<and> length cs \<le> 3) \<and>
    (\<forall>c\<in>set cs. 1 \<le> length (items c) \<and> length (items c) \<le> 3) \<and> walls = list_walls g"
proof -
  let ?cfg = "ROOM_CONFIG i"
  let ?n = "fst (randint (int (enemy_min ?cfg)) (int (enemy_max ?cfg)) r)"
  have ks: "enemy_types ?cfg \<noteq> []" and mm: "int (enemy_min ?cfg) \<le> int (enemy_max ?cfg)"
    by (simp_all add: ROOM_CONFIG_def)
  from randint_range [OF mm, of r] have n: "int (enemy_min ?cfg) \<le> ?n \<and> ?n \<le> int (enemy_max ?cfg)" .
  obtain pl0 r0 where rep: "repeat_opt (nat ?n) (place_enemy a g (enemy_types ?cfg))
       ([], map (\<lambda>(wx, wy). Rect wx wy TILE TILE) (list_walls g), advance r 1) = Some (es, pl0, r0)"
    and w: "walls = list_walls g" and nc: "no_chests ?cfg \<Longrightarrow> cs = []"
    and cc: "\<not> no_chests ?cfg \<Longrightarrow>
      \<exists>pl1. repeat_opt (nat (fst (randint 1 3 r0))) (place_chest a g) ([], pl0, advance r0 1) = Some (cs, pl1, r')"
    using populate_room_Some [OF assms] by blast
  from enemies_loop [OF rep] ks
  have es: "length es = nat ?n" "\<forall>e\<in>set es. kind e \<in> set (enemy_types ?cfg)" by auto
  show ?thesis
  proof (cases "no_chests ?cfg")
    case True
    with nc es n w show ?thesis by auto
  next
    case False
    with cc obtain pl1 where
      cr: "repeat_opt (nat (fst (randint 1 3 r0))) (place_chest a g) ([], pl0, advance r0 1) = Some (cs, pl1, r')"
      by blast
    have m: "1 \<le> fst (randint 1 3 r0) \<and> fst (randint 1 3 r0) \<le> 3" by (rule randint_range) simp
    from chests_loop [OF cr] have "length cs = nat (fst (randint 1 3 r0))"
      and "\<forall>c\<in>set cs. 1 \<le> length (items c) \<and> length (items c) \<le> 3" by auto
    with False es w n m show ?thesis by auto
  qed
qed

theorem populate_room_counts_witness:
  "\<exists>walls es cs r'.
     populate_room sample_assets 9 (replicate 18 (replicate 25 0)) \<lparr>draws = id, rpos = 0\<rparr> =
       Some ((walls, es, cs), r') \<and> 10 \<le> length es \<and> cs = []"
proof -
  have "populate_room sample_assets 9 (replicate 18 (replicate 25 0)) \<lparr>draws = id, rpos = 0\<rparr> \<noteq> None"
    by code_simp
  then obtain walls es cs r' where
    eq: "populate_room sample_assets 9 (replicate 18 (replicate 25 0)) \<lparr>draws = id, rpos = 0\<rparr> =
       Some ((walls, es, cs), r')" by auto
  from populate_room_counts [OF eq] eq show ?thesis by (auto simp: ROOM_CONFIG_def)
qed

text \<open>
  C14: every enemy and every chest \<open>generate_static_dungeon\<close> places starts at the corner
  of an interior floor tile of its room whose tile box meets no wall tile of the room
  (the wall rectangles are the first entries of \<open>placed\<close>, which \<open>random_free\<close>
  avoids).
\<close>

theorem populate_room_spawns_clear:
  assumes "populate_room a i g r = Some ((walls, es, cs), r')"
  shows "(\<forall>e\<in>set es. \<exists>x y. ex e = of_int x \<and> ey e = of_int y \<and>
            spawn_clear g (map (\<lambda>(wx, wy). Rect wx wy TILE TILE) walls) x y) \<and>
    (\<forall>c\<in>set cs. spawn_clear g (map (\<lambda>(wx, wy). Rect wx wy TILE TILE) walls) (chx c) (chy c))"
proof -
  let ?cfg = "ROOM_CONFIG i"
  let ?wr = "map (\<lambda>(wx, wy). Rect wx wy TILE TILE) (list_walls g)"
  obtain pl0 r0 where rep: "repeat_opt (nat (fst (randint (int (enemy_min ?cfg)) (int (enemy_max ?cfg)) r)))
       (place_enemy a g (enemy_types ?cfg)) ([], ?wr, advance r 1) = Some (es, pl0, r0)"
    and w: "walls = list_walls g" and nc: "no_chests ?cfg \<Longrightarrow> cs = []"
    and cc: "\<not> no_chests ?cfg \<Longrightarrow>
      \<exists>pl1. repeat_opt (nat (fst (randint 1 3 r0))) (place_chest a g) ([], pl0, advance r0 1) = Some (cs, pl1, r')"
    using populate_room_Some [OF assms] by blast
  from enemies_loop_clear [OF rep] obtain more where pl0: "pl0 = ?wr @ more"
    and es: "\<forall>e\<in>set es. \<exists>x y. ex e = of_int x \<and> ey e = of_int y \<and> spawn_clear g ?wr x y" by blast
  have "\<forall>c\<in>set cs. spawn_clear g ?wr (chx c) (chy c)"
  proof (cases "no_chests ?cfg")
    case True
    with nc show ?thesis by simp
  next
    case False
    with cc pl0 obtain pl1 where
      "repeat_opt (nat (fst (randint 1 3 r0))) (place_chest a g) ([], ?wr @ more, advance r0 1) = Some (cs, pl1, r')"
      by blast
    from chests_loop_clear [OF this] show ?thesis .
  qed
  with es w show ?thesis by simp
qed

theorem populate_room_spawns_clear_witness:
  "\<exists>walls es cs r'.
     populate_room sample_assets 0 (replicate 18 (replicate 25 0)) \<lparr>draws = id, rpos = 0\<rparr> =
       Some ((walls, es, cs), r') \<and>
     (\<exists>x y. ex (hd es) = of_int x \<and> ey (hd es) = of_int y \<and>
        spawn_clear (replicate 18 (replicate 25 0)) (map (\<lambda>(wx, wy). Rect wx wy TILE TILE) walls) x y) \<and>
     spawn_clear (replicate 18 (replicate 25 0)) (map (\<lambda>(wx, wy). Rect wx wy TILE TILE) walls)
       (chx (hd cs)) (chy (hd cs))"
proof -
  have "case populate_room sample_assets 0 (replicate 18 (replicate 25 0)) \<lparr>draws = id, rpos = 0\<rparr> of
          Some ((walls, es, cs), r') \<Rightarrow> es \<noteq> [] \<and> cs \<noteq> [] | None \<Rightarrow> False"
    by code_simp
  then obtain walls es cs r' where
    eq: "populate_room sample_assets 0 (replicate 18 (replicate 25 0)) \<lparr>draws = id, rpos = 0\<rparr> =
       Some ((walls, es, cs), r')" and ne: "es \<noteq> []" "cs \<noteq> []"
    by (auto split: option.splits)
  from populate_room_spawns_clear [OF eq] ne have
    "\<exists>x y. ex (hd es) = of_int x \<and> ey (hd es) = of_int y \<and>
        spawn_clear (replicate 18 (replicate 25 0)) (map (\<lambda>(wx, wy). Rect wx wy TILE TILE) walls) x y"
    "spawn_clear (replicate 18 (replicate 25 0)) (map (\<lambda>(wx, wy). Rect wx wy TILE TILE) walls)
       (chx (hd cs)) (chy (hd cs))"
    by simp_all
  with eq show ?thesis by blast
qed

subsection \<open>Draws for which generation never returns\<close>

text \<open>
  When every draw is the same, every pair of draws of \<open>random_free\<close> names the tile
  \<open>(2, 2)\<close>: the first enemy of a room lands there, and the second call can only
  draw that occupied tile again.
\<close>

lemma random_free_None:
  assumes "\<forall>k. \<not> free_spot g placed (fst (spot r k)) (snd (spot r k))"
  shows "random_free g placed r = None"
proof (rule ccontr)
  assume "random_free g placed r \<noteq> None"
  then obtain v where "random_free g placed r = Some v" by blast
  from random_free_found [OF this] assms show False by blast
qed

lemma spot_const_draws: "draws r = (\<lambda>_. 1) \<Longrightarrow> spot r k = (2, 2)"
  by (simp add: spot_def randint_def ROOM_W_val ROOM_H_val)

lemma random_free_const_draws:
  assumes "draws r = (\<lambda>_. 1)"
  shows "random_free g placed r =
           (if free_spot g placed 2 2 then Some ((64, 64), advance r 2) else None)"
proof (cases "free_spot g placed 2 2")
  case True
  then show ?thesis using random_free_first [of g placed r 0] spot_const_draws [OF assms] by simp
next
  case False
  then show ?thesis using random_free_None [of g placed r] spot_const_draws [OF assms] by simp
qed

lemma populate_room_const_draws:
  assumes "draws r = (\<lambda>_. 1)" and "\<forall>k. 0 < fst (enemy_size a k) \<and> 0 < snd (enemy_size a k)"
  shows "populate_room a i g r = None"
proof -
  let ?cfg = "ROOM_CONFIG i"
  let ?P = "map (\<lambda>(wx, wy). Rect wx wy TILE TILE) (list_walls g)"
  let ?f = "place_enemy a g (enemy_types ?cfg)"
  obtain m where n: "nat (fst (randint (int (enemy_min ?cfg)) (int (enemy_max ?cfg)) r)) = Suc (Suc m)"
    using assms(1) by (cases "i = 9") (auto simp: randint_def ROOM_CONFIG_def)
  have rep: "repeat_opt (Suc (Suc m)) ?f ([], ?P, r1) = None" if r1: "draws r1 = (\<lambda>_. 1)" for r1
  proof (cases "free_spot g ?P 2 2")
    case False
    then show ?thesis by (simp add: place_enemy_def random_free_const_draws [OF r1])
  next
    case True
    let ?e = "new_enemy a 64 64 (fst (choice (enemy_types ?cfg) (advance r1 2)))"
    have hit: "\<not> free_spot g (?P @ [enemy_rect ?e]) 2 2"
      using assms(2) [rule_format, of "fst (choice (enemy_types ?cfg) (advance r1 2))"]
      by (simp add: free_spot_def enemy_rect_def new_enemy_def colliderect_def)
    have "random_free g (?P @ [enemy_rect ?e]) (snd (choice (enemy_types ?cfg) (advance r1 2))) = None"
      using hit r1 by (simp add: random_free_const_draws choice_def del: game_consts)
    then show ?thesis using True r1
      by (simp add: place_enemy_def random_free_const_draws split_def Let_def del: game_consts)
  qed
  from rep [of "advance r 1"] assms(1) show ?thesis
    using n by (simp add: populate_room_def randint_def Let_def split_def del: game_consts)
qed

lemma populate_rooms_first_None:
  "populate_room a 0 (gs ! 0) r = None \<Longrightarrow> populate_rooms a gs r = None"
  by (simp add: populate_rooms_def upt_conv_Cons fold_bind_None del: upt_Suc)

subsection \<open>The first enemy of a room\<close>

lemma populate_fold_prefix:
  "fold (\<lambda>i acc. acc \<bind> (\<lambda>(rd, r). populate_room a i (gs ! i) r \<bind> (\<lambda>(d, r'). Some (rd @ [d], r'))))
     xs (Some (rd0, r)) = Some (rd, r') \<Longrightarrow> \<exists>ys. rd = rd0 @ ys"
proof (induction xs arbitrary: rd0 r)
  case Nil
  then show ?case by simp
next
  case (Cons x xs)
  show ?case
  proof (cases "populate_room a x (gs ! x) r")
    case None
    with Cons.prems show ?thesis by (simp add: fold_bind_None)
  next
    case (Some dr)
    obtain d r1 where dr: "dr = (d, r1)" by (cases dr)
    with Cons.prems Some Cons.IH [of "rd0 @ [d]" r1] show ?thesis by auto
  qed
qed

lemma populate_rooms_first:
  assumes "populate_rooms a gs r = Some (rd, r')"
  shows "rd \<noteq> [] \<and> (\<exists>r1. populate_room a 0 (gs ! 0) r = Some (hd rd, r1))"
proof (cases "populate_room a 0 (gs ! 0) r")
  case None
  with assms show ?thesis by (simp add: populate_rooms_def upt_conv_Cons fold_bind_None del: upt_Suc)
next
  case (Some dr)
  obtain d r1 where dr: "dr = (d, r1)" by (cases dr)
  with Some assms populate_fold_prefix [of a gs "[1..<ROOM_COUNT]" "[d]" r1 rd r']
  show ?thesis by (auto simp: populate_rooms_def upt_conv_Cons simp del: upt_Suc)
qed

lemma populate_room_first_enemy:
  assumes "populate_room a i g r = Some ((walls, es, cs), r')"
    and "free_spot g (map (\<lambda>(wx, wy). Rect wx wy TILE TILE) (list_walls g))
           (fst (spot (advance r 1) 0)) (snd (spot (advance r 1) 0))"
  shows "es \<noteq> [] \<and>
    (\<exists>k. hd es = new_enemy a (fst (spot (advance r 1) 0) * TILE) (snd (spot (advance r 1) 0) * TILE) k)"
proof -
  let ?cfg = "ROOM_CONFIG i"
  let ?P = "map (\<lambda>(wx, wy). Rect wx wy TILE TILE) (list_walls g)"
  let ?f = "place_enemy a g (enemy_types ?cfg)"
  let ?n = "fst (randint (int (enemy_min ?cfg)) (int (enemy_max ?cfg)) r)"
  obtain pl0 r0 where rep: "repeat_opt (nat ?n) ?f ([], ?P, advance r 1) = Some (es, pl0, r0)"
    using populate_room_Some [OF assms(1)] by blast
  have "int (enemy_min ?cfg) \<le> ?n"
    using randint_range [of "int (enemy_min ?cfg)" "int (enemy_max ?cfg)" r]
    by (simp add: ROOM_CONFIG_def)
  moreover have "0 < enemy_min ?cfg" by (simp add: ROOM_CONFIG_def)
  ultimately obtain m where n: "nat ?n = Suc m"
    by (metis gr0_implies_Suc of_nat_0_less_iff order_less_le_trans zero_less_nat_eq)
  define r1 where "r1 = advance r 1"
  let ?x = "fst (spot r1 0) * TILE" and ?y = "snd (spot r1 0) * TILE"
  have rf: "random_free g ?P r1 = Some ((?x, ?y), advance r1 2)"
    using random_free_first [of g ?P r1 0] assms(2) by (simp add: r1_def)
  define e1 where "e1 = new_enemy a ?x ?y (fst (choice (enemy_types ?cfg) (advance r1 2)))"
  have s1: "?f ([], ?P, r1) =
      Some ([e1], ?P @ [enemy_rect e1], snd (choice (enemy_types ?cfg) (advance r1 2)))"
    by (simp add: place_enemy_def rf e1_def Let_def case_prod_beta del: game_consts)
  with rep n have rest: "repeat_opt m ?f ([e1], ?P @ [enemy_rect e1], snd (choice (enemy_types ?cfg) (advance r1 2))) =
      Some (es, pl0, r0)" by (simp add: r1_def)
  have "fst (es, pl0, r0) \<noteq> [] \<and> hd (fst (es, pl0, r0)) = e1"
    by (rule repeat_opt_inv [OF _ _ rest]) (auto dest!: place_enemy_Some)
  then show ?thesis by (auto simp: e1_def r1_def)
qed

end
