(* ===== verification/Game.thy ===== *)
theory Game
  imports Combat Transition Population
begin

text \<open>
  The session: the globals of \<open>src/main.py\<close> (lines 509--524), \<open>reset_run\<close>, the event
  handlers and one iteration of the main loop (lines 645--720).  The globals are one
  record \<open>session\<close>; \<open>game_state\<close> is a datatype.  An iteration reads the events of
  \<open>pygame.event.get()\<close> in order, then, in the play state, runs one frame: move, room
  transition, swing timer, enemy updates, purge, contact damage, fireballs, purge, and
  the game-over and win checks in that order.  The keys held during the frame are a
  predicate on the movement keys; \<open>now\<close> is \<open>pygame.time.get_ticks()\<close> during the
  iteration.  \<open>reset_run\<close> may not return (\<open>random_free\<close>), so an iteration is a
  \<open>session result option\<close>.  Drawing is not modelled: it reads the state only.
\<close>

datatype game_state = Title | Play | Gameover | Win

datatype key = K_RETURN | K_SPACE | K_1 | K_2 | K_3 | K_4 | K_e | K_other nat

datatype event = Quit | KeyDown key | MouseDown nat "int \<times> int"

datatype pkey = K_d | K_RIGHT | K_a | K_LEFT | K_s | K_DOWN | K_w | K_UP

record session =
  s_state :: game_state
  s_running :: bool
  s_player :: player
  s_room :: nat
  s_projectiles :: "fireball list"
  s_inventory :: inventory
  s_rooms :: "grid list"
  s_doors :: "(dir \<rightharpoonup> rect) list"
  s_data :: "room_entities list"
  s_rng :: rng

subsection \<open>\<open>reset_run\<close> and the event handlers\<close>

definition reset_run :: "assets \<Rightarrow> session \<Rightarrow> session result option" where
  "reset_run a s =
     map_option (\<lambda>res. case res of
         Inl err \<Rightarrow> Inl err
       | Inr ((gs, ds, rd), r') \<Rightarrow>
           Inr (s\<lparr>s_rooms := gs, s_doors := ds, s_data := rd, s_rng := r',
                  s_player := new_player a, s_room := 0, s_projectiles := [],
                  s_inventory := empty_inventory\<rparr>))
       (generate_static_dungeon a (s_rng s))"

definition start_key :: "event \<Rightarrow> bool" where
  "start_key ev \<longleftrightarrow> ev = KeyDown K_RETURN \<or> ev = KeyDown K_SPACE"

definition food_key :: "key \<Rightarrow> item option" where
  "food_key k = (case k of K_1 \<Rightarrow> Some Apple | K_2 \<Rightarrow> Some Bread | K_3 \<Rightarrow> Some Meat
                  | K_4 \<Rightarrow> Some Chicken | _ \<Rightarrow> None)"

definition click :: "int \<Rightarrow> int \<times> int \<Rightarrow> session \<Rightarrow> session result" where
  \<comment> \<open>left click: \<open>player.start_attack(pos)\<close>, then \<open>handle_sword\<close> on the room's enemies\<close>
  "click now pos s =
     (let p = start_attack now (s_player s) pos in
      r_bind (py_nth (s_data s) (s_room s)) (\<lambda>(w, es, cs).
        Inr (s\<lparr>s_player := p, s_data := (s_data s)[s_room s := (w, handle_sword p es, cs)]\<rparr>)))"

definition eat_key :: "key \<Rightarrow> session \<Rightarrow> session" where
  \<comment> \<open>keys 1--4: \<open>if inventory[it] > 0: inventory[it] -= 1; player.heal(item_heal[it])\<close>\<close>
  "eat_key k s =
     (case food_key k of
        Some it \<Rightarrow> (let (bag, p) = consume_item it (s_inventory s, s_player s)
                    in s\<lparr>s_inventory := bag, s_player := p\<rparr>)
      | None \<Rightarrow> s)"

definition open_key :: "session \<Rightarrow> session result" where
  \<comment> \<open>key E: \<open>for c in chs: c.try_open(player.rect, inventory)\<close>\<close>
  "open_key s =
     r_bind (py_nth (s_data s) (s_room s)) (\<lambda>(w, es, cs).
       let (cs', bag') = open_chests (player_rect (s_player s)) cs (s_inventory s)
       in Inr (s\<lparr>s_inventory := bag', s_data := (s_data s)[s_room s := (w, es, cs')]\<rparr>))"

definition play_event :: "int \<Rightarrow> event \<Rightarrow> session \<Rightarrow> session result" where
  "play_event now ev s =
     (case ev of
        MouseDown b pos \<Rightarrow> if b = 1 then click now pos s else Inr s
      | KeyDown k \<Rightarrow> (let s1 = eat_key k s in if k = K_e then open_key s1 else Inr s1)
      | Quit \<Rightarrow> Inr s)"

definition handle_event :: "assets \<Rightarrow> int \<Rightarrow> session \<Rightarrow> event \<Rightarrow> session result option" where
  "handle_event a now s ev =
     (let s1 = (if ev = Quit then s\<lparr>s_running := False\<rparr> else s) in
      if s_state s1 = Play then Some (play_event now ev s1)
      else if start_key ev then map_option (map_sum id (\<lambda>s'. s'\<lparr>s_state := Play\<rparr>)) (reset_run a s1)
      else Some (Inr s1))"

subsection \<open>One frame of the play state\<close>

definition update_enemies ::
  "mask \<Rightarrow> int \<Rightarrow> player \<Rightarrow> (int \<times> int) list \<Rightarrow> enemy list \<Rightarrow> fireball list \<Rightarrow>
   (enemy list \<times> fireball list) result" where
  \<comment> \<open>\<open>for e in enemies: e.update(player, walls, grid, projectiles)\<close>\<close>
  "update_enemies wm now p walls es fs =
     fold (\<lambda>e acc. r_bind acc (\<lambda>(done, fs). r_bind (enemy_update wm now p walls (e, fs))
                                 (\<lambda>(e', fs'). Inr (done @ [e'], fs'))))
       es (Inr ([], fs))"

definition update_fireballs :: "int \<Rightarrow> grid \<Rightarrow> fireball list \<Rightarrow> player \<Rightarrow> fireball list \<times> player" where
  \<comment> \<open>\<open>for fb in projectiles: fb.update(grid, player)\<close>\<close>
  "update_fireballs now g fs p =
     fold (\<lambda>f (done, p). let (f', p') = fireball_update now g (f, p) in (done @ [f'], p')) fs ([], p)"

definition axis :: "bool \<Rightarrow> bool \<Rightarrow> real" where
  \<comment> \<open>\<open>(keys[k1] or keys[k2]) - (keys[k3] or keys[k4])\<close> on Python bools\<close>
  "axis fwd bwd = of_bool fwd - of_bool bwd"

text \<open>
  The frame after the room transition (lines 704--719): enemy updates, purge, contact
  damage, fireballs, purge, then the game-over check and the win check, in that order.
\<close>

definition frame_end ::
  "int \<Rightarrow> session \<Rightarrow> nat \<Rightarrow> grid \<Rightarrow> (int \<times> int) list \<Rightarrow> chest list \<Rightarrow> enemy list \<Rightarrow>
   fireball list \<Rightarrow> player \<Rightarrow> session" where
  "frame_end now s cur g walls cs es1 fs1 p3 =
     (let es2 = purge_enemies es1;
          p4 = handle_melee now p3 es2;
          (fs2, p5) = update_fireballs now g fs1 p4;
          st1 = (if \<not> alive p5 then Gameover else s_state s);
          st2 = (if cur = FINAL_ROOM_INDEX \<and> list_all (\<lambda>e. \<not> enemy_alive e) es2 then Win else st1)
      in s\<lparr>s_player := p5, s_room := cur, s_projectiles := purge_fireballs fs2,
           s_data := (s_data s)[cur := (walls, es2, cs)], s_state := st2\<rparr>)"

definition frame_room :: "assets \<Rightarrow> int \<Rightarrow> session \<Rightarrow> nat \<Rightarrow> player \<Rightarrow> session result" where
  "frame_room a now s cur p3 =
     r_bind (py_nth (s_data s) cur) (\<lambda>(walls, es, cs).
     r_bind (py_nth (s_rooms s) cur) (\<lambda>g.
     r_bind (update_enemies (wall_mask a) now p3 walls es (s_projectiles s)) (\<lambda>(es1, fs1).
     Inr (frame_end now s cur g walls cs es1 fs1 p3))))"

definition frame :: "assets \<Rightarrow> int \<Rightarrow> (pkey \<Rightarrow> bool) \<Rightarrow> session \<Rightarrow> session result" where
  "frame a now keys s =
     (let dx = axis (keys K_d \<or> keys K_RIGHT) (keys K_a \<or> keys K_LEFT);
          dy = axis (keys K_s \<or> keys K_DOWN) (keys K_w \<or> keys K_UP)
      in r_bind (py_nth (s_data s) (s_room s)) (\<lambda>(walls, _, _).
         r_bind (py_nth (s_rooms s) (s_room s)) (\<lambda>_.
         let p1 = player_move (wall_mask a) (s_player s) dx dy walls in
         r_bind (try_room_transition (s_doors s) (s_room s) p1) (\<lambda>(cur, p2).
         frame_room a now s cur (update_attack now p2)))))"

definition handle_events :: "assets \<Rightarrow> int \<Rightarrow> event list \<Rightarrow> session \<Rightarrow> session result option" where
  \<comment> \<open>\<open>for ev in pygame.event.get(): ...\<close>, an exception ends the loop\<close>
  "handle_events a now evs s =
     fold (\<lambda>ev acc. acc \<bind> (\<lambda>r. case r of Inl err \<Rightarrow> Some (Inl err) | Inr s \<Rightarrow> handle_event a now s ev))
       evs (Some (Inr s))"

definition loop_iter ::
  "assets \<Rightarrow> int \<Rightarrow> event list \<Rightarrow> (pkey \<Rightarrow> bool) \<Rightarrow> session \<Rightarrow> session result option" where
  "loop_iter a now evs keys s =
     handle_events a now evs s
     \<bind> (\<lambda>r. case r of
              Inl err \<Rightarrow> Some (Inl err)
            | Inr s' \<Rightarrow> Some (if s_state s' = Play then frame a now keys s' else Inr s'))"

text \<open>The globals before the first \<open>reset_run()\<close>; the player slot is overwritten by it.\<close>

definition blank_session :: "assets \<Rightarrow> rng \<Rightarrow> session" where
  "blank_session a r =
     \<lparr>s_state = Title, s_running = True, s_player = new_player a, s_room = 0,
      s_projectiles = [], s_inventory = empty_inventory, s_rooms = [], s_doors = [],
      s_data = [], s_rng = r\<rparr>"

declare reset_run_def [model_defs] start_key_def [model_defs] food_key_def [model_defs]
  click_def [model_defs] eat_key_def [model_defs] open_key_def [model_defs]
  play_event_def [model_defs] handle_event_def [model_defs] update_enemies_def [model_defs]
  update_fireballs_def [model_defs] axis_def [model_defs] frame_end_def [model_defs]
  frame_room_def [model_defs] frame_def [model_defs]
  handle_events_def [model_defs] loop_iter_def [model_defs] blank_session_def [model_defs]

subsection \<open>Runs of the game\<close>

inductive reachable :: "assets \<Rightarrow> session \<Rightarrow> bool" for a where
  start: "reset_run a (blank_session a r) = Some (Inr s) \<Longrightarrow> reachable a s"
| step: "reachable a s \<Longrightarrow> s_running s \<Longrightarrow> loop_iter a now evs keys s = Some (Inr s') \<Longrightarrow>
    reachable a s'"

end
