(* ===== verification/Game_Props.thy ===== *)
theory Game_Props
  imports Game
begin

text \<open>
  Properties of the session model of \<open>Game\<close>: the session invariant and its
  preservation by \<open>reset_run\<close>, every event handler and every frame; the errors an
  iteration of the main loop can raise; the running flag; the order of the game-over
  and win checks; the restart; and the invariant of every reachable session.
\<close>

subsection \<open>The session invariant\<close>

text \<open>
  What every reachable session keeps: the room lists are those \<open>generate_static_dungeon\<close>
  builds, every room has its entry in \<open>room_data\<close>, every enemy has a non-negative
  contact damage and speed, the current room is a room, the inventory is within
  \<open>[0, 5]\<close>, the player's health invariant holds, and in the play state the player
  is alive.
\<close>

definition enemy_ok :: "enemy \<Rightarrow> bool" where
  "enemy_ok e \<longleftrightarrow> 0 \<le> contact_damage e \<and> 0 \<le> espeed e"

definition room_ok :: "room_entities \<Rightarrow> bool" where
  "room_ok d \<longleftrightarrow> list_all enemy_ok (fst (snd d))"

definition session_inv :: "session \<Rightarrow> bool" where
  "session_inv s \<longleftrightarrow>
     s_rooms s = map room_grid [0..<ROOM_COUNT] \<and> s_doors s = map room_doors [0..<ROOM_COUNT] \<and>
     length (s_data s) = ROOM_COUNT \<and> list_all room_ok (s_data s) \<and> s_room s < ROOM_COUNT \<and>
     inventory_ok (s_inventory s) \<and> player_inv (s_player s) \<and>
     (s_state s = Play \<longrightarrow> alive (s_player s))"

text \<open>
  The game-state machine the program is meant to implement, as a labelled transition
  system: a start key on the title screen starts a run, the player's death ends it in
  game over, clearing the final room ends it in a win, and a start key on either end
  screen starts a new run.
\<close>

datatype game_event = Start | Die | Clear

inductive game_step :: "game_state \<Rightarrow> game_event \<Rightarrow> game_state \<Rightarrow> bool" where
  start: "game_step Title Start Play"
| retry: "game_step Gameover Start Play"
| again: "game_step Win Start Play"
| die: "game_step Play Die Gameover"
| clear: "game_step Play Clear Win"

subsubsection \<open>Operations that leave the player's health alone\<close>

lemma life_player_move [simp]:
  "health (player_move wm p dx dy walls) = health p"
  "max_health (player_move wm p dx dy walls) = max_health p"
  "alive (player_move wm p dx dy walls) = alive p"
  by (simp_all add: player_move_def Let_def)

lemma life_start_attack [simp]:
  "health (start_attack now p m) = health p" "max_health (start_attack now p m) = max_health p"
  "alive (start_attack now p m) = alive p"
  by (simp_all add: start_attack_def Let_def split: prod.split)

lemma life_update_attack [simp]:
  "health (update_attack now p) = health p" "max_health (update_attack now p) = max_health p"
  "alive (update_attack now p) = alive p"
  by (simp_all add: update_attack_def)

lemma alive_heal [simp]: "alive (heal p amt) = alive p"
  by (simp add: heal_def)

lemma player_inv_unchanged [simp]:
  "player_inv (player_move wm p dx dy walls) = player_inv p"
  "player_inv (start_attack now p m) = player_inv p"
  "player_inv (update_attack now p) = player_inv p"
  by (simp_all add: player_inv_def)

subsubsection \<open>Generation\<close>

lemma new_enemy_ok: "enemy_ok (new_enemy a x y k)"
  by (cases k) (simp_all add: enemy_ok_def new_enemy_def ENEMY_STATS_def)

lemma place_enemy_ok:
  assumes "place_enemy a g ks (es, pl, r) = Some (es', pl', r')" and "list_all enemy_ok es"
  shows "list_all enemy_ok es'"
  using assms new_enemy_ok
  by (auto simp: place_enemy_def bind_eq_Some_conv split_def Let_def)

lemma populate_room_ok:
  assumes "populate_room a i g r = Some (d, r')"
  shows "room_ok d"
proof -
  let ?cfg = "ROOM_CONFIG i"
  let ?n = "fst (randint (int (enemy_min ?cfg)) (int (enemy_max ?cfg)) r)"
  from assms obtain st where
    rep: "repeat_opt (nat ?n) (place_enemy a g (enemy_types ?cfg))
            ([], map (\<lambda>(wx, wy). Rect wx wy TILE TILE) (list_walls g), advance r 1) = Some st"
    and es: "fst (snd d) = fst st"
    by (auto simp: populate_room_def bind_eq_Some_conv split_def Let_def randint_def
        split: if_splits simp del: game_consts)
  have "list_all enemy_ok (fst st)"
    by (rule repeat_opt_inv [OF _ _ rep]) (auto intro: place_enemy_ok)
  with es show ?thesis by (simp add: room_ok_def)
qed

lemma populate_room_walls: "populate_room a i g r = Some (d, r') \<Longrightarrow> fst d = list_walls g"
  by (auto simp: populate_room_def bind_eq_Some_conv split_def Let_def split: if_splits)

lemma populate_prefix:
  assumes "fold (\<lambda>i acc. acc \<bind> (\<lambda>(rd, r). populate_room a i (gs ! i) r \<bind> (\<lambda>(d, r'). Some (rd @ [d], r'))))
       [0..<k] (Some ([], r)) = Some (rd, r')"
  shows "length rd = k \<and> list_all room_ok rd \<and> (\<forall>i<k. fst (rd ! i) = list_walls (gs ! i))"
  using assms
proof (induction k arbitrary: rd r')
  case 0
  then show ?case by simp
next
  case (Suc k)
  from Suc.prems obtain rd0 r0 d where
    pre: "fold (\<lambda>i acc. acc \<bind> (\<lambda>(rd, r). populate_room a i (gs ! i) r \<bind> (\<lambda>(d, r'). Some (rd @ [d], r'))))
       [0..<k] (Some ([], r)) = Some (rd0, r0)"
    and pr: "populate_room a k (gs ! k) r0 = Some (d, r')" and rd: "rd = rd0 @ [d]"
    by (auto simp: bind_eq_Some_conv split_def)
  from Suc.IH [OF pre] populate_room_ok [OF pr] populate_room_walls [OF pr] rd show ?case
    by (auto simp: nth_append less_Suc_eq)
qed

lemma generate_static_dungeon_eq:
  "generate_static_dungeon a r =
      map_option (\<lambda>(rd, r'). Inr ((map room_grid [0..<ROOM_COUNT], map room_doors [0..<ROOM_COUNT], rd), r'))
        (populate_rooms a (map room_grid [0..<ROOM_COUNT]) r)"
  by (simp add: generate_static_dungeon_def build_rooms_eq del: game_consts)

lemma reset_run_not_Inl: "reset_run a s \<noteq> Some (Inl e)"
  by (cases "populate_rooms a (map room_grid [0..<ROOM_COUNT]) (s_rng s)")
    (auto simp: reset_run_def generate_static_dungeon_eq simp del: game_consts)

lemma reset_run_Inr:
  assumes "reset_run a s = Some (Inr s')"
  obtains rd r' where "populate_rooms a (map room_grid [0..<ROOM_COUNT]) (s_rng s) = Some (rd, r')"
    and "s' = s\<lparr>s_rooms := map room_grid [0..<ROOM_COUNT], s_doors := map room_doors [0..<ROOM_COUNT],
       s_data := rd, s_rng := r', s_player := new_player a, s_room := 0, s_projectiles := [],
       s_inventory := empty_inventory\<rparr>"
proof -
  note gen = generate_static_dungeon_eq [of a "s_rng s"]
  obtain rd r' where pop: "populate_rooms a (map room_grid [0..<ROOM_COUNT]) (s_rng s) = Some (rd, r')"
    using assms by (cases "populate_rooms a (map room_grid [0..<ROOM_COUNT]) (s_rng s)")
      (auto simp: reset_run_def gen simp del: game_consts)
  with assms show ?thesis
    by (intro that [OF pop]) (simp add: reset_run_def gen del: game_consts)
qed

lemma reset_run_inv:
  assumes "reset_run a s = Some (Inr s')"
  shows "session_inv s' \<and> alive (s_player s') \<and> s_state s' = s_state s \<and> s_running s' = s_running s"
proof -
  obtain rd r' where pop: "populate_rooms a (map room_grid [0..<ROOM_COUNT]) (s_rng s) = Some (rd, r')"
    and s': "s' = s\<lparr>s_rooms := map room_grid [0..<ROOM_COUNT], s_doors := map room_doors [0..<ROOM_COUNT],
       s_data := rd, s_rng := r', s_player := new_player a, s_room := 0, s_projectiles := [],
       s_inventory := empty_inventory\<rparr>"
    by (rule reset_run_Inr [OF assms])
  from populate_prefix [OF pop [unfolded populate_rooms_def]]
  have "length rd = ROOM_COUNT \<and> list_all room_ok rd" by blast
  with s' show ?thesis
    by (simp add: session_inv_def new_player_inv inventory_ok_empty del: game_consts)
      (simp add: new_player_def)
qed

subsubsection \<open>Events\<close>

lemma handle_sword_ok: "list_all enemy_ok es \<Longrightarrow> list_all enemy_ok (handle_sword p es)"
  by (auto simp: handle_sword_def list_all_iff enemy_ok_def enemy_take_damage_def)

lemma open_chests_fold_ok:
  "inventory_ok bag \<Longrightarrow>
   inventory_ok (snd (fold (\<lambda>c (acc, bag). let (c', bag') = chest_try_open r (c, bag) in (acc @ [c'], bag'))
     cs (ys, bag)))"
proof (induction cs arbitrary: ys bag)
  case Nil
  then show ?case by simp
next
  case (Cons c cs)
  from chest_try_open_ok [OF Cons.prems, of r c]
  show ?case using Cons.IH by (simp add: split_def Let_def)
qed

lemma open_chests_ok: "inventory_ok bag \<Longrightarrow> inventory_ok (snd (open_chests r cs bag))"
  unfolding open_chests_def by (rule open_chests_fold_ok)

lemma consume_item_inv:
  assumes "inventory_ok bag" and "player_inv p" and "alive p"
    and "consume_item it (bag, p) = (bag', p')"
  shows "inventory_ok bag' \<and> player_inv p' \<and> alive p'"
proof -
  have "0 \<le> item_heal it" by (cases it) (simp_all add: item_heal_def)
  with assms(2,3) have "player_inv (heal p (item_heal it))" by (simp add: heal_inv)
  with consume_item_ok [OF assms(1), of it p] assms show ?thesis
    by (auto simp: consume_item_def split: if_splits)
qed

lemma room_ok_update:
  "list_all room_ok ds \<Longrightarrow> room_ok d \<Longrightarrow> list_all room_ok (ds[i := d])"
  by (auto simp: list_all_iff dest: set_update_subset_insert [THEN subsetD])

lemma session_room_data:
  assumes "session_inv s"
  shows "py_nth (s_data s) (s_room s) = Inr (s_data s ! s_room s)" and "room_ok (s_data s ! s_room s)"
  using assms by (auto simp: session_inv_def list_all_iff simp del: game_consts)

lemma click_inv:
  assumes inv: "session_inv s" and play: "s_state s = Play" and ev: "click now pos s = Inr s'"
  shows "session_inv s' \<and> s_state s' = Play \<and> s_running s' = s_running s"
proof -
  obtain w es cs where d: "s_data s ! s_room s = (w, es, cs)" by (cases "s_data s ! s_room s") auto
  note nth = session_room_data [OF inv]
  from inv play have al: "alive (s_player s)" and pi: "player_inv (s_player s)"
    by (simp_all add: session_inv_def)
  from nth(2) d have es: "list_all enemy_ok es" by (simp add: room_ok_def)
  let ?p = "start_attack now (s_player s) pos"
  from ev have s': "s' = s\<lparr>s_player := ?p, s_data := (s_data s)[s_room s := (w, handle_sword ?p es, cs)]\<rparr>"
    by (simp add: click_def nth(1) d Let_def)
  have "player_inv ?p" and "alive ?p" using pi al by simp_all
  moreover have "room_ok (w, handle_sword ?p es, cs)" using handle_sword_ok [OF es] by (simp add: room_ok_def)
  ultimately show ?thesis
    using inv play unfolding s' session_inv_def by (simp add: room_ok_update del: game_consts)
qed

lemma eat_key_inv:
  assumes inv: "session_inv s" and play: "s_state s = Play"
  shows "session_inv (eat_key k s) \<and> s_state (eat_key k s) = Play \<and>
    s_running (eat_key k s) = s_running s \<and> s_data (eat_key k s) = s_data s \<and>
    s_room (eat_key k s) = s_room s"
proof (cases "food_key k")
  case None
  with inv play show ?thesis by (simp add: eat_key_def)
next
  case (Some it)
  from inv play have al: "alive (s_player s)" and pi: "player_inv (s_player s)"
    and bag: "inventory_ok (s_inventory s)" by (simp_all add: session_inv_def)
  obtain bag' p' where c: "consume_item it (s_inventory s, s_player s) = (bag', p')" by fastforce
  from consume_item_inv [OF bag pi al c] have "inventory_ok bag' \<and> player_inv p' \<and> alive p'" .
  with inv play Some c show ?thesis unfolding session_inv_def by (simp add: eat_key_def del: game_consts)
qed

lemma open_key_inv:
  assumes inv: "session_inv s" and play: "s_state s = Play" and ev: "open_key s = Inr s'"
  shows "session_inv s' \<and> s_state s' = Play \<and> s_running s' = s_running s"
proof -
  obtain w es cs where d: "s_data s ! s_room s = (w, es, cs)" by (cases "s_data s ! s_room s") auto
  note nth = session_room_data [OF inv]
  from inv have bag: "inventory_ok (s_inventory s)" by (simp add: session_inv_def)
  obtain cs' bag' where oc: "open_chests (player_rect (s_player s)) cs (s_inventory s) = (cs', bag')"
    by fastforce
  from open_chests_ok [OF bag, of "player_rect (s_player s)" cs] oc have "inventory_ok bag'" by simp
  moreover from ev have s': "s' = s\<lparr>s_inventory := bag', s_data := (s_data s)[s_room s := (w, es, cs')]\<rparr>"
    by (simp add: open_key_def nth(1) d oc)
  moreover from nth(2) d have "room_ok (w, es, cs')" by (simp add: room_ok_def)
  ultimately show ?thesis
    using inv play unfolding session_inv_def by (simp add: room_ok_update del: game_consts)
qed

lemma play_event_inv:
  assumes inv: "session_inv s" and play: "s_state s = Play"
    and ev: "play_event now e s = Inr s'"
  shows "session_inv s' \<and> s_state s' = Play \<and> s_running s' = s_running s"
proof (cases e)
  case Quit
  with ev inv play show ?thesis by (simp add: play_event_def)
next
  case (MouseDown b pos)
  with ev click_inv [OF inv play] inv play show ?thesis
    by (cases "b = 1") (simp_all add: play_event_def)
next
  case (KeyDown k)
  note ek = eat_key_inv [OF inv play, of k]
  show ?thesis
  proof (cases "k = K_e")
    case True
    with ev KeyDown have "open_key (eat_key k s) = Inr s'" by (simp add: play_event_def)
    with open_key_inv [of "eat_key k s"] ek show ?thesis by simp
  next
    case False
    with ev KeyDown ek show ?thesis by (simp add: play_event_def)
  qed
qed

lemma handle_event_inv:
  assumes inv: "session_inv s" and ev: "handle_event a now s e = Some (Inr s')"
  shows "session_inv s'"
proof -
  let ?s1 = "if e = Quit then s\<lparr>s_running := False\<rparr> else s"
  have inv1: "session_inv ?s1" and st1: "s_state ?s1 = s_state s"
    using inv by (simp_all add: session_inv_def)
  show ?thesis
  proof (cases "s_state s = Play")
    case True
    with ev st1 have "play_event now e ?s1 = Inr s'" by (simp add: handle_event_def Let_def)
    with play_event_inv [OF inv1] True st1 show ?thesis by simp
  next
    case False
    show ?thesis
    proof (cases "start_key e")
      case True
      with ev st1 False obtain r where rr0: "reset_run a ?s1 = Some r"
        and m: "map_sum id (\<lambda>s. s\<lparr>s_state := Play\<rparr>) r = Inr s'"
        by (auto simp: handle_event_def Let_def)
      from m obtain s2 where "r = Inr s2" and s': "s' = s2\<lparr>s_state := Play\<rparr>" by (cases r) auto
      with rr0 have rr: "reset_run a ?s1 = Some (Inr s2)" by simp
      from reset_run_inv [OF rr] s' show ?thesis by (simp add: session_inv_def)
    next
      case False
      with ev st1 \<open>s_state s \<noteq> Play\<close> inv1 show ?thesis by (simp add: handle_event_def Let_def)
    qed
  qed
qed

subsubsection \<open>Frames\<close>

lemma update_enemies_fold:
  assumes "list_all enemy_ok es" and "list_all enemy_ok acc"
  shows "\<exists>es1 fs1. fold (\<lambda>e acc. r_bind acc (\<lambda>(done, fs). r_bind (enemy_update wm now p walls (e, fs))
                                 (\<lambda>(e', fs'). Inr (done @ [e'], fs')))) es (Inr (acc, fs)) = Inr (es1, fs1) \<and>
    list_all enemy_ok es1"
  using assms
proof (induction es arbitrary: acc fs)
  case Nil
  then show ?case by simp
next
  case (Cons e es)
  from Cons.prems have "0 \<le> espeed e" by (simp add: enemy_ok_def)
  from enemy_update_total [OF this, of wm now p walls fs] obtain e' fs' where
    u: "enemy_update wm now p walls (e, fs) = Inr (e', fs')" by auto
  from enemy_update_fields [OF u] Cons.prems have "list_all enemy_ok (acc @ [e'])"
    by (auto simp: enemy_ok_def list_all_iff)
  from Cons.IH [OF _ this, of fs'] Cons.prems u show ?case by simp
qed

lemma update_enemies_ok:
  "list_all enemy_ok es \<Longrightarrow>
   \<exists>es1 fs1. update_enemies wm now p walls es fs = Inr (es1, fs1) \<and> list_all enemy_ok es1"
  unfolding update_enemies_def by (rule update_enemies_fold) simp_all

lemma fireball_update_player:
  "snd (fireball_update now g (f, p)) = p \<or> snd (fireball_update now g (f, p)) = take_damage now p FIREBALL_DAMAGE"
  by (auto simp: fireball_update_def Let_def)

lemma update_fireballs_fold:
  "player_inv p \<Longrightarrow>
   player_inv (snd (fold (\<lambda>f (acc, p). let (f', p') = fireball_update now g (f, p) in (acc @ [f'], p')) fs (ys, p)))"
proof (induction fs arbitrary: ys p)
  case Nil
  then show ?case by simp
next
  case (Cons f fs)
  have "player_inv (snd (fireball_update now g (f, p)))"
    using fireball_update_player [of now g f p] take_damage_inv [OF _ Cons.prems, of FIREBALL_DAMAGE now]
      Cons.prems by auto
  with Cons.IH show ?case by (simp add: split_def Let_def)
qed

lemma update_fireballs_inv: "player_inv p \<Longrightarrow> player_inv (snd (update_fireballs now g fs p))"
  unfolding update_fireballs_def by (rule update_fireballs_fold)

lemma find_Some_mem: "find P xs = Some x \<Longrightarrow> x \<in> set xs"
  by (induction xs) (auto split: if_splits)

lemma handle_melee_inv:
  assumes "player_inv p" and "list_all enemy_ok es"
  shows "player_inv (handle_melee now p es)"
proof (cases "find (melee_hits p) es")
  case None
  with assms show ?thesis by (simp add: handle_melee_def melee_fold_first)
next
  case (Some e)
  from find_Some_mem [OF Some] assms(2) have "0 \<le> contact_damage e"
    by (auto simp: list_all_iff enemy_ok_def)
  from take_damage_inv [OF this assms(1)] Some assms(1) show ?thesis
    by (simp add: handle_melee_def melee_fold_first)
qed

lemma transition_step:
  assumes "cur < ROOM_COUNT"
    and "try_room_transition (map room_doors [0..<ROOM_COUNT]) cur p = Inr (t, p')"
  shows "t < ROOM_COUNT \<and> (\<exists>x y. p' = p\<lparr>px := x, py := y\<rparr>)"
proof -
  from assms(1) NEIGHBORS_dom obtain n where n: "NEIGHBORS cur = Some n" by auto
  have tr: "n d = Some t0 \<Longrightarrow> t0 < ROOM_COUNT" for d t0 by (rule NEIGHBORS_target_range [OF n])
  from assms(2) have "(case touched_door (room_doors cur) p of
       None \<Rightarrow> Inr (cur, p)
     | Some d \<Rightarrow> (case n d of
         None \<Rightarrow> Inr (cur, p)
       | Some t \<Rightarrow> if entry_fails d t then Inl KeyError
                  else Inr (t, p\<lparr>px := of_int (fst (arrival d t (pwidth p) (pheight p))),
                                  py := of_int (snd (arrival d t (pwidth p) (pheight p)))\<rparr>))) = Inr (t, p')"
    by (simp only: transition_static [OF n])
  moreover have "\<exists>x y. p = p\<lparr>px := x, py := y\<rparr>"
    by (rule exI [of _ "px p"], rule exI [of _ "py p"]) simp
  ultimately show ?thesis using assms(1) tr
    by (auto split: option.splits if_splits)
qed

lemma frame_end_inv:
  assumes inv: "session_inv s" and cur: "cur < ROOM_COUNT" and es: "list_all enemy_ok es1"
    and pi: "player_inv p3"
  shows "session_inv (frame_end now s cur g walls cs es1 fs1 p3)"
proof -
  let ?es2 = "purge_enemies es1"
  let ?p5 = "snd (update_fireballs now g fs1 (handle_melee now p3 ?es2))"
  have es2: "list_all enemy_ok ?es2" using es by (simp add: purge_enemies_def list_all_iff)
  have p5: "player_inv ?p5" by (rule update_fireballs_inv [OF handle_melee_inv [OF pi es2]])
  have "room_ok (walls, ?es2, cs)" using es2 by (simp add: room_ok_def)
  with inv cur p5 show ?thesis
    by (simp add: frame_end_def session_inv_def split_def Let_def room_ok_update del: game_consts)
qed

lemma frame_unfold:
  assumes inv: "session_inv s"
  shows "frame a now keys s =
    r_bind (try_room_transition (map room_doors [0..<ROOM_COUNT]) (s_room s)
      (player_move (wall_mask a) (s_player s) (axis (keys K_d \<or> keys K_RIGHT) (keys K_a \<or> keys K_LEFT))
         (axis (keys K_s \<or> keys K_DOWN) (keys K_w \<or> keys K_UP)) (fst (s_data s ! s_room s))))
      (\<lambda>(cur, p2). frame_room a now s cur (update_attack now p2))"
proof -
  obtain w0 es0 cs0 where d0: "s_data s ! s_room s = (w0, es0, cs0)" by (cases "s_data s ! s_room s") auto
  from inv have rooms: "s_rooms s = map room_grid [0..<ROOM_COUNT]" and doors: "s_doors s = map room_doors [0..<ROOM_COUNT]"
    and r0: "s_room s < ROOM_COUNT"
    by (simp_all add: session_inv_def)
  show ?thesis
    by (simp add: frame_def Let_def session_room_data(1) [OF inv] d0 rooms doors r0 del: game_consts)
qed

lemma frame_room_ok:
  assumes inv: "session_inv s" and cur: "cur < ROOM_COUNT"
  obtains es1 fs1 where
    "frame_room a now s cur p =
       Inr (frame_end now s cur (room_grid cur) (fst (s_data s ! cur)) (snd (snd (s_data s ! cur))) es1 fs1 p)"
    and "list_all enemy_ok es1"
proof -
  from inv have rooms: "s_rooms s = map room_grid [0..<ROOM_COUNT]" and len: "length (s_data s) = ROOM_COUNT"
    and rok: "list_all room_ok (s_data s)"
    by (simp_all add: session_inv_def)
  obtain w es cs where d: "s_data s ! cur = (w, es, cs)" by (cases "s_data s ! cur") auto
  have "s_data s ! cur \<in> set (s_data s)" using len cur by simp
  with rok d have es: "list_all enemy_ok es" by (auto simp: list_all_iff room_ok_def)
  from update_enemies_ok [OF es] obtain es1 fs1 where
    ue: "update_enemies (wall_mask a) now p w es (s_projectiles s) = Inr (es1, fs1)"
    and es1: "list_all enemy_ok es1" by blast
  have "frame_room a now s cur p = Inr (frame_end now s cur (room_grid cur) w cs es1 fs1 p)"
    using len cur by (simp add: frame_room_def d rooms ue del: game_consts)
  with d es1 that show ?thesis by simp
qed

lemma frame_inv:
  assumes inv: "session_inv s" and fr: "frame a now keys s = Inr s'"
  shows "session_inv s'"
proof -
  from inv have r0: "s_room s < ROOM_COUNT" and pi: "player_inv (s_player s)" by (simp_all add: session_inv_def)
  let ?p1 = "player_move (wall_mask a) (s_player s) (axis (keys K_d \<or> keys K_RIGHT) (keys K_a \<or> keys K_LEFT))
               (axis (keys K_s \<or> keys K_DOWN) (keys K_w \<or> keys K_UP)) (fst (s_data s ! s_room s))"
  from fr obtain cur p2 where tr: "try_room_transition (map room_doors [0..<ROOM_COUNT]) (s_room s) ?p1 = Inr (cur, p2)"
    and frr: "frame_room a now s cur (update_attack now p2) = Inr s'"
    by (auto simp: frame_unfold [OF inv] r_bind_Inr_iff simp del: game_consts)
  from transition_step [OF r0 tr] obtain x y where
    cur: "cur < ROOM_COUNT" and p2: "p2 = ?p1\<lparr>px := x, py := y\<rparr>" by blast
  have pi3: "player_inv (update_attack now p2)" using pi by (simp add: p2 player_inv_def)
  obtain es1 fs1 where "frame_room a now s cur (update_attack now p2) =
      Inr (frame_end now s cur (room_grid cur) (fst (s_data s ! cur)) (snd (snd (s_data s ! cur))) es1 fs1
             (update_attack now p2))" and es1: "list_all enemy_ok es1"
    by (rule frame_room_ok [OF inv cur])
  with frr have "s' = frame_end now s cur (room_grid cur) (fst (s_data s ! cur)) (snd (snd (s_data s ! cur)))
      es1 fs1 (update_attack now p2)" by simp
  then show ?thesis by (simp only: frame_end_inv [OF inv cur es1 pi3])
qed

subsubsection \<open>Main loop\<close>

lemma handle_events_fold_Inl:
  "fold (\<lambda>ev acc. acc \<bind> (\<lambda>r. case r of Inl err \<Rightarrow> Some (Inl err) | Inr s \<Rightarrow> handle_event a now s ev)) evs
     (Some (Inl err)) = Some (Inl err)"
  by (induction evs) simp_all

lemma handle_events_Cons:
  "handle_events a now (ev # evs) s =
     (case handle_event a now s ev of
        None \<Rightarrow> None
      | Some (Inl err) \<Rightarrow> Some (Inl err)
      | Some (Inr s1) \<Rightarrow> handle_events a now evs s1)"
  by (simp add: handle_events_def fold_bind_None handle_events_fold_Inl split: option.split sum.split)

lemma handle_events_inv:
  "session_inv s \<Longrightarrow> handle_events a now evs s = Some (Inr s') \<Longrightarrow> session_inv s'"
proof (induction evs arbitrary: s)
  case Nil
  then show ?case by (simp add: handle_events_def)
next
  case (Cons ev evs)
  then obtain s1 where "handle_event a now s ev = Some (Inr s1)" and "handle_events a now evs s1 = Some (Inr s')"
    by (auto simp: handle_events_Cons split: option.splits sum.splits)
  with Cons.IH handle_event_inv [OF Cons.prems(1)] show ?case by blast
qed

lemma loop_iter_inv:
  assumes "session_inv s" and "loop_iter a now evs keys s = Some (Inr s')"
  shows "session_inv s'"
proof -
  from assms(2) obtain s1 where ev: "handle_events a now evs s = Some (Inr s1)"
    and fr: "(if s_state s1 = Play then frame a now keys s1 else Inr s1) = Inr s'"
    by (cases "handle_events a now evs s") (auto simp: loop_iter_def split: sum.splits)
  from handle_events_inv [OF assms(1) ev] have "session_inv s1" .
  with fr frame_inv show ?thesis by (auto split: if_splits)
qed

lemma map_sum_id_Inl: "map_sum id f x = Inl e \<longleftrightarrow> x = Inl e"
  by (cases x) auto

lemma map_sum_id_Inr: "map_sum id f x = Inr y \<longleftrightarrow> (\<exists>z. x = Inr z \<and> y = f z)"
  by (cases x) auto

lemma click_Inr: "session_inv s \<Longrightarrow> \<exists>s'. click now pos s = Inr s'"
  by (cases "s_data s ! s_room s") (simp add: click_def session_room_data(1) Let_def)

lemma open_key_Inr: "session_inv s \<Longrightarrow> \<exists>s'. open_key s = Inr s'"
  by (cases "s_data s ! s_room s") (simp add: open_key_def session_room_data(1) split_def Let_def)

lemma play_event_Inr:
  assumes inv: "session_inv s" and play: "s_state s = Play"
  shows "\<exists>s'. play_event now e s = Inr s'"
proof (cases e)
  case (KeyDown k)
  from eat_key_inv [OF inv play, of k] have "session_inv (eat_key k s)" by simp
  from open_key_Inr [OF this] KeyDown show ?thesis by (auto simp: play_event_def Let_def)
qed (simp_all add: play_event_def click_Inr [OF inv])

lemma handle_event_not_Inl:
  assumes "session_inv s"
  shows "handle_event a now s ev \<noteq> Some (Inl e)"
proof -
  let ?s1 = "if ev = Quit then s\<lparr>s_running := False\<rparr> else s"
  have eq: "handle_event a now s ev =
      (if s_state ?s1 = Play then Some (play_event now ev ?s1)
       else if start_key ev then map_option (map_sum id (\<lambda>s'. s'\<lparr>s_state := Play\<rparr>)) (reset_run a ?s1)
       else Some (Inr ?s1))"
    by (simp only: handle_event_def Let_def)
  have "session_inv ?s1" and "s_state ?s1 = s_state s" using assms by (simp_all add: session_inv_def)
  with play_event_Inr [of ?s1 now ev] have "s_state ?s1 = Play \<Longrightarrow> play_event now ev ?s1 \<noteq> Inl e" by auto
  moreover have "map_option (map_sum id (\<lambda>s'. s'\<lparr>s_state := Play\<rparr>)) (reset_run a ?s1) \<noteq> Some (Inl e)"
    using reset_run_not_Inl [of a ?s1] by (cases "reset_run a ?s1") (auto simp: map_sum_id_Inl)
  ultimately show ?thesis unfolding eq by auto
qed

lemma handle_events_not_Inl: "session_inv s \<Longrightarrow> handle_events a now evs s \<noteq> Some (Inl e)"
proof (induction evs arbitrary: s)
  case Nil
  then show ?case by (simp add: handle_events_def)
next
  case (Cons ev evs)
  with handle_event_not_Inl [OF Cons.prems, of a now ev e] handle_event_inv [OF Cons.prems]
  show ?case by (auto simp: handle_events_Cons split: option.splits sum.splits)
qed

lemma transition_error:
  assumes "cur < ROOM_COUNT"
    and "try_room_transition (map room_doors [0..<ROOM_COUNT]) cur p = Inl e"
  shows "e = KeyError"
proof -
  from assms(1) NEIGHBORS_dom obtain n where n: "NEIGHBORS cur = Some n" by auto
  from assms(2) show ?thesis
    by (simp only: transition_static [OF n]) (auto split: option.splits if_splits)
qed

lemma frame_error:
  assumes inv: "session_inv s" and fr: "frame a now keys s = Inl e"
  shows "e = KeyError \<and> (\<exists>p. try_room_transition (s_doors s) (s_room s) p = Inl KeyError)"
proof -
  from inv have r0: "s_room s < ROOM_COUNT" and doors: "s_doors s = map room_doors [0..<ROOM_COUNT]"
    by (simp_all add: session_inv_def)
  let ?p1 = "player_move (wall_mask a) (s_player s) (axis (keys K_d \<or> keys K_RIGHT) (keys K_a \<or> keys K_LEFT))
               (axis (keys K_s \<or> keys K_DOWN) (keys K_w \<or> keys K_UP)) (fst (s_data s ! s_room s))"
  show ?thesis
  proof (cases "try_room_transition (map room_doors [0..<ROOM_COUNT]) (s_room s) ?p1")
    case (Inl e')
    with fr have "e' = e" by (simp add: frame_unfold [OF inv] del: game_consts)
    with transition_error [OF r0 Inl] Inl doors show ?thesis by auto
  next
    case (Inr cp)
    obtain cur p2 where cp: "cp = (cur, p2)" by (cases cp)
    from transition_step [OF r0 Inr [unfolded cp]] have cur: "cur < ROOM_COUNT" by blast
    from frame_room_ok [OF inv cur, of a now "update_attack now p2"] fr Inr cp show ?thesis
      by (auto simp: frame_unfold [OF inv] simp del: game_consts)
  qed
qed

lemma click_ctl: "click now pos s = Inr s' \<Longrightarrow> s_state s' = s_state s \<and> s_running s' = s_running s"
  by (auto simp: click_def Let_def r_bind_Inr_iff)

lemma open_key_ctl: "open_key s = Inr s' \<Longrightarrow> s_state s' = s_state s \<and> s_running s' = s_running s"
  by (auto simp: open_key_def Let_def split_def r_bind_Inr_iff)

lemma eat_key_ctl [simp]:
  "s_state (eat_key k s) = s_state s" "s_running (eat_key k s) = s_running s"
  by (simp_all add: eat_key_def split_def Let_def split: option.split)

lemma play_event_ctl:
  "play_event now ev s = Inr s' \<Longrightarrow> s_state s' = s_state s \<and> s_running s' = s_running s"
  by (cases ev) (auto simp: play_event_def Let_def dest: click_ctl open_key_ctl split: if_splits)

lemma r_bindE: "r_bind x f = Inr y \<Longrightarrow> (\<And>v. x = Inr v \<Longrightarrow> f v = Inr y \<Longrightarrow> P) \<Longrightarrow> P"
  by (cases x) auto

lemma frame_end_running [simp]: "s_running (frame_end now s cur g walls cs es1 fs1 p3) = s_running s"
  by (simp add: frame_end_def Let_def split_def)

lemma frame_end_state_cases: "s_state (frame_end now s cur g walls cs es1 fs1 p3) \<in> {s_state s, Gameover, Win}"
  by (simp add: frame_end_def Let_def split_def)

lemma frame_room_end:
  "frame_room a now s cur p = Inr s' \<Longrightarrow>
     cur < length (s_data s) \<and> (\<exists>g w cs es1 fs1. s' = frame_end now s cur g w cs es1 fs1 p)"
  unfolding frame_room_def split_def py_nth_def by (auto elim!: r_bindE split: if_splits) blast

lemma frame_end_ex:
  "frame a now keys s = Inr s' \<Longrightarrow>
     \<exists>cur p g w cs es1 fs1. cur < length (s_data s) \<and> s' = frame_end now s cur g w cs es1 fs1 p"
  unfolding frame_def Let_def split_def by (auto elim!: r_bindE dest!: frame_room_end) blast

lemma frame_running: "frame a now keys s = Inr s' \<Longrightarrow> s_running s' = s_running s"
  by (auto dest: frame_end_ex)

lemma frame_end_outcome:
  assumes "cur < length (s_data s)" and "s' = frame_end now s cur g walls cs es1 fs1 p3"
  shows "s_state s' = s_state s \<or> s_state s' = Gameover \<and> \<not> alive (s_player s') \<or>
    s_state s' = Win \<and> s_room s' = FINAL_ROOM_INDEX \<and>
      list_all (\<lambda>e. \<not> enemy_alive e) (fst (snd (s_data s' ! s_room s')))"
  using assms by (simp add: frame_end_def Let_def split_def)

lemma frame_outcome:
  assumes "frame a now keys s = Inr s'"
  shows "s_state s' = s_state s \<or> s_state s' = Gameover \<and> \<not> alive (s_player s') \<or>
    s_state s' = Win \<and> s_room s' = FINAL_ROOM_INDEX \<and>
      list_all (\<lambda>e. \<not> enemy_alive e) (fst (snd (s_data s' ! s_room s')))"
  using frame_end_ex [OF assms] frame_end_outcome by blast

lemma handle_event_running:
  assumes ev: "handle_event a now s ev = Some (Inr s')"
  shows "s_running s' = (s_running s \<and> ev \<noteq> Quit)"
proof -
  define s1 where "s1 = (if ev = Quit then s\<lparr>s_running := False\<rparr> else s)"
  have r1: "s_running s1 = (s_running s \<and> ev \<noteq> Quit)" by (simp add: s1_def)
  have h: "(if s_state s1 = Play then Some (play_event now ev s1)
       else if start_key ev then map_option (map_sum id (\<lambda>s'. s'\<lparr>s_state := Play\<rparr>)) (reset_run a s1)
       else Some (Inr s1)) = Some (Inr s')"
    using ev by (simp only: handle_event_def Let_def s1_def)
  show ?thesis
  proof (cases "s_state s1 = Play")
    case True
    with h play_event_ctl [of now ev s1] r1 show ?thesis by simp
  next
    case False
    show ?thesis
    proof (cases "start_key ev")
      case True
      with h False obtain s2 where "reset_run a s1 = Some (Inr s2)" and "s' = s2\<lparr>s_state := Play\<rparr>"
        by (auto simp: map_sum_id_Inr)
      with reset_run_inv [of a s1] r1 show ?thesis by simp
    next
      case False
      with h \<open>s_state s1 \<noteq> Play\<close> r1 show ?thesis by simp
    qed
  qed
qed

lemma handle_events_running:
  "handle_events a now evs s = Some (Inr s') \<Longrightarrow> s_running s' = (s_running s \<and> Quit \<notin> set evs)"
proof (induction evs arbitrary: s)
  case Nil
  then show ?case by (simp add: handle_events_def)
next
  case (Cons ev evs)
  then obtain s1 where "handle_event a now s ev = Some (Inr s1)" and "handle_events a now evs s1 = Some (Inr s')"
    by (auto simp: handle_events_Cons split: option.splits sum.splits)
  with Cons.IH handle_event_running show ?case by fastforce
qed

lemma handle_event_state:
  assumes ev: "handle_event a now s ev = Some (Inr s')"
  shows "s_state s' = s_state s \<or> s_state s \<noteq> Play \<and> start_key ev \<and> s_state s' = Play"
proof -
  define s1 where "s1 = (if ev = Quit then s\<lparr>s_running := False\<rparr> else s)"
  have st1: "s_state s1 = s_state s" by (simp add: s1_def)
  have h: "(if s_state s1 = Play then Some (play_event now ev s1)
       else if start_key ev then map_option (map_sum id (\<lambda>s'. s'\<lparr>s_state := Play\<rparr>)) (reset_run a s1)
       else Some (Inr s1)) = Some (Inr s')"
    using ev by (simp only: handle_event_def Let_def s1_def)
  show ?thesis
  proof (cases "s_state s1 = Play")
    case True
    with h play_event_ctl [of now ev s1] st1 show ?thesis by simp
  next
    case False
    with h st1 show ?thesis
      by (auto simp: map_sum_id_Inr split: if_splits)
  qed
qed

lemma handle_events_state:
  "handle_events a now evs s = Some (Inr s') \<Longrightarrow>
     s_state s' = s_state s \<or> s_state s \<noteq> Play \<and> list_ex start_key evs \<and> s_state s' = Play"
proof (induction evs arbitrary: s)
  case Nil
  then show ?case by (simp add: handle_events_def)
next
  case (Cons ev evs)
  then obtain s1 where "handle_event a now s ev = Some (Inr s1)" and "handle_events a now evs s1 = Some (Inr s')"
    by (auto simp: handle_events_Cons split: option.splits sum.splits)
  with Cons.IH [of s1] handle_event_state [of a now s ev s1] show ?case by auto
qed

lemma game_step_Start: "st \<noteq> Play \<Longrightarrow> game_step st Start Play"
  by (cases st) (auto intro: game_step.intros)

subsection \<open>Properties of the session\<close>

lemma sample_run_starts:
  "\<exists>s. reset_run sample_assets (blank_session sample_assets \<lparr>draws = id, rpos = 0\<rparr>) = Some (Inr s)"
proof -
  have "case reset_run sample_assets (blank_session sample_assets \<lparr>draws = id, rpos = 0\<rparr>) of
          Some (Inr s) \<Rightarrow> True | _ \<Rightarrow> False"
    by code_simp
  then show ?thesis by (auto split: option.splits sum.splits)
qed

text \<open>
  C2: every session the program reaches (the one \<open>reset_run()\<close> builds at start-up, then
  any number of iterations of the main loop that return) satisfies the session
  invariant: the room lists are the static dungeon's, every room has its entities and
  its enemies have non-negative contact damage and speed, the current room is a room,
  the inventory counts are within \<open>[0, 5]\<close>, the player's health invariant holds, and
  in the play state the player is alive.
\<close>

theorem reachable_session_inv: "reachable a s \<Longrightarrow> session_inv s"
proof (induction rule: reachable.induct)
  case (start r s)
  then show ?case using reset_run_inv by blast
next
  case (step s now evs keys s')
  then show ?case using loop_iter_inv by blast
qed

theorem reachable_session_inv_witness:
  "\<exists>s. reachable sample_assets s \<and> session_inv s"
proof -
  from sample_run_starts obtain s where
    "reset_run sample_assets (blank_session sample_assets \<lparr>draws = id, rpos = 0\<rparr>) = Some (Inr s)" ..
  then have "reachable sample_assets s" by (rule reachable.start)
  with reachable_session_inv [OF this] show ?thesis by blast
qed

text \<open>
  C3: from a session that satisfies the invariant, the only exception an iteration of
  the main loop raises is the KeyError of \<open>try_room_transition\<close>: the event handlers and
  \<open>reset_run\<close> never raise, every list index of the frame is in range and the enemy
  updates never raise; the exception is raised in the play state, after all events.
\<close>

theorem loop_iter_KeyError:
  assumes "session_inv s" and "loop_iter a now evs keys s = Some (Inl e)"
  shows "e = KeyError \<and>
    (\<exists>s1 p. handle_events a now evs s = Some (Inr s1) \<and> s_state s1 = Play \<and>
            try_room_transition (s_doors s1) (s_room s1) p = Inl KeyError)"
proof -
  from assms(2) obtain r where ev: "handle_events a now evs s = Some r"
    by (cases "handle_events a now evs s") (simp_all add: loop_iter_def)
  with handle_events_not_Inl [OF assms(1)] obtain s1 where ev1: "handle_events a now evs s = Some (Inr s1)"
    by (cases r) auto
  with assms(2) have fr: "(if s_state s1 = Play then frame a now keys s1 else Inr s1) = Inl e"
    by (simp add: loop_iter_def)
  then have play: "s_state s1 = Play" by (simp split: if_splits)
  with fr have "frame a now keys s1 = Inl e" by simp
  from frame_error [OF handle_events_inv [OF assms(1) ev1] this] ev1 play show ?thesis by blast
qed

theorem loop_iter_KeyError_witness:
  "\<exists>s. session_inv s \<and> loop_iter sample_assets 0 [] (\<lambda>_. False) s = Some (Inl KeyError) \<and>
     (\<exists>s1 p. handle_events sample_assets 0 [] s = Some (Inr s1) \<and> s_state s1 = Play \<and>
            try_room_transition (s_doors s1) (s_room s1) p = Inl KeyError)"
proof -
  from sample_run_starts obtain s0 where
    s0: "reset_run sample_assets (blank_session sample_assets \<lparr>draws = id, rpos = 0\<rparr>) = Some (Inr s0)" ..
  have inv0: "session_inv s0" using reset_run_inv [OF s0] by simp
  let ?p = "(new_player sample_assets)\<lparr>px := 770, py := 260\<rparr>"
  let ?s = "s0\<lparr>s_state := Play, s_room := 5, s_player := ?p\<rparr>"
  have pi: "player_inv ?p" using new_player_inv [of sample_assets] by (simp add: player_inv_def)
  have al: "alive ?p" by (simp add: new_player_def)
  have inv: "session_inv ?s" using inv0 pi al by (simp add: session_inv_def)
  obtain n where n: "NEIGHBORS 5 = Some n" using NEIGHBORS_dom [of 5] by auto
  then have nv: "n North = Some 4" "n South = None" "n East = Some 8"
    by (auto simp: NEIGHBORS_def neighbor_rows_def nbrs_def)
  have td: "touched_door (room_doors 5) ?p = Some East"
    by (simp add: room_doors_eq [OF n] nv touched_door_def touches_def door_map_def door_rect_def
        colliderect_def player_rect_def new_player_def sample_assets_def ROOM_W_val ROOM_H_val)
  have ef: "entry_fails East 8" using room_table_at [OF n nv(3)] by simp
  have tr: "try_room_transition (map room_doors [0..<ROOM_COUNT]) 5 ?p = Inl KeyError"
    by (simp only: transition_static [OF n]) (simp add: td nv ef)
  obtain w es cs where d: "s_data s0 ! 5 = (w, es, cs)" by (cases "s_data s0 ! 5") auto
  from inv0 have len: "length (s_data s0) = ROOM_COUNT" and rooms: "s_rooms s0 = map room_grid [0..<ROOM_COUNT]"
    and doors: "s_doors s0 = map room_doors [0..<ROOM_COUNT]"
    by (simp_all add: session_inv_def)
  have "(5::nat) < ROOM_COUNT" by simp
  have li: "loop_iter sample_assets 0 [] (\<lambda>_. False) ?s = Some (Inl KeyError)"
    using len tr \<open>(5::nat) < ROOM_COUNT\<close> by (simp add: loop_iter_def handle_events_def frame_def axis_def player_move_def
      d rooms doors del: game_consts)
  from loop_iter_KeyError [OF inv li] have "\<exists>s1 p. handle_events sample_assets 0 [] ?s = Some (Inr s1) \<and>
      s_state s1 = Play \<and> try_room_transition (s_doors s1) (s_room s1) p = Inl KeyError" by simp
  with inv li show ?thesis by blast
qed

text \<open>
  A frame in the final room that kills the player with a fireball while no enemy is left
  ends in the win state with a dead player.
\<close>

lemma win_while_dead:
  "let s' = frame_end 0 s FINAL_ROOM_INDEX (replicate ROOM_H (replicate ROOM_W 0)) [] [] []
              [new_fireball 80 80 0 0] ((new_player sample_assets)\<lparr>health := 1\<rparr>)
   in s_state s' = Win \<and> \<not> alive (s_player s')"
  by (simp add: frame_end_def Let_def purge_enemies_def handle_melee_def update_fireballs_def
      fireball_update_def new_fireball_def fireball_rect_def player_rect_def new_player_def
      sample_assets_def colliderect_def take_damage_def py_int_def cell_def)

text \<open>
  C9: an iteration of the main loop that returns clears the \<open>running\<close> flag exactly when
  a QUIT event was among its events (or it was already clear), so the \<open>while running\<close>
  loop ends after the iteration that reads a QUIT event; no handler sets it again.
\<close>

theorem loop_iter_quit:
  assumes "loop_iter a now evs keys s = Some (Inr s')"
  shows "s_running s' \<longleftrightarrow> s_running s \<and> Quit \<notin> set evs"
proof -
  from assms obtain r where ev: "handle_events a now evs s = Some r"
    by (cases "handle_events a now evs s") (simp_all add: loop_iter_def)
  with assms obtain s1 where ev1: "handle_events a now evs s = Some (Inr s1)"
    and fr: "(if s_state s1 = Play then frame a now keys s1 else Inr s1) = Inr s'"
    by (cases r) (simp_all add: loop_iter_def)
  from fr frame_running [of a now keys s1 s'] have "s_running s' = s_running s1"
    by (simp split: if_splits)
  with handle_events_running [OF ev1] show ?thesis by simp
qed

theorem loop_iter_quit_witness:
  "loop_iter sample_assets 0 [Quit] (\<lambda>_. False) (blank_session sample_assets \<lparr>draws = id, rpos = 0\<rparr>) =
     Some (Inr ((blank_session sample_assets \<lparr>draws = id, rpos = 0\<rparr>)\<lparr>s_running := False\<rparr>)) \<and>
   \<not> s_running ((blank_session sample_assets \<lparr>draws = id, rpos = 0\<rparr>)\<lparr>s_running := False\<rparr>)"
proof -
  have li: "loop_iter sample_assets 0 [Quit] (\<lambda>_. False) (blank_session sample_assets \<lparr>draws = id, rpos = 0\<rparr>) =
     Some (Inr ((blank_session sample_assets \<lparr>draws = id, rpos = 0\<rparr>)\<lparr>s_running := False\<rparr>))"
    by (simp add: loop_iter_def handle_events_def handle_event_def blank_session_def start_key_def)
  from loop_iter_quit [OF li] li show ?thesis by simp
qed

text \<open>
  C10: outside the play state, Enter or Space restarts the run: the new session is in the
  play state with a fresh player in room 0, no fireballs, an empty inventory, the static
  dungeon's rooms and doors, the running flag unchanged, and it satisfies the session
  invariant.
\<close>

theorem restart_resets:
  assumes "s_state s \<noteq> Play" and "start_key ev" and "handle_event a now s ev = Some (Inr s')"
  shows "s_state s' = Play \<and> s_player s' = new_player a \<and> s_room s' = 0 \<and> s_projectiles s' = [] \<and>
    s_inventory s' = empty_inventory \<and> s_rooms s' = map room_grid [0..<ROOM_COUNT] \<and>
    s_doors s' = map room_doors [0..<ROOM_COUNT] \<and> s_running s' = s_running s \<and> session_inv s'"
proof -
  from assms(2) have "ev \<noteq> Quit" by (auto simp: start_key_def)
  with assms obtain s2 where rr: "reset_run a s = Some (Inr s2)" and s': "s' = s2\<lparr>s_state := Play\<rparr>"
    by (auto simp: handle_event_def map_sum_id_Inr)
  obtain rd r' where "s2 = s\<lparr>s_rooms := map room_grid [0..<ROOM_COUNT], s_doors := map room_doors [0..<ROOM_COUNT],
       s_data := rd, s_rng := r', s_player := new_player a, s_room := 0, s_projectiles := [],
       s_inventory := empty_inventory\<rparr>"
    by (rule reset_run_Inr [OF rr])
  with reset_run_inv [OF rr] s' show ?thesis by (simp add: session_inv_def)
qed

theorem restart_resets_witness:
  "\<exists>s'. s_state (blank_session sample_assets \<lparr>draws = id, rpos = 0\<rparr>) \<noteq> Play \<and> start_key (KeyDown K_RETURN) \<and>
     handle_event sample_assets 0 (blank_session sample_assets \<lparr>draws = id, rpos = 0\<rparr>) (KeyDown K_RETURN) =
       Some (Inr s') \<and>
     s_state s' = Play \<and> s_room s' = 0 \<and> s_player s' = new_player sample_assets"
proof -
  let ?b = "blank_session sample_assets \<lparr>draws = id, rpos = 0\<rparr>"
  from sample_run_starts obtain s0 where s0: "reset_run sample_assets ?b = Some (Inr s0)" ..
  have st: "s_state ?b \<noteq> Play" and sk: "start_key (KeyDown K_RETURN)"
    by (simp_all add: blank_session_def start_key_def)
  have he: "handle_event sample_assets 0 ?b (KeyDown K_RETURN) = Some (Inr (s0\<lparr>s_state := Play\<rparr>))"
    using s0 st by (simp add: handle_event_def start_key_def)
  from restart_resets [OF st sk he] st sk he show ?thesis by blast
qed

text \<open>
  C12: an iteration of the main loop refines the labelled machine \<open>game_step\<close> in two
  phases.  Its events make at most one \<open>Start\<close> step, and only if a start key was
  among them.  Its frame, which runs only in the play state, then makes at most one
  step: \<open>Die\<close> to game over only with a dead player, or \<open>Clear\<close> to the win state
  only in the final room with no live enemy left.
\<close>

theorem loop_iter_refines:
  assumes "loop_iter a now evs keys s = Some (Inr s')"
  shows "\<exists>m. (m = s_state s \<or> game_step (s_state s) Start m \<and> list_ex start_key evs) \<and>
    (s_state s' = m \<or>
     m = Play \<and>
       (game_step Play Die (s_state s') \<and> \<not> alive (s_player s') \<or>
        game_step Play Clear (s_state s') \<and> s_room s' = FINAL_ROOM_INDEX \<and>
          list_all (\<lambda>e. \<not> enemy_alive e) (fst (snd (s_data s' ! s_room s')))))"
proof -
  from assms obtain r where ev: "handle_events a now evs s = Some r"
    by (cases "handle_events a now evs s") (simp_all add: loop_iter_def)
  with assms obtain s1 where ev1: "handle_events a now evs s = Some (Inr s1)"
    and fr: "(if s_state s1 = Play then frame a now keys s1 else Inr s1) = Inr s'"
    by (cases r) (simp_all add: loop_iter_def)
  have ph1: "s_state s1 = s_state s \<or> game_step (s_state s) Start (s_state s1) \<and> list_ex start_key evs"
    using handle_events_state [OF ev1] game_step_Start by auto
  have "s_state s' = s_state s1 \<or> s_state s1 = Play \<and>
       (game_step Play Die (s_state s') \<and> \<not> alive (s_player s') \<or>
        game_step Play Clear (s_state s') \<and> s_room s' = FINAL_ROOM_INDEX \<and>
          list_all (\<lambda>e. \<not> enemy_alive e) (fst (snd (s_data s' ! s_room s'))))"
  proof (cases "s_state s1 = Play")
    case True
    with fr have "frame a now keys s1 = Inr s'" by simp
    from frame_outcome [OF this] True show ?thesis by (auto intro: game_step.intros)
  next
    case False
    with fr show ?thesis by simp
  qed
  with ph1 show ?thesis by blast
qed

theorem loop_iter_refines_witness:
  "\<exists>s'. loop_iter sample_assets 0 [] (\<lambda>_. False)
          \<lparr>s_state = Play, s_running = True, s_player = new_player sample_assets, s_room = 9,
           s_projectiles = [], s_inventory = empty_inventory, s_rooms = map room_grid [0..<ROOM_COUNT],
           s_doors = map room_doors [0..<ROOM_COUNT], s_data = replicate ROOM_COUNT ([], [], []),
           s_rng = \<lparr>draws = id, rpos = 0\<rparr>\<rparr> = Some (Inr s') \<and>
        s_state s' = Win \<and> s_room s' = FINAL_ROOM_INDEX \<and>
        list_all (\<lambda>e. \<not> enemy_alive e) (fst (snd (s_data s' ! s_room s')))"
proof -
  let ?s = "\<lparr>s_state = Play, s_running = True, s_player = new_player sample_assets, s_room = 9,
           s_projectiles = [], s_inventory = empty_inventory, s_rooms = map room_grid [0..<ROOM_COUNT],
           s_doors = map room_doors [0..<ROOM_COUNT], s_data = replicate ROOM_COUNT ([], [], []),
           s_rng = \<lparr>draws = id, rpos = 0\<rparr>\<rparr>"
  obtain n where n: "NEIGHBORS 9 = Some n" using NEIGHBORS_dom [of 9] by auto
  have none: "room_doors 9 = Map.empty"
    using final_room_no_doors [of n] n by (simp add: room_doors_eq [OF n] door_map_def fun_eq_iff)
  have td: "touched_door (room_doors 9) p = None" for p
    by (simp add: none touched_door_def touches_def find_None_iff)
  have tr: "try_room_transition (map room_doors [0..<ROOM_COUNT]) 9 p = Inr (9, p)" for p
    by (simp only: transition_static [OF n]) (simp add: td)
  have "(9::nat) < ROOM_COUNT" by simp
  then have li: "loop_iter sample_assets 0 [] (\<lambda>_. False) ?s =
      Some (Inr (frame_end 0 ?s 9 (room_grid 9) [] [] [] [] (update_attack 0 (new_player sample_assets))))"
    by (simp add: loop_iter_def handle_events_def frame_def frame_room_def axis_def player_move_def
        update_enemies_def tr del: game_consts)
  have "s_state (frame_end 0 ?s 9 (room_grid 9) [] [] [] [] (update_attack 0 (new_player sample_assets))) = Win"
    by (simp add: frame_end_def purge_enemies_def update_fireballs_def)
  moreover have "s_state ?s = Play" by simp
  ultimately show ?thesis using loop_iter_refines [OF li] li
    by (auto elim: game_step.cases)
qed

text \<open>
  C19: the data \<open>generate_static_dungeon\<close> builds is well-typed: ten grids of
  \<open>ROOM_H\<close> rows of \<open>ROOM_W\<close> cells, each cell 0 (floor) or 1 (wall), ten door
  tables and ten room entries; each entry's wall list is \<open>list_walls\<close> of its grid,
  and its enemies have non-negative contact damage and speed.
\<close>

theorem generate_static_dungeon_typed:
  assumes "generate_static_dungeon a r = Some (Inr ((gs, ds, rd), r'))"
  shows "length gs = ROOM_COUNT \<and> length ds = ROOM_COUNT \<and> length rd = ROOM_COUNT \<and>
    (\<forall>g\<in>set gs. grid_wf g \<and> (\<forall>row\<in>set g. set row \<subseteq> {0, 1})) \<and>
    (\<forall>i<ROOM_COUNT. fst (rd ! i) = list_walls (gs ! i) \<and> room_ok (rd ! i))"
proof -
  from assms obtain r0 where gs: "gs = map room_grid [0..<ROOM_COUNT]" and ds: "ds = map room_doors [0..<ROOM_COUNT]"
    and pop: "populate_rooms a (map room_grid [0..<ROOM_COUNT]) r = Some (rd, r0)"
    by (auto simp: generate_static_dungeon_eq simp del: game_consts)
  from populate_prefix [OF pop [unfolded populate_rooms_def]]
  have rd: "length rd = ROOM_COUNT" "list_all room_ok rd"
    "\<forall>i<ROOM_COUNT. fst (rd ! i) = list_walls (map room_grid [0..<ROOM_COUNT] ! i)" by blast+
  have cells: "set row \<subseteq> {0, 1}" if i: "i < ROOM_COUNT" and row: "row \<in> set (room_grid i)" for i row
  proof
    fix v assume v: "v \<in> set row"
    from room_grid_wf [OF i] have wf: "grid_wf (room_grid i)" .
    from row obtain y where y: "y < length (room_grid i)" and ry: "row = room_grid i ! y"
      by (auto simp: in_set_conv_nth)
    from v obtain x where x: "x < length row" and vx: "v = row ! x" by (auto simp: in_set_conv_nth)
    from wf y ry x have "y < ROOM_H" "x < ROOM_W" by (auto simp: grid_wf_def)
    with room_grid_01 [OF i] ry vx show "v \<in> {0, 1}" by (simp add: cell_def)
  qed
  show ?thesis
    using rd gs ds room_grid_wf cells by (auto simp: list_all_iff simp del: game_consts)
qed

theorem generate_static_dungeon_typed_witness:
  "\<exists>gs ds rd r'. generate_static_dungeon sample_assets \<lparr>draws = id, rpos = 0\<rparr> = Some (Inr ((gs, ds, rd), r')) \<and>
     length rd = ROOM_COUNT \<and> fst (rd ! 9) = list_walls (gs ! 9) \<and> grid_wf (gs ! 0)"
proof -
  from sample_run_starts obtain s where
    "reset_run sample_assets (blank_session sample_assets \<lparr>draws = id, rpos = 0\<rparr>) = Some (Inr s)" ..
  then obtain rd r' where
    "populate_rooms sample_assets (map room_grid [0..<ROOM_COUNT]) \<lparr>draws = id, rpos = 0\<rparr> = Some (rd, r')"
    by (rule reset_run_Inr) (simp add: blank_session_def)
  then have eq: "generate_static_dungeon sample_assets \<lparr>draws = id, rpos = 0\<rparr> =
      Some (Inr ((map room_grid [0..<ROOM_COUNT], map room_doors [0..<ROOM_COUNT], rd), r'))"
    by (simp add: generate_static_dungeon_eq del: game_consts)
  let ?gs = "map room_grid [0..<ROOM_COUNT]"
  from generate_static_dungeon_typed [OF eq]
  have "length rd = ROOM_COUNT" "fst (rd ! 9) = list_walls (?gs ! 9)" "grid_wf (?gs ! 0)"
    by simp_all
  with eq show ?thesis by blast
qed

lemma room0_start_free:
  "free_spot (room_grid 0) (map (\<lambda>(wx, wy). Rect wx wy TILE TILE) (list_walls (room_grid 0))) 2 2"
  by code_simp

text \<open>
  C20: \<open>generate_static_dungeon\<close> does not keep the player's start tile free.  Whenever
  the first pair of placement draws of room 0 names the tile \<open>(2, 2)\<close> (whatever the
  other draws and for any assets of positive size), the session \<open>reset_run()\<close> builds
  starts in room 0 with an enemy whose box overlaps the player's box at \<open>(64, 64)\<close>, so
  the first frame of the run applies contact damage.
\<close>

theorem start_enemy_overlap:
  assumes rr: "reset_run a s0 = Some (Inr s)"
    and sp: "spot (advance (s_rng s0) 1) 0 = (2, 2)"
    and pos: "0 < player_w a" "0 < player_h a" "\<forall>k. 0 < fst (enemy_size a k) \<and> 0 < snd (enemy_size a k)"
  shows "s_room s = 0 \<and>
    list_ex (\<lambda>e. colliderect (player_rect (s_player s)) (enemy_rect e)) (fst (snd (s_data s ! s_room s)))"
proof -
  from rr obtain rd r' where pr: "populate_rooms a (map room_grid [0..<ROOM_COUNT]) (s_rng s0) = Some (rd, r')"
    and s: "s = s0\<lparr>s_rooms := map room_grid [0..<ROOM_COUNT], s_doors := map room_doors [0..<ROOM_COUNT],
             s_data := rd, s_rng := r', s_player := new_player a, s_room := 0, s_projectiles := [],
             s_inventory := empty_inventory\<rparr>"
    by (auto simp: reset_run_def generate_static_dungeon_eq simp del: game_consts)
  from populate_rooms_first [OF pr] obtain r1 where ne: "rd \<noteq> []"
    and p0: "populate_room a 0 (room_grid 0) (s_rng s0) = Some (hd rd, r1)" by auto
  obtain walls es cs where d: "hd rd = (walls, es, cs)" by (cases "hd rd")
  from populate_room_first_enemy [OF p0 [unfolded d]] room0_start_free sp
  obtain k where es: "es \<noteq> []" and e: "hd es = new_enemy a 64 64 k" by auto
  have "colliderect (player_rect (new_player a)) (enemy_rect (hd es))"
    using pos by (simp add: e player_rect_def new_player_def enemy_rect_def new_enemy_def colliderect_Rect_pos)
  then have "list_ex (\<lambda>e. colliderect (player_rect (new_player a)) (enemy_rect e)) es"
    using es by (cases es) auto
  moreover have "rd ! 0 = (walls, es, cs)" using ne d by (cases rd) auto
  ultimately show ?thesis by (simp add: s)
qed

theorem start_enemy_overlap_witness:
  "\<exists>s. reset_run sample_assets (blank_session sample_assets \<lparr>draws = (\<lambda>n. if n = 1 \<or> n = 2 then 1 else n), rpos = 0\<rparr>) =
         Some (Inr s) \<and> s_room s = 0 \<and>
       list_ex (\<lambda>e. colliderect (player_rect (s_player s)) (enemy_rect e)) (fst (snd (s_data s ! s_room s)))"
proof -
  let ?b = "blank_session sample_assets \<lparr>draws = (\<lambda>n. if n = 1 \<or> n = 2 then 1 else n), rpos = 0\<rparr>"
  have "case reset_run sample_assets ?b of Some (Inr s) \<Rightarrow> True | _ \<Rightarrow> False"
    by code_simp
  then obtain s where rr: "reset_run sample_assets ?b = Some (Inr s)"
    by (auto split: option.splits sum.splits)
  have sp: "spot (advance (s_rng ?b) 1) 0 = (2, 2)"
    by (simp add: spot_def randint_def blank_session_def ROOM_W_val ROOM_H_val)
  have pos: "0 < player_w sample_assets" "0 < player_h sample_assets"
    "\<forall>k. 0 < fst (enemy_size sample_assets k) \<and> 0 < snd (enemy_size sample_assets k)"
    by (simp_all add: sample_assets_def)
  from start_enemy_overlap [OF rr sp pos] rr show ?thesis by blast
qed

text \<open>
  C21: \<open>reset_run\<close> need not return: \<open>random_free\<close> has no retry cap, and when every
  draw of the random source is the same (and enemies have a positive size) the
  generation of room 0 draws the tile of its first enemy forever, so \<open>reset_run\<close> is
  the loop that never ends.
\<close>

theorem reset_run_diverges:
  assumes "draws (s_rng s) = (\<lambda>_. 1)"
    and "\<forall>k. 0 < fst (enemy_size a k) \<and> 0 < snd (enemy_size a k)"
  shows "reset_run a s = None"
  using populate_rooms_first_None [OF populate_room_const_draws [OF assms]]
  by (simp add: reset_run_def generate_static_dungeon_eq del: game_consts)

theorem reset_run_diverges_witness:
  "reset_run sample_assets (blank_session sample_assets \<lparr>draws = (\<lambda>_. 1), rpos = 0\<rparr>) = None"
  by (rule reset_run_diverges) (simp_all add: blank_session_def sample_assets_def)

end
