(* ===== verification/Assets.thy ===== *)
theory Assets
  imports Items
begin

text \<open>
  Asset loading (\<open>src/main.py\<close> lines 50--111): \<open>load_masked\<close> and \<open>load_image\<close>, the
  module-level loads of the images in the order the code makes them, and the sizes
  and masks the entities and the drawing code read from the loaded images.  The image
  files are not part of the repository, so the directory \<open>images/\<close> is a parameter:
  a map from paths to decoded surfaces, a missing path being the
  \<open>FileNotFoundError\<close> that \<open>pygame.image.load\<close> raises.  A surface is its size and
  the alpha of each pixel after \<open>convert_alpha()\<close>; \<open>pygame.mask.from_surface\<close> sets
  the pixels whose alpha is above its default threshold 127.  The images are named by
  the datatype \<open>image\<close>; the rendered texts, the rotated sword and the overlay surface
  are images too, whose sizes come from the fonts and \<open>pygame.transform.rotate\<close>.
\<close>

type_synonym color = "int \<times> int \<times> int"

datatype font = TitleFont | InfoFont | HudFont

datatype image =
    PlayerImg | FloorImg | WallImg | LibraryWallImg | EnemyImg enemy_kind
  | ChestImg | ChestOpenImg | HeartFull | HeartHalf | HeartEmpty | ItemImg item
  | SwordImg | FireballImg | SwordRot real | TextImg font string color | Shade int

record hud_assets =
  img_size :: "image \<Rightarrow> int \<times> int"
  text_size :: "font \<Rightarrow> string \<Rightarrow> int \<times> int"

record surface =
  surf_w :: nat
  surf_h :: nat
  surf_alpha :: "nat \<Rightarrow> nat \<Rightarrow> nat"

type_synonym files = "string \<rightharpoonup> surface"

subsection \<open>Loading\<close>

definition mask_from_surface :: "surface \<Rightarrow> mask" where
  \<comment> \<open>\<open>pygame.mask.from_surface(img)\<close>: the pixels of alpha above 127\<close>
  "mask_from_surface s =
     \<lparr>mask_w = int (surf_w s), mask_h = int (surf_h s),
      mask_bits = [(int x, int y). y \<leftarrow> [0..<surf_h s], x \<leftarrow> [0..<surf_w s], 127 < surf_alpha s x y]\<rparr>"

definition load_masked :: "files \<Rightarrow> string \<Rightarrow> (surface \<times> mask) result" where
  "load_masked fs path =
     (case fs path of
        None \<Rightarrow> Inl (FileNotFoundError path)
      | Some img \<Rightarrow> Inr (img, mask_from_surface img))"

definition load_image :: "files \<Rightarrow> string \<Rightarrow> surface result" where
  "load_image fs path = (case fs path of None \<Rightarrow> Inl (FileNotFoundError path) | Some img \<Rightarrow> Inr img)"

text \<open>
  The loads of lines 67--90 in order: the image each one binds, its path, and
  whether it is made by \<open>load_masked\<close> (the masks of the floor and the library wall
  are computed and dropped).  \<open>enemy_images\<close> and \<open>item_images\<close> are the images
  \<open>EnemyImg k\<close> and \<open>ItemImg it\<close>.
\<close>

definition asset_loads :: "(image \<times> string \<times> bool) list" where
  "asset_loads =
    [(PlayerImg, ''images/player.png'', True), (FloorImg, ''images/floor.png'', True),
     (WallImg, ''images/wall.png'', True), (LibraryWallImg, ''images/library.png'', True),
     (EnemyImg Spider, ''images/spider.png'', True), (EnemyImg Skeleton, ''images/skeleton.png'', True),
     (EnemyImg Ghost, ''images/ghost.png'', True), (EnemyImg Eye, ''images/eye.png'', True),
     (ChestImg, ''images/chest.png'', True), (ChestOpenImg, ''images/chest_open.png'', False),
     (HeartFull, ''images/heart_full.png'', False), (HeartHalf, ''images/heart_half.png'', False),
     (HeartEmpty, ''images/heart_empty.png'', False),
     (ItemImg Apple, ''images/apple.png'', False), (ItemImg Bread, ''images/bread.png'', False),
     (ItemImg Meat, ''images/meat.png'', False), (ItemImg Chicken, ''images/chicken.png'', False),
     (SwordImg, ''images/sword.png'', False), (FireballImg, ''images/fireball.png'', False)]"

type_synonym loaded = "(image \<times> surface \<times> mask option) list"

primrec load_all :: "files \<Rightarrow> (image \<times> string \<times> bool) list \<Rightarrow> loaded result" where
  \<comment> \<open>the statements run in order; the first raise ends the module\<close>
  "load_all fs [] = Inr []"
| "load_all fs (l # ls) =
     (let (i, path, masked) = l in
      r_bind (if masked then r_bind (load_masked fs path) (\<lambda>(img, m). Inr (img, Some m))
              else r_bind (load_image fs path) (\<lambda>img. Inr (img, None)))
        (\<lambda>(img, m). r_bind (load_all fs ls) (\<lambda>rest. Inr ((i, img, m) # rest))))"

definition loaded_img :: "loaded \<Rightarrow> image \<Rightarrow> surface" where
  \<comment> \<open>the global bound to an image by its load\<close>
  "loaded_img ls i = fst (the (map_of ls i))"

definition loaded_mask :: "loaded \<Rightarrow> image \<Rightarrow> mask" where
  "loaded_mask ls i = the (snd (the (map_of ls i)))"

definition img_wh :: "surface \<Rightarrow> int \<times> int" where
  \<comment> \<open>\<open>(img.get_width(), img.get_height())\<close>\<close>
  "img_wh s = (int (surf_w s), int (surf_h s))"

text \<open>
  What the entities read of the loaded images: \<open>Player.__init__\<close> the size of
  \<open>player_img\<close> (lines 279--280), \<open>Enemy.__init__\<close> the size and mask of
  \<open>enemy_images[kind]\<close> and \<open>enemy_masks[kind]\<close> (lines 378--381), \<open>Chest.__init__\<close>
  the size of \<open>chest_img\<close> (line 497); \<open>player_mask\<close> and \<open>wall_mask\<close> are globals.
\<close>

definition game_assets :: "loaded \<Rightarrow> assets" where
  "game_assets ls =
     \<lparr>player_w = fst (img_wh (loaded_img ls PlayerImg)),
      player_h = snd (img_wh (loaded_img ls PlayerImg)),
      player_mask = loaded_mask ls PlayerImg, wall_mask = loaded_mask ls WallImg,
      enemy_size = (\<lambda>k. img_wh (loaded_img ls (EnemyImg k))),
      enemy_mask = (\<lambda>k. loaded_mask ls (EnemyImg k)),
      chest_w = fst (img_wh (loaded_img ls ChestImg)),
      chest_h = snd (img_wh (loaded_img ls ChestImg))\<rparr>"

text \<open>
  What the drawing code reads: the sizes of the loaded images, of the texts the
  fonts render (\<open>tsize\<close>), of the rotated sword (\<open>rot\<close>, \<open>pygame.transform.rotate\<close>),
  and of the overlay surface \<open>pygame.Surface((SCREEN_WIDTH, SCREEN_HEIGHT))\<close>.
\<close>

definition hud_of ::
  "loaded \<Rightarrow> (font \<Rightarrow> string \<Rightarrow> int \<times> int) \<Rightarrow> (real \<Rightarrow> int \<times> int) \<Rightarrow> hud_assets" where
  "hud_of ls tsize rot =
     \<lparr>img_size = (\<lambda>i. case i of
         SwordRot a \<Rightarrow> rot a
       | TextImg f str c \<Rightarrow> tsize f str
       | Shade _ \<Rightarrow> (SCREEN_WIDTH, SCREEN_HEIGHT)
       | _ \<Rightarrow> img_wh (loaded_img ls i)),
      text_size = tsize\<rparr>"

definition load_assets :: "files \<Rightarrow> assets result" where
  "load_assets fs = r_bind (load_all fs asset_loads) (\<lambda>ls. Inr (game_assets ls))"

declare mask_from_surface_def [model_defs] load_masked_def [model_defs] load_image_def [model_defs]
  loaded_img_def [model_defs] loaded_mask_def [model_defs] img_wh_def [model_defs]
  game_assets_def [model_defs] hud_of_def [model_defs] load_assets_def [model_defs]

subsection \<open>Well-formed assets\<close>

text \<open>
  What the collision code needs of the assets: every mask well-formed and of the
  size of its image.  \<open>loads_of\<close> is what the loads bind when every file is present.
\<close>

definition assets_wf :: "assets \<Rightarrow> bool" where
  "assets_wf a \<longleftrightarrow>
     mask_wf (player_mask a) \<and> mask_w (player_mask a) = player_w a \<and>
     mask_h (player_mask a) = player_h a \<and> mask_wf (wall_mask a) \<and>
     list_all (\<lambda>k. mask_wf (enemy_mask a k) \<and> (mask_w (enemy_mask a k), mask_h (enemy_mask a k)) = enemy_size a k)
       [Spider, Skeleton, Ghost, Eye]"

definition loads_of :: "files \<Rightarrow> (image \<times> string \<times> bool) list \<Rightarrow> loaded" where
  "loads_of fs ls = map (\<lambda>(i, p, m). (i, the (fs p), if m then Some (mask_from_surface (the (fs p))) else None)) ls"

text \<open>A sample image of two by two opaque pixels.\<close>

definition opaque2 :: surface where
  "opaque2 = \<lparr>surf_w = 2, surf_h = 2, surf_alpha = (\<lambda>_ _. 255)\<rparr>"

subsection \<open>Properties of loading\<close>

lemma mask_from_surface_wf: "mask_wf (mask_from_surface s)"
  by (auto simp: mask_wf_def mask_from_surface_def)

lemma mask_from_surface_size [simp]:
  "mask_w (mask_from_surface s) = int (surf_w s)" "mask_h (mask_from_surface s) = int (surf_h s)"
  by (simp_all add: mask_from_surface_def)

lemma load_all_find:
  "load_all fs ls =
     (case find (\<lambda>(i, p, m). fs p = None) ls of
        Some (i, p, m) \<Rightarrow> Inl (FileNotFoundError p)
      | None \<Rightarrow> Inr (map (\<lambda>(i, p, m). (i, the (fs p), if m then Some (mask_from_surface (the (fs p))) else None)) ls))"
  by (induction ls)
    (auto simp: r_bind_def load_masked_def load_image_def split: option.splits prod.splits)

lemma load_assets_Inr:
  assumes "load_assets fs = Inr a"
  shows "a = game_assets (loads_of fs asset_loads) \<and> (\<forall>(i, p, m) \<in> set asset_loads. fs p \<noteq> None)"
  using assms load_all_find [of fs asset_loads]
  by (auto simp: load_assets_def r_bind_def loads_of_def find_None_iff split: option.splits sum.splits)

lemma load_assets_present:
  "(\<forall>(i, p, m) \<in> set asset_loads. fs p \<noteq> None) \<Longrightarrow>
   load_assets fs = Inr (game_assets (loads_of fs asset_loads))"
proof -
  assume "\<forall>(i, p, m) \<in> set asset_loads. fs p \<noteq> None"
  then have "find (\<lambda>(i, p, m). fs p = None) asset_loads = None" by (auto simp: find_None_iff)
  then show ?thesis using load_all_find [of fs asset_loads]
    by (simp add: load_assets_def r_bind_def loads_of_def)
qed

lemma loaded_mask_loads_of:
  "map_of ls i = Some (p, True) \<Longrightarrow> loaded_mask (loads_of fs ls) i = mask_from_surface (the (fs p))"
  by (induction ls) (auto simp: loaded_mask_def loads_of_def split: if_splits)

lemma loaded_img_loads_of:
  "map_of ls i = Some (p, m) \<Longrightarrow> loaded_img (loads_of fs ls) i = the (fs p)"
  by (induction ls) (auto simp: loaded_img_def loads_of_def split: if_splits)

lemma find_map_option: "find P (map f xs) = map_option f (find (P \<circ> f) xs)"
  by (induction xs) auto

lemma asset_loads_find:
  "map_option (\<lambda>(i, p, m). p) (find (\<lambda>(i, p, m). fs p = None) asset_loads) =
   find (\<lambda>p. fs p = None)
        [''images/player.png'', ''images/floor.png'', ''images/wall.png'', ''images/library.png'',
         ''images/spider.png'', ''images/skeleton.png'', ''images/ghost.png'', ''images/eye.png'',
         ''images/chest.png'', ''images/chest_open.png'', ''images/heart_full.png'',
         ''images/heart_half.png'', ''images/heart_empty.png'', ''images/apple.png'',
         ''images/bread.png'', ''images/meat.png'', ''images/chicken.png'', ''images/sword.png'',
         ''images/fireball.png'']"
proof -
  have paths: "map (\<lambda>(i, p, m). p) asset_loads =
        [''images/player.png'', ''images/floor.png'', ''images/wall.png'', ''images/library.png'',
         ''images/spider.png'', ''images/skeleton.png'', ''images/ghost.png'', ''images/eye.png'',
         ''images/chest.png'', ''images/chest_open.png'', ''images/heart_full.png'',
         ''images/heart_half.png'', ''images/heart_empty.png'', ''images/apple.png'',
         ''images/bread.png'', ''images/meat.png'', ''images/chicken.png'', ''images/sword.png'',
         ''images/fireball.png'']"
    by (simp add: asset_loads_def)
  have c: "(\<lambda>p. fs p = None) \<circ> (\<lambda>(i, p, m). p) = (\<lambda>(i, p, m). fs p = None)"
    by (auto simp: fun_eq_iff)
  show ?thesis
    using find_map_option [of "\<lambda>p. fs p = None" "\<lambda>(i, p, m). p" asset_loads, symmetric]
    unfolding paths c .
qed

lemma loads_of_asset:
  "loaded_img (loads_of fs asset_loads) PlayerImg = the (fs ''images/player.png'')"
  "loaded_mask (loads_of fs asset_loads) PlayerImg = mask_from_surface (the (fs ''images/player.png''))"
  "loaded_mask (loads_of fs asset_loads) WallImg = mask_from_surface (the (fs ''images/wall.png''))"
  "loaded_img (loads_of fs asset_loads) ChestImg = the (fs ''images/chest.png'')"
  by (simp_all add: asset_loads_def loaded_img_loads_of loaded_mask_loads_of)

lemma loads_of_enemy:
  "loaded_img (loads_of fs asset_loads) (EnemyImg k) = the (fs (case k of Spider \<Rightarrow> ''images/spider.png'' | Skeleton \<Rightarrow> ''images/skeleton.png''
          | Ghost \<Rightarrow> ''images/ghost.png'' | Eye \<Rightarrow> ''images/eye.png''))"
  "loaded_mask (loads_of fs asset_loads) (EnemyImg k) = mask_from_surface (the (fs (case k of Spider \<Rightarrow> ''images/spider.png'' | Skeleton \<Rightarrow> ''images/skeleton.png''
          | Ghost \<Rightarrow> ''images/ghost.png'' | Eye \<Rightarrow> ''images/eye.png'')))"
  by (cases k; simp add: asset_loads_def loaded_img_loads_of loaded_mask_loads_of)+

lemma game_assets_loads_of:
  "game_assets (loads_of fs asset_loads) =
     (let file = (\<lambda>p. the (fs p));
          kfile = (\<lambda>k. (case k of Spider \<Rightarrow> ''images/spider.png'' | Skeleton \<Rightarrow> ''images/skeleton.png''
          | Ghost \<Rightarrow> ''images/ghost.png'' | Eye \<Rightarrow> ''images/eye.png''))
      in \<lparr>player_w = int (surf_w (file ''images/player.png'')),
          player_h = int (surf_h (file ''images/player.png'')),
          player_mask = mask_from_surface (file ''images/player.png''),
          wall_mask = mask_from_surface (file ''images/wall.png''),
          enemy_size = (\<lambda>k. (int (surf_w (file (kfile k))), int (surf_h (file (kfile k))))),
          enemy_mask = (\<lambda>k. mask_from_surface (file (kfile k))),
          chest_w = int (surf_w (file ''images/chest.png'')),
          chest_h = int (surf_h (file ''images/chest.png''))\<rparr>)"
  by (simp add: game_assets_def img_wh_def loads_of_asset loads_of_enemy Let_def)

lemma load_assets_found_None:
  assumes "find (\<lambda>(i, p, m). fs p = None) asset_loads = None"
  shows "load_assets fs = Inr (game_assets (loads_of fs asset_loads))"
  using assms load_all_find [of fs asset_loads] by (simp add: load_assets_def r_bind_def loads_of_def)

lemma load_assets_found_Some:
  assumes "find (\<lambda>(i, p, m). fs p = None) asset_loads = Some (i, p, m)"
  shows "load_assets fs = Inl (FileNotFoundError p)"
  using assms load_all_find [of fs asset_loads] by (simp add: load_assets_def r_bind_def)

text \<open>
  C36: loading the assets raises \<open>FileNotFoundError\<close> for the first missing file of
  the load order \<open>player, floor, wall, library, spider, skeleton, ghost, eye, chest,
  chest_open, heart_full, heart_half, heart_empty, apple, bread, meat, chicken, sword,
  fireball\<close>; when every file is present it gives the player the size and mask of
  \<open>player.png\<close>, the walls the mask of \<open>wall.png\<close>, each enemy kind the size and mask
  of its own file and the chests the size of \<open>chest.png\<close>.
\<close>

theorem load_assets_files:
  "load_assets fs =
     (case find (\<lambda>p. fs p = None)
        [''images/player.png'', ''images/floor.png'', ''images/wall.png'', ''images/library.png'',
         ''images/spider.png'', ''images/skeleton.png'', ''images/ghost.png'', ''images/eye.png'',
         ''images/chest.png'', ''images/chest_open.png'', ''images/heart_full.png'',
         ''images/heart_half.png'', ''images/heart_empty.png'', ''images/apple.png'',
         ''images/bread.png'', ''images/meat.png'', ''images/chicken.png'', ''images/sword.png'',
         ''images/fireball.png''] of
        Some p \<Rightarrow> Inl (FileNotFoundError p)
      | None \<Rightarrow>
          (let file = (\<lambda>p. the (fs p));
               kfile = (\<lambda>k. (case k of Spider \<Rightarrow> ''images/spider.png'' | Skeleton \<Rightarrow> ''images/skeleton.png''
          | Ghost \<Rightarrow> ''images/ghost.png'' | Eye \<Rightarrow> ''images/eye.png''))
           in Inr \<lparr>player_w = int (surf_w (file ''images/player.png'')),
                   player_h = int (surf_h (file ''images/player.png'')),
                   player_mask = mask_from_surface (file ''images/player.png''),
                   wall_mask = mask_from_surface (file ''images/wall.png''),
                   enemy_size = (\<lambda>k. (int (surf_w (file (kfile k))), int (surf_h (file (kfile k))))),
                   enemy_mask = (\<lambda>k. mask_from_surface (file (kfile k))),
                   chest_w = int (surf_w (file ''images/chest.png'')),
                   chest_h = int (surf_h (file ''images/chest.png''))\<rparr>))"
proof (cases "find (\<lambda>(i, p, m). fs p = None) asset_loads")
  case None
  show ?thesis unfolding asset_loads_find [symmetric] by (simp only: None option.map option.case load_assets_found_None [OF None] game_assets_loads_of Let_def)
next
  case (Some l)
  obtain i p m where l: "l = (i, p, m)" by (cases l)
  show ?thesis unfolding asset_loads_find [symmetric] by (simp only: Some l option.map option.case load_assets_found_Some [OF Some [unfolded l]] prod.case)
qed

lemma load_assets_wf:
  assumes "load_assets fs = Inr a"
  shows "assets_wf a"
proof -
  have a: "a = game_assets (loads_of fs asset_loads)" using load_assets_Inr [OF assms] by blast
  show ?thesis unfolding a
    by (simp add: assets_wf_def game_assets_def asset_loads_def img_wh_def mask_from_surface_wf
        loaded_mask_loads_of loaded_img_loads_of)
qed

lemma hits_wall_boxes:
  assumes "mask_wf m" "mask_wf wm" "hits_wall m (of_int x) (of_int y) wm walls"
  shows "list_ex (\<lambda>(wx, wy). colliderect (Rect x y (mask_w m) (mask_h m)) (Rect wx wy (mask_w wm) (mask_h wm))) walls"
proof -
  from assms(3) obtain wx wy where w: "(wx, wy) \<in> set walls"
    and ov: "mask_overlap m wm (wx - x, wy - y)"
    by (auto simp: hits_wall_def list_ex_iff pixel_collision_int_offset)
  from mask_overlap_colliderect [OF assms(1,2) ov]
  have "colliderect (Rect (x + 0) (y + 0) (mask_w m) (mask_h m)) (Rect (x + (wx - x)) (y + (wy - y)) (mask_w wm) (mask_h wm))"
    by (simp only: colliderect_shift)
  with w show ?thesis by (auto simp: list_ex_iff)
qed

text \<open>
  C37: with assets loaded from any files, the player's wall test is sound against the
  boxes: at an integer position, \<open>hits_wall\<close> reports a wall only when the player's box
  of the size of \<open>player.png\<close> collides with the wall's box of the size of
  \<open>wall.png\<close>.
\<close>

theorem hits_wall_loaded_boxes:
  assumes "load_assets fs = Inr a"
    and "hits_wall (player_mask a) (of_int x) (of_int y) (wall_mask a) walls"
  shows "list_ex (\<lambda>(wx, wy). colliderect (Rect x y (player_w a) (player_h a))
           (Rect wx wy (mask_w (wall_mask a)) (mask_h (wall_mask a)))) walls"
proof -
  from load_assets_wf [OF assms(1)] have "assets_wf a" .
  with hits_wall_boxes [OF _ _ assms(2)] show ?thesis by (simp add: assets_wf_def)
qed

theorem hits_wall_loaded_boxes_witness:
  "load_assets (\<lambda>_. Some opaque2) = Inr (game_assets (loads_of (\<lambda>_. Some opaque2) asset_loads)) \<and>
   hits_wall (player_mask (game_assets (loads_of (\<lambda>_. Some opaque2) asset_loads))) (of_int 0) (of_int 0)
     (wall_mask (game_assets (loads_of (\<lambda>_. Some opaque2) asset_loads))) [(1, 1)] \<and>
   list_ex (\<lambda>(wx, wy). colliderect (Rect 0 0 2 2) (Rect wx wy 2 2)) [(1, 1)]"
proof -
  let ?a = "game_assets (loads_of (\<lambda>_. Some opaque2) asset_loads)"
  have l: "load_assets (\<lambda>_. Some opaque2) = Inr ?a"
    by (rule load_assets_present) (simp add: asset_loads_def)
  have h: "hits_wall (player_mask ?a) (of_int 0) (of_int 0) (wall_mask ?a) [(1, 1)]"
    by (simp add: hits_wall_def game_assets_def asset_loads_def loaded_mask_loads_of
        pixel_collision_def mask_overlap_def mask_from_surface_def opaque2_def upt_rec)
  have s: "player_w ?a = 2 \<and> player_h ?a = 2 \<and> mask_w (wall_mask ?a) = 2 \<and> mask_h (wall_mask ?a) = 2"
    by (simp add: game_assets_def asset_loads_def loaded_mask_loads_of loaded_img_loads_of img_wh_def opaque2_def)
  from hits_wall_loaded_boxes [OF l h] s l h show ?thesis by simp
qed

end
