(* ===== verification/Render.thy ===== *)
theory Render
  imports Game_Props Assets
begin

text \<open>
  The drawing code of \<open>src/main.py\<close>: the \<open>draw\<close> methods of \<open>Player\<close>, \<open>Enemy\<close>,
  \<open>Fireball\<close> and \<open>Chest\<close>, \<open>draw_hearts\<close>, \<open>draw_inventory\<close>, \<open>draw_room\<close>, the
  title screen and the drawing half of the main loop (lines 684--751).  A frame's
  output is the list of calls it makes on the screen surface, in order: \<open>fill\<close>,
  \<open>blit\<close> of an image at a position, \<open>display.flip\<close>.  What pygame does with the calls
  (pixels) is not modelled.  Images are named by the datatype \<open>image\<close> of \<open>Assets\<close>; a
  text surface \<open>font.render(str, True, colour)\<close> is the image \<open>TextImg\<close>.  The sizes the
  code reads (\<open>get_width\<close>, \<open>get_height\<close>) are the record \<open>hud_assets\<close>, a parameter
  here; \<open>hud_of\<close> builds it from the loaded files.
\<close>

datatype draw_cmd = Fill color | Blit image "int \<times> int" | BlitF image "real \<times> real" | Flip

subsection \<open>Python's \<open>str\<close> of an int\<close>

definition digit_char :: "nat \<Rightarrow> char" where
  "digit_char d = char_of (48 + d)"

function nat_digits :: "nat \<Rightarrow> string" where
  "nat_digits n = (if n < 10 then [digit_char n] else nat_digits (n div 10) @ [digit_char (n mod 10)])"
  by auto
termination by (relation "measure id") auto

declare nat_digits.simps [simp del]

definition py_str_int :: "int \<Rightarrow> string" where
  \<comment> \<open>\<open>f"{n}"\<close> for an int \<open>n\<close>\<close>
  "py_str_int n = (if n < 0 then CHR ''-'' # nat_digits (nat (- n)) else nat_digits (nat n))"

subsection \<open>The \<open>draw\<close> methods\<close>

definition player_draw :: "hud_assets \<Rightarrow> player \<Rightarrow> draw_cmd list" where
  \<comment> \<open>\<open>Player.draw\<close>: the player, and the rotated sword 28 pixels out along the swing\<close>
  "player_draw ha p =
     Blit PlayerImg (py_int (px p), py_int (py p)) #
     (if attacking p then
        let (cx, cy) = player_center p; ang = - attack_angle p;
            (rw', rh') = img_size ha (SwordRot ang); rad = attack_angle p * pi / 180
        in [BlitF (SwordRot ang) (of_int cx + cos rad * 28 - of_int rw' / 2,
                                  of_int cy + sin rad * 28 - of_int rh' / 2)]
      else [])"

definition enemy_draw :: "enemy \<Rightarrow> draw_cmd list" where
  \<comment> \<open>\<open>Enemy.draw\<close>; \<open>self.img\<close> is \<open>enemy_images[kind]\<close>\<close>
  "enemy_draw e = (if enemy_alive e then [Blit (EnemyImg (kind e)) (py_int (ex e), py_int (ey e))] else [])"

definition fireball_draw :: "hud_assets \<Rightarrow> fireball \<Rightarrow> draw_cmd list" where
  "fireball_draw ha f =
     (if falive f then
        let (w, h) = img_size ha FireballImg
        in [Blit FireballImg (py_int (fx f) - w div 2, py_int (fy f) - h div 2)]
      else [])"

definition chest_draw :: "chest \<Rightarrow> draw_cmd list" where
  "chest_draw c = [Blit (if copen c then ChestOpenImg else ChestImg) (chx c, chy c)]"

subsection \<open>The HUD and the room\<close>

definition heart_img :: "int \<Rightarrow> nat \<Rightarrow> image" where
  \<comment> \<open>the image of heart \<open>i\<close> for health \<open>h\<close> (the \<open>if\<close> chain of \<open>draw_hearts\<close>)\<close>
  "heart_img h i = (if h \<ge> 2 * int i + 2 then HeartFull else if h = 2 * int i + 1 then HeartHalf else HeartEmpty)"

definition draw_hearts :: "hud_assets \<Rightarrow> player \<Rightarrow> draw_cmd list" where
  "draw_hearts ha p =
     map (\<lambda>i. Blit (heart_img (health p) i) (10 + int i * (fst (img_size ha HeartFull) + 4), 10))
       [0..<nat (max_health p div 2)]"

definition draw_inventory :: "hud_assets \<Rightarrow> inventory \<Rightarrow> draw_cmd list" where
  "draw_inventory ha bag =
     concat (map (\<lambda>(i, it).
       let ix = SCREEN_WIDTH - 10 - fst (img_size ha (ItemImg it)); iy = 10 + int i * 26
       in [Blit (ItemImg it) (ix, iy),
           Blit (TextImg HudFont (CHR ''x'' # py_str_int (bag it)) (255, 255, 255)) (ix - 35, iy + 4)])
       (enumerate 0 ITEM_ORDER))"

definition room_themes :: "theme list" where
  \<comment> \<open>\<open>room_themes.append(ROOM_CONFIG[i]["theme"])\<close> in the first loop of the generation\<close>
  "room_themes = map (\<lambda>i. cfg_theme (ROOM_CONFIG i)) [0..<ROOM_COUNT]"

definition draw_room :: "grid \<Rightarrow> theme \<Rightarrow> draw_cmd list" where
  "draw_room g th =
     concat (map (\<lambda>y. map (\<lambda>x.
         Blit (if cell g x y = 0 then FloorImg else if th = Library then LibraryWallImg else WallImg)
              (int x * TILE, int y * TILE))
       [0..<ROOM_W]) [0..<ROOM_H])"

subsection \<open>Screens\<close>

definition centered :: "hud_assets \<Rightarrow> font \<Rightarrow> string \<Rightarrow> int \<Rightarrow> int \<times> int" where
  \<comment> \<open>\<open>(SCREEN_WIDTH//2 - t.get_width()//2, SCREEN_HEIGHT//2 + dy)\<close>\<close>
  "centered ha f str dy = (SCREEN_WIDTH div 2 - fst (text_size ha f str) div 2, SCREEN_HEIGHT div 2 + dy)"

definition title_screen :: "hud_assets \<Rightarrow> draw_cmd list" where
  "title_screen ha =
     [Fill (0, 0, 0),
      Blit (TextImg TitleFont ''Dungeon Explorer'' (255, 255, 255)) (centered ha TitleFont ''Dungeon Explorer'' (- 40)),
      Blit (TextImg InfoFont ''Press Enter to Start'' (200, 200, 200)) (centered ha InfoFont ''Press Enter to Start'' 20),
      Flip]"

definition overlay :: "hud_assets \<Rightarrow> string \<Rightarrow> color \<Rightarrow> string \<Rightarrow> draw_cmd list" where
  \<comment> \<open>the translucent surface and the two lines of the game-over and win screens\<close>
  "overlay ha msg col info =
     [Blit (Shade 180) (0, 0),
      Blit (TextImg TitleFont msg col) (centered ha TitleFont msg (- 20)),
      Blit (TextImg InfoFont info (230, 230, 230)) (centered ha InfoFont info 30)]"

definition render_frame :: "hud_assets \<Rightarrow> session \<Rightarrow> draw_cmd list result" where
  \<comment> \<open>lines 721--751: the room, chests, enemies, fireballs, the player, the HUD, the overlays\<close>
  "render_frame ha s =
     r_bind (py_nth (s_rooms s) (s_room s)) (\<lambda>g.
     r_bind (py_nth room_themes (s_room s)) (\<lambda>th.
     r_bind (py_nth (s_data s) (s_room s)) (\<lambda>(walls, es, cs).
       Inr (Fill (0, 0, 0) # draw_room g th @ concat (map chest_draw cs) @ concat (map enemy_draw es) @
            concat (map (fireball_draw ha) (s_projectiles s)) @ player_draw ha (s_player s) @
            draw_hearts ha (s_player s) @ draw_inventory ha (s_inventory s) @
            (if s_state s = Gameover then overlay ha ''You Died'' (220, 50, 50) ''Press Enter to Restart'' else []) @
            (if s_state s = Win then overlay ha ''You Win!'' (50, 220, 80) ''Press Enter to Play Again'' else []) @
            [Flip]))))"

definition render :: "hud_assets \<Rightarrow> session \<Rightarrow> draw_cmd list result" where
  \<comment> \<open>after the events: the title screen and \<open>continue\<close>, or the frame's drawing\<close>
  "render ha s = (if s_state s = Title then Inr (title_screen ha) else render_frame ha s)"

definition loop_output ::
  "assets \<Rightarrow> hud_assets \<Rightarrow> int \<Rightarrow> event list \<Rightarrow> (pkey \<Rightarrow> bool) \<Rightarrow> session \<Rightarrow>
   (session \<times> draw_cmd list) result option" where
  \<comment> \<open>one iteration of \<open>while running\<close> with what it draws\<close>
  "loop_output a ha now evs keys s =
     loop_iter a now evs keys s \<bind>
       (\<lambda>r. Some (r_bind r (\<lambda>s'. r_bind (render ha s') (\<lambda>cmds. Inr (s', cmds)))))"

declare digit_char_def [model_defs] py_str_int_def [model_defs] player_draw_def [model_defs]
  enemy_draw_def [model_defs] fireball_draw_def [model_defs] chest_draw_def [model_defs]
  heart_img_def [model_defs] draw_hearts_def [model_defs] draw_inventory_def [model_defs]
  room_themes_def [model_defs] draw_room_def [model_defs] centered_def [model_defs]
  title_screen_def [model_defs] overlay_def [model_defs] render_frame_def [model_defs]
  render_def [model_defs] loop_output_def [model_defs]

subsection \<open>Observations of a drawing\<close>

text \<open>The texts a list of calls blits, the positions of its wall tiles, and a reader of decimal numerals.\<close>

fun cmd_texts :: "draw_cmd \<Rightarrow> string list" where
  "cmd_texts (Blit (TextImg f str col) pos) = [str]"
| "cmd_texts _ = []"

definition blit_texts :: "draw_cmd list \<Rightarrow> string list" where
  "blit_texts cmds = concat (map cmd_texts cmds)"

fun cmd_walls :: "draw_cmd \<Rightarrow> (int \<times> int) list" where
  "cmd_walls (Blit WallImg pos) = [pos]"
| "cmd_walls (Blit LibraryWallImg pos) = [pos]"
| "cmd_walls _ = []"

fun parse_digits :: "nat \<Rightarrow> string \<Rightarrow> nat option" where
  "parse_digits acc [] = Some acc"
| "parse_digits acc (c # cs) =
     (let d = (of_char c :: nat) in if 48 \<le> d \<and> d \<le> 57 then parse_digits (10 * acc + (d - 48)) cs else None)"

definition parse_int_str :: "string \<Rightarrow> int option" where
  "parse_int_str str =
     (if str = [] then None
      else if hd str = CHR ''-'' then
        (if tl str = [] then None else map_option (\<lambda>n. - int n) (parse_digits 0 (tl str)))
      else map_option int (parse_digits 0 str))"

subsection \<open>Properties of the drawing\<close>

lemma heart_imgs:
  assumes "0 \<le> h" and "h \<le> m" and "even m"
  shows "map (heart_img h) [0..<nat (m div 2)] =
    replicate (nat (h div 2)) HeartFull @ replicate (nat (h mod 2)) HeartHalf @
    replicate (nat ((m - h) div 2)) HeartEmpty"
proof -
  let ?a = "nat (h div 2)" and ?b = "nat ((h + 1) div 2)" and ?n = "nat (m div 2)"
  from assms(3) obtain k where m: "m = 2 * k" by (auto elim!: evenE)
  define q where "q = h div 2"
  define r where "r = h mod 2"
  have q0: "0 \<le> q" using assms(1) by (simp add: q_def)
  have r01: "r = 0 \<or> r = 1" by (simp add: r_def) presburger
  have hq: "h = 2 * q + r" by (simp add: q_def r_def)
  have d1: "(h + 1) div 2 = q + r" using hq r01 by presburger
  have d2: "m div 2 = k" using m by simp
  have d3: "(m - h) div 2 = k - q - r" using hq r01 m by presburger
  have d4: "q + r \<le> k" using hq r01 m assms(2) by presburger
  have r0: "0 \<le> r" using r01 by auto
  have ab: "?a \<le> ?b" using r0 by (simp add: d1 q_def [symmetric])
  have bn: "?b \<le> ?n" using d4 by (simp add: d1 m)
  have up: "[0..<?n] = [0..<?a] @ [?a..<?b] @ [?b..<?n]"
    using ab bn by (simp add: upt_split [of 0 ?a ?n] upt_split [of ?a ?b ?n])
  have full: "i \<in> set [0..<?a] \<Longrightarrow> heart_img h i = HeartFull" for i
  proof -
    assume "i \<in> set [0..<?a]"
    then have "int i < q" using q0 by (simp add: q_def)
    with hq r0 show ?thesis by (simp add: heart_img_def)
  qed
  have half: "i \<in> set [?a..<?b] \<Longrightarrow> heart_img h i = HeartHalf" for i
  proof -
    assume "i \<in> set [?a..<?b]"
    then have "q \<le> int i" "int i < q + r" using q0 r0 by (simp_all add: q_def [symmetric] d1; linarith)+
    with hq r01 show ?thesis by (auto simp: heart_img_def)
  qed
  have empty: "i \<in> set [?b..<?n] \<Longrightarrow> heart_img h i = HeartEmpty" for i
  proof -
    assume "i \<in> set [?b..<?n]"
    then have "q + r \<le> int i" using q0 r0 by (simp add: d1 nat_le_iff)
    with hq r01 show ?thesis by (simp add: heart_img_def) presburger
  qed
  have lb: "?b - ?a = nat (h mod 2)" and ln: "?n - ?b = nat ((m - h) div 2)"
    using q0 r0 d4 by (simp_all add: d1 d2 d3 q_def [symmetric] r_def [symmetric] nat_diff_distrib [symmetric])
  show ?thesis
    unfolding up map_append
    by (simp only: map_const_replicate [OF full] map_const_replicate [OF half] map_const_replicate [OF empty]
        length_upt lb ln) simp
qed

lemma blit_texts_simps [simp]:
  "blit_texts [] = []" "blit_texts (c # cmds) = cmd_texts c @ blit_texts cmds"
  "blit_texts (xs @ ys) = blit_texts xs @ blit_texts ys"
  by (simp_all add: blit_texts_def)

lemma blit_texts_concat [simp]: "blit_texts (concat xss) = concat (map blit_texts xss)"
  by (induction xss) (simp_all add: blit_texts_def)

lemma digit_char_of: "d < 10 \<Longrightarrow> of_char (digit_char d) = 48 + d"
  by (simp add: digit_char_def)

lemma parse_digits_append:
  "parse_digits acc (xs @ ys) = parse_digits acc xs \<bind> (\<lambda>v. parse_digits v ys)"
  by (induction acc xs rule: parse_digits.induct) (auto simp: Let_def)

lemma parse_nat_digits: "parse_digits 0 (nat_digits n) = Some n"
proof (induction n rule: nat_digits.induct)
  case (1 n)
  show ?case
  proof (cases "n < 10")
    case True
    then show ?thesis by (simp add: nat_digits.simps digit_char_of Let_def)
  next
    case False
    then have "n mod 10 < 10" by simp
    with 1 False show ?thesis
      by (simp add: nat_digits.simps [of n] parse_digits_append digit_char_of Let_def)
  qed
qed

lemma nat_digits_hd: "nat_digits n \<noteq> [] \<and> hd (nat_digits n) \<noteq> CHR ''-''"
proof (induction n rule: nat_digits.induct)
  case (1 n)
  have "d < 10 \<Longrightarrow> digit_char d \<noteq> CHR ''-''" for d
    using digit_char_of [of d] by auto
  with 1 show ?case by (auto simp: nat_digits.simps [of n])
qed

lemma parse_py_str_int: "parse_int_str (py_str_int n) = Some n"
  using nat_digits_hd [of "nat n"] nat_digits_hd [of "nat (- n)"]
  by (auto simp: parse_int_str_def py_str_int_def parse_nat_digits)

text \<open>
  C18: the counts can be read back from the inventory HUD: \<open>draw_inventory\<close> writes one
  text per item of \<open>ITEM_ORDER\<close>, in order, an \<open>x\<close> followed by Python's decimal
  rendering of the count, and parsing that rendering gives the count back.
\<close>

theorem draw_inventory_roundtrip:
  "map (\<lambda>str. parse_int_str (tl str)) (blit_texts (draw_inventory ha bag)) = map (\<lambda>it. Some (bag it)) ITEM_ORDER"
  by (simp add: draw_inventory_def ITEM_ORDER_def Let_def parse_py_str_int)

lemma walls_row:
  "(\<And>x. x \<in> set xs \<Longrightarrow> cell g x y \<in> {0, 1}) \<Longrightarrow>
   concat (map cmd_walls (map (\<lambda>x. Blit (if cell g x y = 0 then FloorImg else if th = Library then LibraryWallImg else WallImg)
                                        (int x * TILE, int y * TILE)) xs)) =
   map (\<lambda>x. (int x * TILE, int y * TILE)) (filter (\<lambda>x. cell g x y = 1) xs)"
  by (induction xs) auto

lemma draw_room_walls_gen:
  assumes "\<And>x y. x < ROOM_W \<Longrightarrow> y < ROOM_H \<Longrightarrow> cell g x y \<in> {0, 1}"
  shows "concat (map cmd_walls (draw_room g th)) = list_walls g"
proof -
  have "concat (map cmd_walls (draw_room g th)) =
      concat (map (\<lambda>y. concat (map cmd_walls (map (\<lambda>x.
         Blit (if cell g x y = 0 then FloorImg else if th = Library then LibraryWallImg else WallImg)
              (int x * TILE, int y * TILE)) [0..<ROOM_W]))) [0..<ROOM_H])"
    by (simp only: draw_room_def concat_map_concat map_map o_def)
  also have "\<dots> = list_walls g"
    unfolding list_walls_def using assms by (intro arg_cong [where f = concat] map_cong refl walls_row) auto
  finally show ?thesis .
qed

text \<open>
  C16: \<open>draw_room\<close> blits one tile per grid cell of a room, and the tiles it draws as
  walls are exactly the wall tiles \<open>list_walls\<close> gives to the collision code, in the
  same order: what the player sees as a wall is what stops the player.
\<close>

theorem draw_room_walls:
  assumes "i < ROOM_COUNT"
  shows "concat (map cmd_walls (draw_room (room_grid i) th)) = list_walls (room_grid i) \<and>
    length (draw_room (room_grid i) th) = ROOM_W * ROOM_H"
  using draw_room_walls_gen [OF room_grid_01 [OF assms]]
  by (simp add: draw_room_def length_concat o_def sum_list_triv del: game_consts)

lemma blit_texts_draws [simp]:
  "blit_texts (draw_room g th) = []" "blit_texts (chest_draw c) = []" "blit_texts (enemy_draw e) = []"
  "blit_texts (fireball_draw ha f) = []" "blit_texts (player_draw ha p) = []"
  "blit_texts (draw_hearts ha p) = []"
  "blit_texts (overlay ha msg col info) = [msg, info]" "blit_texts (title_screen ha) = [''Dungeon Explorer'', ''Press Enter to Start'']"
  by (simp_all add: draw_room_def chest_draw_def enemy_draw_def fireball_draw_def player_draw_def
      draw_hearts_def heart_img_def overlay_def title_screen_def blit_texts_def Let_def split_def)

lemma inventory_texts: "str \<in> set (blit_texts (draw_inventory ha bag)) \<Longrightarrow> hd str = CHR ''x''"
  by (auto simp: draw_inventory_def ITEM_ORDER_def Let_def)

lemma nth_room_themes: "i < ROOM_COUNT \<Longrightarrow> py_nth room_themes i = Inr (cfg_theme (ROOM_CONFIG i))"
  by (simp add: room_themes_def del: game_consts)

text \<open>
  C15: for a session that satisfies the invariant, drawing never raises; it starts
  with clearing the screen and ends with \<open>display.flip\<close>; the title text appears
  exactly on the title screen, the game-over text exactly in the game-over state and
  the win text exactly in the win state.
\<close>

theorem render_screens:
  assumes "session_inv s"
  shows "\<exists>cmds. render ha s = Inr cmds \<and> hd cmds = Fill (0, 0, 0) \<and> last cmds = Flip \<and>
    (''Dungeon Explorer'' \<in> set (blit_texts cmds) \<longleftrightarrow> s_state s = Title) \<and>
    (''You Died'' \<in> set (blit_texts cmds) \<longleftrightarrow> s_state s = Gameover) \<and>
    (''You Win!'' \<in> set (blit_texts cmds) \<longleftrightarrow> s_state s = Win)"
proof (cases "s_state s = Title")
  case True
  then show ?thesis by (simp add: render_def title_screen_def)
next
  case False
  obtain w es cs where d: "s_data s ! s_room s = (w, es, cs)" by (cases "s_data s ! s_room s") auto
  from assms have rooms: "s_rooms s = map room_grid [0..<ROOM_COUNT]" and r0: "s_room s < ROOM_COUNT"
    by (simp_all add: session_inv_def)
  have x: "hd ''You Died'' \<noteq> CHR ''x''" "hd ''You Win!'' \<noteq> CHR ''x''" "hd ''Dungeon Explorer'' \<noteq> CHR ''x''"
    by simp_all
  let ?inv = "blit_texts (draw_inventory ha (s_inventory s))"
  have ni: "''You Died'' \<notin> set ?inv" "''You Win!'' \<notin> set ?inv" "''Dungeon Explorer'' \<notin> set ?inv"
    using inventory_texts x by blast+
  show ?thesis
    using False ni r0
    by (simp add: render_def render_frame_def rooms session_room_data(1) [OF assms] d nth_room_themes
        overlay_def del: game_consts)
qed

text \<open>
  C17: \<open>draw_hearts\<close> draws one heart per two points of maximum health, left to right
  from \<open>(10, 10)\<close>: as many full hearts as the health has pairs of points, a half heart
  for an odd point, and empty hearts for the rest; so the hearts always show the
  player's health exactly.
\<close>

theorem draw_hearts_health:
  assumes "player_inv p" and "even (max_health p)"
  shows "draw_hearts ha p =
    map (\<lambda>(i, img). Blit img (10 + int i * (fst (img_size ha HeartFull) + 4), 10))
      (enumerate 0 (replicate (nat (health p div 2)) HeartFull @ replicate (nat (health p mod 2)) HeartHalf @
                    replicate (nat ((max_health p - health p) div 2)) HeartEmpty))"
proof -
  from assms(1) have "0 \<le> health p" and "health p \<le> max_health p" by (simp_all add: player_inv_def)
  note h = heart_imgs [OF this assms(2)]
  have "length (map (heart_img (health p)) [0..<nat (max_health p div 2)]) = nat (max_health p div 2)" by simp
  then show ?thesis
    unfolding draw_hearts_def map_zip_self [of "\<lambda>i img. Blit img (10 + int i * (fst (img_size ha HeartFull) + 4), 10)"]
    by (simp only: enumerate_eq_zip h [symmetric]) simp
qed

theorem draw_hearts_health_witness:
  "player_inv ((new_player sample_assets)\<lparr>health := 5\<rparr>) \<and> even (max_health ((new_player sample_assets)\<lparr>health := 5\<rparr>)) \<and>
   draw_hearts \<lparr>img_size = \<lambda>_. (32, 32), text_size = \<lambda>_ _. (100, 20)\<rparr> ((new_player sample_assets)\<lparr>health := 5\<rparr>) =
     [Blit HeartFull (10, 10), Blit HeartFull (46, 10), Blit HeartHalf (82, 10), Blit HeartEmpty (118, 10),
      Blit HeartEmpty (154, 10)]"
proof -
  let ?p = "(new_player sample_assets)\<lparr>health := 5\<rparr>"
  have pi: "player_inv ?p" and ev: "even (max_health ?p)"
    by (simp_all add: player_inv_def new_player_def PLAYER_MAX_HEARTS_def)
  from draw_hearts_health [OF pi ev, of "\<lparr>img_size = \<lambda>_. (32, 32), text_size = \<lambda>_ _. (100, 20)\<rparr>"] pi ev
  show ?thesis by (simp add: new_player_def PLAYER_MAX_HEARTS_def numeral_eq_Suc)
qed

theorem draw_room_walls_witness:
  "(0::nat) < ROOM_COUNT \<and> concat (map cmd_walls (draw_room (room_grid 0) Normal)) = list_walls (room_grid 0) \<and>
   length (draw_room (room_grid 0) Normal) = ROOM_W * ROOM_H"
  using draw_room_walls [of 0 Normal] by simp

theorem render_screens_witness:
  "\<exists>s cmds. session_inv s \<and> s_state s = Gameover \<and>
     render \<lparr>img_size = \<lambda>_. (32, 32), text_size = \<lambda>_ _. (100, 20)\<rparr> s = Inr cmds \<and>
     ''You Died'' \<in> set (blit_texts cmds) \<and> ''You Win!'' \<notin> set (blit_texts cmds)"
proof -
  from sample_run_starts obtain s0 where
    "reset_run sample_assets (blank_session sample_assets \<lparr>draws = id, rpos = 0\<rparr>) = Some (Inr s0)" ..
  then have "session_inv s0" using reset_run_inv by blast
  then have inv: "session_inv (s0\<lparr>s_state := Gameover\<rparr>)" by (simp add: session_inv_def)
  from render_screens [OF inv, of "\<lparr>img_size = \<lambda>_. (32, 32), text_size = \<lambda>_ _. (100, 20)\<rparr>"] inv
  show ?thesis by fastforce
qed

end
