(* ===== verification/Spec2Isabelle.thy ===== *)
theory Spec2Isabelle
  imports Render
begin

text \<open>
  A verification development for the dungeon game of \<open>src/main.py\<close> (one Python
  file over pygame): a player crosses a fixed graph of ten rooms, fights four kinds of
  enemies with a sword, picks up food from chests, and wins by clearing room 9.

  \<^bold>\<open>How the program is modelled.\<close>  Shallow embedding: each Python function or
  method is a HOL function of the same name; each class is a \<open>record\<close>; a method that
  mutates \<open>self\<close> returns the new record; \<open>pygame.time.get_ticks()\<close> is an
  argument \<open>now\<close>; every raise the code can reach (KeyError, IndexError,
  ZeroDivisionError) is a value of \<open>py_error\<close> in a result \<open>py_error + 'a\<close>.  Python
  floats are idealised as \<open>real\<close> (rounding is not modelled), Python ints are \<open>int\<close>,
  \<open>int(x)\<close> on a float truncates towards zero (\<open>py_int\<close>), \<open>//\<close> is \<open>div\<close>.
  pygame is modelled from its documented behaviour: \<open>Rect\<close> (four ints and
  \<open>colliderect\<close>), \<open>Mask.overlap\<close> (a common opaque pixel at an offset),
  \<open>mask.from_surface\<close> (the pixels of alpha above 127).  The image files are not in the
  repository: the entities read only their sizes and masks, collected in the record
  \<open>assets\<close>, which \<open>Assets\<close> computes from any map of paths to surfaces.

  \<^bold>\<open>Theories.\<close>  Imports follow the calls of the code.
  \<^item> \<open>Prelude\<close>: Python's \<open>int()\<close>, float \<open>%\<close>, \<open>math.hypot\<close>, raising list
    indexing and dict lookup, \<open>r_bind\<close> (an exception propagates); the lemma
    collections \<open>model_defs\<close> and \<open>inv_intros\<close>.
  \<^item> \<open>Geometry\<close> (lines 114--125): rectangles, masks, \<open>pixel_collision\<close>,
    \<open>angle_between\<close>, \<open>angle_diff\<close>; soundness of the pixel test against the boxes.
  \<^item> \<open>Dungeon\<close> (lines 7--41, 127--218): constants, \<open>NEIGHBORS\<close>, \<open>ROOM_CONFIG\<close>,
    \<open>EXTRA_WALLS\<close>, \<open>make_static_room\<close>, \<open>list_walls\<close>; the grid built by the loops is
    proved equal to the declarative layout \<open>room_cell\<close>.
  \<^item> \<open>Player\<close> (lines 273--356): \<open>Player\<close> and its methods; the health invariant,
    invulnerability windows, all-or-nothing movement, the sword's aim.
  \<^item> \<open>Enemy\<close> (lines 25--35, 369--489): \<open>Enemy\<close> and \<open>Fireball\<close>; \<open>Enemy.update\<close>
    takes and returns the shared projectile list, \<open>Fireball.update\<close> the player.
    Proved: \<open>Enemy.update\<close> never raises (the ZeroDivisionError of \<open>shoot\<close> is
    unreachable), the eye's firing band, the ghost's intangibility, solid enemies stay
    clear of walls, fireball damage goes through \<open>take_damage\<close>.
  \<^item> \<open>Items\<close> (lines 105--112, 491--504, 524, 665--678): chests, the inventory (a
    total function from items to counts), the food keys; counts stay in \<open>[0, 5]\<close>.
  \<^item> \<open>Combat\<close> (lines 568--580, 708, 713): \<open>handle_melee\<close> is proved to apply at
    most one hit per call (a refinement to "the first touching enemy hits"),
    \<open>handle_sword\<close> followed by the purge removes exactly the enemies it kills.
  \<^item> \<open>Generation\<close> (lines 231--242): the room loop of \<open>generate_static_dungeon\<close>,
    proved to yield \<open>make_static_room i\<close> for each of the ten rooms.
  \<^item> \<open>Transition\<close> (lines 585--640): \<open>try_room_transition\<close>.  Proved on the
    generated dungeon: it raises KeyError exactly through room 5's east door and room
    8's north door (the asymmetric edges of \<open>NEIGHBORS\<close>), and otherwise a room
    change lands a player of at most one tile clear of walls and doors.  The finite
    facts about the ten rooms are one table checked by evaluation (\<open>room_table\<close>);
    the geometry is linear integer arithmetic on the door rectangles.

  \<^item> \<open>Py_Random\<close>: Python's \<open>random\<close> as an explicit source: a sequence of
    draws and a position; \<open>randint a b\<close> maps one draw into \<open>[a, b]\<close>, \<open>choice\<close> one
    draw to an index.  No distribution is assumed, so every theorem holds for every
    seed of the real generator.
  \<^item> \<open>Population\<close> (lines 220--268): \<open>random_free\<close> is a \<open>partial_function
    (option)\<close>, because its \<open>while True\<close> loop has no bound: \<open>None\<close> is the loop
    that never returns.  No fuel is chosen; instead \<open>random_free_returns_iff\<close>
    proves that it returns exactly when some pair of draws names a free floor tile,
    and \<open>random_free_spot\<close> bounds what it returns.  The \<open>for _ in range(n)\<close> loops
    whose body calls it are \<open>repeat_opt\<close>; \<open>populate_room\<close> and \<open>populate_rooms\<close>
    are the second loop of \<open>generate_static_dungeon\<close>, with the room counts proved
    and every entity placed on an interior floor tile clear of the walls.  The
    converse is proved too: when every draw is the same, the second enemy of room 0
    can only draw the tile of the first, so \<open>populate_room\<close> is \<open>None\<close>.
  \<^item> \<open>Game\<close> (lines 55, 509--524, 644--719): the globals as the record
    \<open>session\<close>; \<open>reset_run\<close>; the event handlers (\<open>click\<close>, \<open>eat_key\<close>,
    \<open>open_key\<close>, \<open>play_event\<close>, \<open>handle_event\<close>, \<open>handle_events\<close>); one frame of the
    play state (\<open>frame\<close>, \<open>frame_room\<close>, \<open>frame_end\<close>) in the code's order;
    \<open>loop_iter\<close>, one iteration of \<open>while running\<close>, a \<open>session result option\<close>
    (\<open>None\<close> when \<open>reset_run\<close> does not return, \<open>Inl\<close> an exception that ends the
    program); and the runs of the program as the inductive \<open>reachable\<close>.
  \<^item> \<open>Game_Props\<close>: the session invariant \<open>session_inv\<close> is established by
    \<open>reset_run\<close> and kept by every handler and every frame, so it holds in every
    reachable session (rule induction); from it, the only exception an iteration
    raises is the transition's KeyError.  Also: the running flag and QUIT, the restart,
    and the order of the game-over and win checks (a player killed in the final room
    in the frame its last enemy dies still wins, \<open>win_while_dead\<close>).  The labelled
    state machine \<open>game_step\<close> (events \<open>Start\<close>, \<open>Die\<close>, \<open>Clear\<close>) is refined by
    every iteration in two phases: its events make at most one \<open>Start\<close> step and only
    on a start key, its frame at most one \<open>Die\<close> step (dead player) or \<open>Clear\<close> step
    (final room cleared) (\<open>loop_iter_refines\<close>).  The generated data is well-typed
    (\<open>generate_static_dungeon_typed\<close>: grid shapes, cells in \<open>{0, 1}\<close>, wall lists),
    and placement does not keep the player's start tile free: every run whose first
    placement draw of room 0 names tile \<open>(2, 2)\<close> starts with an enemy on the player
    (\<open>start_enemy_overlap\<close>).  \<open>reset_run\<close> need not return: for a random
    source that repeats one value it is \<open>None\<close> (\<open>reset_run_diverges\<close>), the
    hang the spec asks a retry cap to prevent.
  \<^item> \<open>Assets\<close> (lines 50--111): \<open>load_masked\<close>, \<open>load_image\<close> and the module-level
    loads in the code's order (\<open>asset_loads\<close>, \<open>load_all\<close>) over a parameter
    \<open>files\<close> (paths to decoded surfaces); \<open>game_assets\<close> and \<open>hud_of\<close> are the sizes
    and masks the entities and the drawing code read.  Proved: loading raises
    \<open>FileNotFoundError\<close> for the first missing file or binds every image
    (\<open>load_assets_files\<close>); loaded assets are well-formed
    (\<open>assets_wf\<close>), so the player's pixel wall test is sound against the boxes of the
    loaded images (\<open>hits_wall_loaded_boxes\<close>).
  \<^item> \<open>Render\<close> (lines 50--53, 66--91, 358--367, 452--563, 684--752): the drawing
    code as the list of screen calls it makes (\<open>Fill\<close>, \<open>Blit\<close> of an image at a
    position, \<open>Flip\<close>): the \<open>draw\<close> methods, \<open>draw_hearts\<close>,
    \<open>draw_inventory\<close> (with Python's \<open>str\<close> of an int, \<open>py_str_int\<close>),
    \<open>draw_room\<close>, the title screen, the overlays, \<open>render\<close> after the events and
    \<open>loop_output\<close>, an iteration with its drawing.  Proved: the hearts show the
    health, the walls drawn are the walls that collide, the HUD counts read back,
    and the screens shown match the game state.

  \<^bold>\<open>Witnesses.\<close>  The witnesses of the session theorems run \<open>reset_run\<close> on a
  sample asset record with the draw sequence \<open>id\<close>, evaluated by \<open>code_simp\<close>
  (\<open>sample_run_starts\<close>).

  \<^bold>\<open>Not modelled.\<close>  Decoding the image files (PNG) and the fonts'
  metrics (\<open>font.SysFont\<close>, \<open>font.render\<close>, \<open>transform.rotate\<close>): the files are not
  in the repository, so the surfaces are the parameter \<open>files\<close> and the text and
  rotated-sword sizes parameters of \<open>hud_of\<close>.  What pygame makes of the screen
  calls (pixels, glyphs, the bitmap of the rotated sword) and \<open>clock.tick\<close> (the frame rate), which change no
  state of the program.  The Mersenne Twister behind \<open>random\<close>: any draw sequence is
  allowed instead, so the theorems hold for every seed.
\<close>

end
